(* ===== verification/Mesh_Prelude.thy ===== *)
theory Mesh_Prelude
  imports Main "HOL-Library.Word" "HOL-Library.AList"
begin

text \<open>
  The vocabulary every component theory shares.

  \<^item> Machine integers are words of their width, byte strings are lists of 8-bit words, and a
    point of the monotonic clock (\<^verbatim>\<open>std::time::Instant\<close>) is a natural number of ticks, so that
    the truncating subtraction of \<^typ>\<open>nat\<close> is the saturating \<^verbatim>\<open>Instant::elapsed\<close>.
  \<^item> A Rust function that may fail returns an \<open>outcome\<close>: \<open>Ok\<close>, \<open>Err\<close>, or \<open>Panic\<close> for an
    out-of-range index, slice or \<^verbatim>\<open>advance\<close>. The operator \<^verbatim>\<open>?\<close> is \<open>and_then\<close>.
  \<^item> \<^verbatim>\<open>BytesMut\<close> is used as a growable byte vector: \<^verbatim>\<open>put_*\<close> appends (integers big-endian),
    \<^verbatim>\<open>advance\<close> and \<^verbatim>\<open>split_to\<close> consume a prefix and panic when it is not there.
  \<^item> A \<^verbatim>\<open>HashMap\<close> is an association list whose order stands for the map's unspecified
    iteration order; a \<^verbatim>\<open>HashSet\<close> that is only tested for membership is a set.
\<close>


unbundle bit_operations_syntax

type_synonym u8 = "8 word"
type_synonym u16 = "16 word"
type_synonym u32 = "32 word"
type_synonym u64 = "64 word"
type_synonym u128 = "128 word"
type_synonym bytes = "u8 list"

type_synonym instant = nat
type_synonym duration = nat
type_synonym ('k, 'v) hash_map = "('k \<times> 'v) list"

section \<open>Outcomes\<close>

datatype ('e, 'a) outcome = Ok 'a | Err 'e | Panic

fun and_then :: "('e, 'a) outcome \<Rightarrow> ('a \<Rightarrow> ('e, 'b) outcome) \<Rightarrow> ('e, 'b) outcome" where
  "and_then (Ok x) f = f x"
| "and_then (Err e) f = Err e"
| "and_then Panic f = Panic"

fun is_ok :: "('e, 'a) outcome \<Rightarrow> bool" where
  "is_ok (Ok x) \<longleftrightarrow> True"
| "is_ok (Err e) \<longleftrightarrow> False"
| "is_ok Panic \<longleftrightarrow> False"

lemma is_okE: "is_ok m \<Longrightarrow> (\<And>x. m = Ok x \<Longrightarrow> P) \<Longrightarrow> P"
  by (cases m) auto

lemma and_then_eq_Ok: "and_then m f = Ok y \<longleftrightarrow> (\<exists>x. m = Ok x \<and> f x = Ok y)"
  by (cases m) auto

lemma and_then_eq_Err: "and_then m f = Err e \<longleftrightarrow> m = Err e \<or> (\<exists>x. m = Ok x \<and> f x = Err e)"
  by (cases m) auto

lemma and_then_eq_Panic: "and_then m f = Panic \<longleftrightarrow> m = Panic \<or> (\<exists>x. m = Ok x \<and> f x = Panic)"
  by (cases m) auto

lemma and_then_assoc: "and_then (and_then m f) g = and_then m (\<lambda>x. and_then (f x) g)"
  by (cases m) auto

lemmas and_then_iffs = and_then_eq_Ok and_then_eq_Err and_then_eq_Panic

section \<open>Indexing and slicing, with their panics\<close>

definition index :: "'a list \<Rightarrow> nat \<Rightarrow> ('e, 'a) outcome" where
  "index xs i = (if i < length xs then Ok (xs ! i) else Panic)"

definition subslice :: "'a list \<Rightarrow> nat \<Rightarrow> nat \<Rightarrow> ('e, 'a list) outcome" where
  "subslice xs i j = (if i \<le> j \<and> j \<le> length xs then Ok (take (j - i) (drop i xs)) else Panic)"

definition advance :: "'a list \<Rightarrow> nat \<Rightarrow> ('e, 'a list) outcome" where
  "advance xs n = (if n \<le> length xs then Ok (drop n xs) else Panic)"

definition split_to :: "'a list \<Rightarrow> nat \<Rightarrow> ('e, 'a list \<times> 'a list) outcome" where
  "split_to xs n = (if n \<le> length xs then Ok (take n xs, drop n xs) else Panic)"

lemma index_in [simp]: "i < length xs \<Longrightarrow> index xs i = Ok (xs ! i)"
  by (simp add: index_def)

lemma subslice_in [simp]:
  "i \<le> j \<Longrightarrow> j \<le> length xs \<Longrightarrow> subslice xs i j = Ok (take (j - i) (drop i xs))"
  by (simp add: subslice_def)

lemma advance_in [simp]: "n \<le> length xs \<Longrightarrow> advance xs n = Ok (drop n xs)"
  by (simp add: advance_def)

lemma split_to_in [simp]: "n \<le> length xs \<Longrightarrow> split_to xs n = Ok (take n xs, drop n xs)"
  by (simp add: split_to_def)

lemma access_eq_Ok:
  "index xs i = Ok y \<longleftrightarrow> i < length xs \<and> y = xs ! i"
  "subslice xs i j = Ok ys \<longleftrightarrow> i \<le> j \<and> j \<le> length xs \<and> ys = take (j - i) (drop i xs)"
  "advance xs n = Ok ys \<longleftrightarrow> n \<le> length xs \<and> ys = drop n xs"
  "split_to xs n = Ok p \<longleftrightarrow> n \<le> length xs \<and> p = (take n xs, drop n xs)"
  by (auto simp: index_def subslice_def advance_def split_to_def)

section \<open>Big-endian integers\<close>

lemma unat_less:
  "unat (a :: u8) < 256" "unat (b :: u16) < 65536" "unat (c :: u32) < 4294967296"
  using unsigned_less [of a] unsigned_less [of b] unsigned_less [of c] by simp_all

lemma unat_ucast_up [simp]:
  "unat (ucast a :: u16) = unat (a :: u8)" "unat (ucast a :: u32) = unat (a :: u8)"
  "unat (ucast b :: u32) = unat (b :: u16)" "unat (ucast c :: u64) = unat (c :: u32)"
  using unat_less(1) [of a] unat_less(2) [of b] unat_less(3) [of c]
  by (simp_all add: unsigned_ucast_eq take_bit_nat_eq_self_iff)

lemma unat_le: "unat (a :: u8) \<le> 255" "unat (b :: u16) \<le> 65535"
  using unat_less(1) [of a] unat_less(2) [of b] by linarith+

definition be16 :: "u16 \<Rightarrow> bytes" where
  "be16 w = [ucast (drop_bit 8 w), ucast w]"

definition be32 :: "u32 \<Rightarrow> bytes" where
  "be32 w = be16 (ucast (drop_bit 16 w)) @ be16 (ucast w)"

definition be64 :: "u64 \<Rightarrow> bytes" where
  "be64 w = be32 (ucast (drop_bit 32 w)) @ be32 (ucast w)"

definition be128 :: "u128 \<Rightarrow> bytes" where
  "be128 w = be64 (ucast (drop_bit 64 w)) @ be64 (ucast w)"

definition of_be16 :: "bytes \<Rightarrow> u16" where
  "of_be16 bs = push_bit 8 (ucast (bs ! 0)) OR ucast (bs ! 1)"

definition of_be32 :: "bytes \<Rightarrow> u32" where
  "of_be32 bs = push_bit 16 (ucast (of_be16 (take 2 bs))) OR ucast (of_be16 (drop 2 bs))"

definition of_be64 :: "bytes \<Rightarrow> u64" where
  "of_be64 bs = push_bit 32 (ucast (of_be32 (take 4 bs))) OR ucast (of_be32 (drop 4 bs))"

definition of_be128 :: "bytes \<Rightarrow> u128" where
  "of_be128 bs = push_bit 64 (ucast (of_be64 (take 8 bs))) OR ucast (of_be64 (drop 8 bs))"

lemma join_halves:
  fixes w :: "'a::len word"
  assumes "LENGTH('b::len) = n" "LENGTH('c::len) = LENGTH('a) - n" "n \<le> LENGTH('a)"
  shows "push_bit n (ucast (ucast (drop_bit n w) :: 'c word)) OR ucast (ucast w :: 'b word) = w"
  using assms by (intro bit_word_eqI) (auto simp: bit_simps)

lemma split_halves_hi:
  fixes h :: "'c::len word" and l :: "'b::len word"
  assumes "LENGTH('b) = n" "LENGTH('a::len) = n + LENGTH('c)"
  shows "ucast (drop_bit n (push_bit n (ucast h) OR ucast l :: 'a word)) = h"
  using assms by (intro bit_word_eqI) (auto simp: bit_simps dest: bit_imp_le_length)

lemma split_halves_lo:
  fixes h :: "'c::len word" and l :: "'b::len word"
  assumes "LENGTH('b) = n" "LENGTH('a::len) = n + LENGTH('c)"
  shows "ucast (push_bit n (ucast h) OR ucast l :: 'a word) = l"
  using assms by (intro bit_word_eqI) (auto simp: bit_simps)

lemma length_be [simp]:
  "length (be16 a) = 2" "length (be32 b) = 4" "length (be64 c) = 8" "length (be128 d) = 16"
  by (simp_all add: be16_def be32_def be64_def be128_def)

lemma of_be16_be16 [simp]: "of_be16 (be16 w) = w"
  by (simp add: of_be16_def be16_def join_halves)

lemma of_be32_be32 [simp]: "of_be32 (be32 w) = w"
  by (simp add: of_be32_def be32_def join_halves)

lemma of_be64_be64 [simp]: "of_be64 (be64 w) = w"
  by (simp add: of_be64_def be64_def join_halves)

lemma of_be128_be128 [simp]: "of_be128 (be128 w) = w"
  by (simp add: of_be128_def be128_def join_halves)

lemma be16_of_be16 [simp]: "length bs = 2 \<Longrightarrow> be16 (of_be16 bs) = bs"
proof -
  assume "length bs = 2"
  then obtain a b where bs: "bs = [a, b]"
    by (metis (no_types) length_0_conv length_Suc_conv numeral_2_eq_2)
  show ?thesis by (simp add: bs be16_def of_be16_def split_halves_hi split_halves_lo
         del: drop_bit_or)
qed

lemma be32_of_be32 [simp]: "length bs = 4 \<Longrightarrow> be32 (of_be32 bs) = bs"
  by (simp add: be32_def of_be32_def split_halves_hi split_halves_lo
         del: drop_bit_or)

lemma be64_of_be64 [simp]: "length bs = 8 \<Longrightarrow> be64 (of_be64 bs) = bs"
  by (simp add: be64_def of_be64_def split_halves_hi split_halves_lo
         del: drop_bit_or)

lemma be128_of_be128 [simp]: "length bs = 16 \<Longrightarrow> be128 (of_be128 bs) = bs"
  by (simp add: be128_def of_be128_def split_halves_hi split_halves_lo
         del: drop_bit_or)

lemma of_be16_pair: "of_be16 [a, b] = push_bit 8 (ucast a) OR ucast b"
  by (simp add: of_be16_def)

text \<open>ASCII string literals as the bytes the wire carries.\<close>

definition ascii :: "string \<Rightarrow> bytes" where
  "ascii s = map of_char s"

section \<open>Hash maps\<close>

definition hm_wf :: "('k, 'v) hash_map \<Rightarrow> bool" where
  "hm_wf m \<longleftrightarrow> distinct (map fst m)"

abbreviation hm_get :: "('k, 'v) hash_map \<Rightarrow> 'k \<Rightarrow> 'v option" where
  "hm_get \<equiv> map_of"

abbreviation hm_insert :: "'k \<Rightarrow> 'v \<Rightarrow> ('k, 'v) hash_map \<Rightarrow> ('k, 'v) hash_map" where
  "hm_insert \<equiv> AList.update"

abbreviation hm_remove :: "'k \<Rightarrow> ('k, 'v) hash_map \<Rightarrow> ('k, 'v) hash_map" where
  "hm_remove \<equiv> AList.delete"

definition hm_retain :: "('k \<Rightarrow> 'v \<Rightarrow> bool) \<Rightarrow> ('k, 'v) hash_map \<Rightarrow> ('k, 'v) hash_map" where
  "hm_retain P m = filter (\<lambda>(k, v). P k v) m"

lemma hm_wf_empty [simp]: "hm_wf []"
  by (simp add: hm_wf_def)

lemma hm_wf_insert [simp]: "hm_wf m \<Longrightarrow> hm_wf (hm_insert k v m)"
  by (simp add: hm_wf_def AList.distinct_update)

lemma hm_wf_remove [simp]: "hm_wf m \<Longrightarrow> hm_wf (hm_remove k m)"
  by (simp add: hm_wf_def AList.distinct_delete)

lemma hm_wf_retain [simp]: "hm_wf m \<Longrightarrow> hm_wf (hm_retain P m)"
  by (auto simp: hm_wf_def hm_retain_def distinct_map_filter)

lemma hm_get_insert [simp]: "hm_get (hm_insert k v m) = (hm_get m)(k \<mapsto> v)"
  by (simp add: AList.update_conv')

lemma hm_get_remove [simp]: "hm_get (hm_remove k m) = (hm_get m)(k := None)"
  by (simp add: AList.delete_conv')

lemma hm_get_retain:
  "hm_wf m \<Longrightarrow> hm_get (hm_retain P m) k =
     (case hm_get m k of None \<Rightarrow> None | Some v \<Rightarrow> if P k v then Some v else None)"
proof (induction m)
  case Nil
  then show ?case by (simp add: hm_retain_def)
next
  case (Cons p m)
  obtain k' v' where p: "p = (k', v')" by (cases p)
  have none: "hm_get (hm_retain P m) k' = None" if "k' \<notin> fst ` set m"
    using that by (auto simp: hm_retain_def map_of_eq_None_iff)
  from Cons show ?case
    using none by (auto simp: p hm_wf_def hm_retain_def split: option.splits)
qed

lemma hm_get_mem: "hm_wf m \<Longrightarrow> hm_get m k = Some v \<longleftrightarrow> (k, v) \<in> set m"
  by (auto simp: hm_wf_def map_of_eq_Some_iff)

lemma hm_keys: "fst ` set m = dom (hm_get m)"
  by (simp add: dom_map_of_conv_image_fst)

text \<open>Removing a list of keys, one after the other.\<close>

definition hm_remove_all :: "'k list \<Rightarrow> ('k, 'v) hash_map \<Rightarrow> ('k, 'v) hash_map" where
  "hm_remove_all ks m = fold hm_remove ks m"

lemma hm_wf_remove_all [simp]: "hm_wf m \<Longrightarrow> hm_wf (hm_remove_all ks m)"
  unfolding hm_remove_all_def by (induction ks arbitrary: m) auto

lemma hm_get_remove_all:
  "hm_get (hm_remove_all ks m) k = (if k \<in> set ks then None else hm_get m k)"
  unfolding hm_remove_all_def by (induction ks arbitrary: m) auto

section \<open>Step systems\<close>

text \<open>
  A component with a state is a set of initial states and a step relation; what holds initially and
  is kept by every step holds in every reachable state.
\<close>

inductive reachable :: "('s \<Rightarrow> bool) \<Rightarrow> ('s \<Rightarrow> 's \<Rightarrow> bool) \<Rightarrow> 's \<Rightarrow> bool"
  for init step where
  reachable_init: "init s \<Longrightarrow> reachable init step s"
| reachable_step: "reachable init step s \<Longrightarrow> step s s' \<Longrightarrow> reachable init step s'"

locale step_invariant =
  fixes init :: "'s \<Rightarrow> bool" and step :: "'s \<Rightarrow> 's \<Rightarrow> bool" and inv :: "'s \<Rightarrow> bool"
  assumes inv_init: "init s \<Longrightarrow> inv s"
    and inv_step: "inv s \<Longrightarrow> step s s' \<Longrightarrow> inv s'"
begin

lemma inv_reachable: "reachable init step s \<Longrightarrow> inv s"
  by (induction rule: reachable.induct) (auto intro: inv_init inv_step)

lemma inv_steps: "step\<^sup>*\<^sup>* s s' \<Longrightarrow> inv s \<Longrightarrow> inv s'"
  by (induction rule: rtranclp_induct) (auto intro: inv_step)

end

end
