(* ===== verification/Core_Types.thy ===== *)
theory Core_Types
  imports Mesh_Prelude
begin

text \<open>
  The crate \<^verbatim>\<open>pim-core\<close>: node identifiers with their textual form (\<^verbatim>\<open>types.rs\<close>), the shared
  error type (\<^verbatim>\<open>error.rs\<close>), and the derivation of a node's mesh addresses from its identifier
  (\<^verbatim>\<open>mesh_address.rs\<close>). SHA-256 and BLAKE3 are parameters. The lemmas show that the textual form
  of an identifier parses back to it, and that a derived address lies in the configured prefix and
  is never its network or broadcast address.
\<close>

section \<open>Errors\<close>

text \<open>
  \<^verbatim>\<open>PimError\<close> wraps a formatted message; the model has one constructor per message, with the
  values it is formatted from.
\<close>

datatype error_message =
    UnknownFrameType u8 | FrameTooShortForHeader | InvalidMagic u16 | UnsupportedVersion u8
  | PayloadTooLarge u32 | FrameTruncated nat nat | FrameTooLarge u32
  | DataFrameTooShort nat | DataFrameTruncated nat nat
  | UnknownHandshakeType u8 | HandshakeFrameEmpty | HandshakeTooShort nat nat
  | HeartbeatTooShort nat
  | UnknownControlType u8 | ControlFrameEmpty | GoodbyeTooShort | PingTooShort | PongTooShort
  | PeerInfoTooShort | PeerInfoTruncated nat nat | FriendlyNameNotUtf8
  | PluginPayloadTooShort | PluginHeaderTruncated nat nat | PluginKindNotUtf8
  | PluginPayloadTruncated nat nat
  | RouteUpdateTooShort | TooManyRouteEntries u16 | RouteUpdateTruncated nat nat
  | NodeIdLength nat | NodeIdNotUtf8 | NodeIdNotHex bytes
  | OtherMessage string

datatype pim_error =
    Crypto error_message | Protocol error_message | Transport error_message
  | Routing error_message | Tun error_message | Gateway error_message
  | Config error_message | Io string

section \<open>UTF-8\<close>

text \<open>
  \<^verbatim>\<open>std::str::from_utf8\<close> accepts exactly the well-formed byte sequences of the Unicode
  standard: no overlong forms, no surrogates, nothing above U+10FFFF. A Rust \<^verbatim>\<open>String\<close> is a byte
  string with this property.
\<close>

definition utf8_cont :: "u8 \<Rightarrow> bool" where
  "utf8_cont b \<longleftrightarrow> 0x80 \<le> b \<and> b \<le> 0xBF"

definition utf8_second :: "u8 \<Rightarrow> u8 \<Rightarrow> bool" where
  "utf8_second a b \<longleftrightarrow>
     (if a = 0xE0 then 0xA0 \<le> b \<and> b \<le> 0xBF
      else if a = 0xED then 0x80 \<le> b \<and> b \<le> 0x9F
      else if a = 0xF0 then 0x90 \<le> b \<and> b \<le> 0xBF
      else if a = 0xF4 then 0x80 \<le> b \<and> b \<le> 0x8F
      else utf8_cont b)"

fun utf8_valid :: "bytes \<Rightarrow> bool" where
  "utf8_valid [] \<longleftrightarrow> True"
| "utf8_valid [a] \<longleftrightarrow> a < 0x80"
| "utf8_valid [a, b] \<longleftrightarrow>
     (if a < 0x80 then utf8_valid [b] else 0xC2 \<le> a \<and> a \<le> 0xDF \<and> utf8_cont b)"
| "utf8_valid [a, b, c] \<longleftrightarrow>
     (if a < 0x80 then utf8_valid [b, c]
      else if a \<le> 0xDF then 0xC2 \<le> a \<and> utf8_cont b \<and> utf8_valid [c]
      else a \<le> 0xEF \<and> utf8_second a b \<and> utf8_cont c)"
| "utf8_valid (a # b # c # d # s) \<longleftrightarrow>
     (if a < 0x80 then utf8_valid (b # c # d # s)
      else if a \<le> 0xDF then 0xC2 \<le> a \<and> utf8_cont b \<and> utf8_valid (c # d # s)
      else if a \<le> 0xEF then utf8_second a b \<and> utf8_cont c \<and> utf8_valid (d # s)
      else a \<le> 0xF4 \<and> utf8_second a b \<and> utf8_cont c \<and> utf8_cont d \<and> utf8_valid s)"

lemma utf8_valid_ascii_Cons: "a < 0x80 \<Longrightarrow> utf8_valid (a # s) = utf8_valid s"
  by (cases "a # s" rule: utf8_valid.cases) auto

lemma utf8_valid_ascii: "(\<And>b. b \<in> set s \<Longrightarrow> b < 0x80) \<Longrightarrow> utf8_valid s"
  by (induction s) (auto simp: utf8_valid_ascii_Cons)

section \<open>Node identifiers\<close>

datatype node_id = NodeId (as_bytes: bytes)

definition wf_node_id :: "node_id \<Rightarrow> bool" where
  "wf_node_id n \<longleftrightarrow> length (as_bytes n) = 16"

lemma as_bytes_eq_iff [simp]: "as_bytes a = as_bytes b \<longleftrightarrow> a = b"
  by (cases a; cases b) simp

definition NodeId_from_bytes :: "bytes \<Rightarrow> node_id" where
  "NodeId_from_bytes bs = NodeId bs"

definition NodeId_from_public_key :: "(bytes \<Rightarrow> bytes) \<Rightarrow> bytes \<Rightarrow> node_id" where
  "NodeId_from_public_key sha256 pk = NodeId (take 16 (sha256 pk))"

subsection \<open>Hexadecimal text\<close>

definition hex_digit :: "u8 \<Rightarrow> u8" where
  "hex_digit n = (if n < 10 then 48 + n else 87 + n)"

definition hex_byte :: "u8 \<Rightarrow> bytes" where
  "hex_byte b = [hex_digit (drop_bit 4 b), hex_digit (b AND 15)]"

definition NodeId_to_hex :: "node_id \<Rightarrow> bytes" where
  "NodeId_to_hex n = concat (map hex_byte (as_bytes n))"

text \<open>
  \<^verbatim>\<open>u8::from_str_radix(s, 16)\<close> on a two-byte string: an optional leading \<^verbatim>\<open>+\<close>, then digits of
  either case.
\<close>

definition digit_of_hex :: "u8 \<Rightarrow> u8 option" where
  "digit_of_hex c =
     (if 48 \<le> c \<and> c \<le> 57 then Some (c - 48)
      else if 97 \<le> c \<and> c \<le> 102 then Some (c - 87)
      else if 65 \<le> c \<and> c \<le> 70 then Some (c - 55)
      else None)"

definition from_str_radix16 :: "u8 \<Rightarrow> u8 \<Rightarrow> u8 option" where
  "from_str_radix16 c d =
     (if c = 43 then digit_of_hex d
      else (case (digit_of_hex c, digit_of_hex d) of
              (Some h, Some l) \<Rightarrow> Some (16 * h + l)
            | _ \<Rightarrow> None))"

fun parse_hex_chunks :: "bytes \<Rightarrow> (pim_error, bytes) outcome" where
  "parse_hex_chunks (c # d # rest) =
     (if \<not> utf8_valid [c, d] then Err (Config NodeIdNotUtf8)
      else (case from_str_radix16 c d of
              None \<Rightarrow> Err (Config (NodeIdNotHex [c, d]))
            | Some b \<Rightarrow> and_then (parse_hex_chunks rest) (\<lambda>bs. Ok (b # bs))))"
| "parse_hex_chunks _ = Ok []"

definition NodeId_from_str :: "bytes \<Rightarrow> (pim_error, node_id) outcome" where
  "NodeId_from_str s =
     (if length s \<noteq> 32 then Err (Config (NodeIdLength (length s)))
      else and_then (parse_hex_chunks s) (\<lambda>bs. Ok (NodeId bs)))"

definition nibble_ok :: "u8 \<Rightarrow> bool" where
  "nibble_ok h \<longleftrightarrow> digit_of_hex (hex_digit h) = Some h \<and> hex_digit h < 128 \<and> hex_digit h \<noteq> 43"

lemma nibble_ok: "h < 16 \<Longrightarrow> nibble_ok h"
proof -
  assume "h < 16"
  then have "unat h < 16" by (simp add: word_less_nat_alt)
  moreover have "list_all (\<lambda>n. nibble_ok (of_nat n)) [0..<16]" by code_simp
  ultimately show ?thesis
    by (auto simp: list_all_iff dest: bspec [of _ _ "unat h"])
qed

lemma nibbles:
  fixes b :: u8
  shows "drop_bit 4 b < 16" "b AND 15 < 16" "16 * drop_bit 4 b + (b AND 15) = b"
proof -
  have m: "b AND 15 = take_bit 4 b"
    by (simp add: take_bit_eq_mask mask_numeral)
  show "drop_bit 4 b < 16"
  proof -
    have "unat b < 256" using unsigned_less [of b] by simp
    then have "unat b div 16 < 16" by simp
    then show ?thesis
      unfolding word_less_nat_alt unat_drop_bit_eq by (simp add: drop_bit_eq_div)
  qed
  show "b AND 15 < 16"
    by (simp add: m word_less_nat_alt unsigned_take_bit_eq take_bit_nat_def)
  show "16 * drop_bit 4 b + (b AND 15) = b"
    using bits_ident [of 4 b] by (simp add: m push_bit_eq_mult mult.commute)
qed

lemma hex_byte_parses:
  "utf8_valid [hex_digit (drop_bit 4 b), hex_digit (b AND 15)]"
  "from_str_radix16 (hex_digit (drop_bit 4 b)) (hex_digit (b AND 15)) = Some b"
  using nibble_ok [OF nibbles(1) [of b]] nibble_ok [OF nibbles(2) [of b]] nibbles(3) [of b]
  by (auto simp: nibble_ok_def from_str_radix16_def)

lemma parse_hex_chunks_hex: "parse_hex_chunks (concat (map hex_byte bs)) = Ok bs"
  by (induction bs) (simp_all add: hex_byte_def hex_byte_parses del: utf8_valid.simps)

lemma length_hex: "length (concat (map hex_byte bs)) = 2 * length bs"
  by (induction bs) (simp_all add: hex_byte_def)

text \<open>
  The 32-character lowercase hexadecimal text of a node identifier parses back to the
  same identifier, so the text form (used by the trust store, the messaging store and RPC) loses
  nothing.
\<close>

theorem NodeId_hex_roundtrip:
  assumes "wf_node_id n"
  shows "NodeId_from_str (NodeId_to_hex n) = Ok n"
  using assms by (simp add: NodeId_from_str_def NodeId_to_hex_def wf_node_id_def length_hex
      parse_hex_chunks_hex)

theorem NodeId_hex_roundtrip_witness:
  "wf_node_id (NodeId (replicate 16 171)) \<and>
   NodeId_from_str (NodeId_to_hex (NodeId (replicate 16 171))) = Ok (NodeId (replicate 16 171))"
proof -
  have w: "wf_node_id (NodeId (replicate 16 171))" by (simp add: wf_node_id_def)
  show ?thesis using w NodeId_hex_roundtrip [OF w] by simp
qed

section \<open>Mesh address derivation\<close>

type_synonym ipv4 = u32
type_synonym ipv6 = u128

record ipv4_prefix =
  v4_network :: ipv4
  v4_prefix_len :: u8

record ipv6_prefix =
  v6_network :: ipv6
  v6_prefix_len :: u8

text \<open>BLAKE3, as the two functions the code calls.\<close>

record blake3 =
  b3_derive_key :: "bytes \<Rightarrow> bytes \<Rightarrow> bytes"
  b3_keyed_hash :: "bytes \<Rightarrow> bytes \<Rightarrow> bytes"

definition CONTEXT_V4 :: bytes where
  "CONTEXT_V4 = ascii ''pim-mesh-v4''"

definition CONTEXT_V6 :: bytes where
  "CONTEXT_V6 = ascii ''pim-mesh-v6''"

definition ipv4_netmask :: "u8 \<Rightarrow> u32" where
  "ipv4_netmask prefix_len =
     (if prefix_len = 0 then 0
      else if 32 \<le> prefix_len then - 1
      else NOT (push_bit (32 - unat prefix_len) 1 - 1))"

definition ipv6_netmask :: "u8 \<Rightarrow> u128" where
  "ipv6_netmask prefix_len =
     (if prefix_len = 0 then 0
      else if 128 \<le> prefix_len then - 1
      else NOT (push_bit (128 - unat prefix_len) 1 - 1))"

definition keyed_digest :: "blake3 \<Rightarrow> bytes \<Rightarrow> node_id \<Rightarrow> bytes" where
  "keyed_digest B context nid =
     (let key = b3_derive_key B context (ascii ''pim-mesh-derivation'')
      in b3_keyed_hash B key (as_bytes nid))"

definition derive_mesh_ipv4 :: "blake3 \<Rightarrow> node_id \<Rightarrow> ipv4_prefix \<Rightarrow> ipv4" where
  "derive_mesh_ipv4 B nid pfx =
     (let host_bits = 32 - unat (v4_prefix_len pfx);
          host_mask = (if host_bits = 0 then 0
                       else if 32 \<le> host_bits then - 1
                       else push_bit host_bits 1 - 1)
      in if host_bits = 0 then v4_network pfx
         else
           let digest = keyed_digest B CONTEXT_V4 nid;
               raw = of_be32 (take 4 digest);
               host = raw AND host_mask;
               host = (if 2 \<le> host_bits
                       then (if host = 0 then 1
                             else if host = host_mask then host_mask - 1
                             else host)
                       else host);
               network = v4_network pfx AND NOT host_mask
           in network OR host)"

definition derive_mesh_ipv6 :: "blake3 \<Rightarrow> node_id \<Rightarrow> ipv6_prefix \<Rightarrow> ipv6" where
  "derive_mesh_ipv6 B nid pfx =
     (let host_bits = 128 - unat (v6_prefix_len pfx);
          host_mask = (if host_bits = 0 then 0
                       else if 128 \<le> host_bits then - 1
                       else push_bit host_bits 1 - 1)
      in if host_bits = 0 then v6_network pfx
         else
           let digest = keyed_digest B CONTEXT_V6 nid;
               raw = of_be128 (take 16 digest);
               host = raw AND host_mask;
               host = (if 2 \<le> host_bits
                       then (if host = 0 then 1
                             else if host = host_mask then host_mask - 1
                             else host)
                       else host);
               network = v6_network pfx AND NOT host_mask
           in network OR host)"

definition verify_mesh_ipv4 :: "blake3 \<Rightarrow> node_id \<Rightarrow> ipv4 \<Rightarrow> ipv4_prefix \<Rightarrow> bool" where
  "verify_mesh_ipv4 B nid claimed pfx \<longleftrightarrow> derive_mesh_ipv4 B nid pfx = claimed"

definition verify_mesh_ipv6 :: "blake3 \<Rightarrow> node_id \<Rightarrow> ipv6 \<Rightarrow> ipv6_prefix \<Rightarrow> bool" where
  "verify_mesh_ipv6 B nid claimed pfx \<longleftrightarrow> derive_mesh_ipv6 B nid pfx = claimed"

text \<open>
  The arithmetic both derivations share: the host part that is picked from the digest, and the
  address made of the prefix's network bits and that host part.
\<close>

definition pick_host :: "nat \<Rightarrow> 'a::len word \<Rightarrow> 'a word" where
  "pick_host n raw =
     (let host = raw AND mask n
      in if 2 \<le> n then (if host = 0 then 1 else if host = mask n then mask n - 1 else host)
         else host)"

lemma bit_mask_minus_1:
  assumes "0 < n"
  shows "bit (mask n - 1 :: 'a::len word) i \<longleftrightarrow> 0 < i \<and> i < n \<and> i < LENGTH('a)"
proof -
  obtain m where n: "n = Suc m" using assms by (cases n) auto
  have "(mask (Suc m) :: 'a word) = 1 + 2 * mask m"
    by (simp add: mask_eq_exp_minus_1)
  then have "(mask n - 1 :: 'a word) = push_bit 1 (mask m)"
    by (simp add: n push_bit_eq_mult)
  moreover have "bit (push_bit 1 (mask m) :: 'a word) i \<longleftrightarrow> 0 < i \<and> i < n \<and> i < LENGTH('a)"
    unfolding bit_push_bit_iff by (auto simp: n bit_mask_iff)
  ultimately show ?thesis by simp
qed

lemma pick_host_bits:
  assumes "n \<le> LENGTH('a)" "bit (pick_host n raw :: 'a::len word) i"
  shows "i < n"
  using assms
  by (auto simp: pick_host_def Let_def bit_mask_minus_1 bit_simps bit_1_iff split: if_splits)

lemma pick_host_usable:
  assumes "2 \<le> n" "n \<le> LENGTH('a)"
  shows "pick_host n raw \<noteq> (0 :: 'a::len word)" "pick_host n raw \<noteq> (mask n :: 'a word)"
proof -
  have b1: "bit (mask n :: 'a word) 1" and b0: "bit (mask n :: 'a word) 0"
    using assms by (auto simp: bit_simps)
  have c1: "bit (mask n - 1 :: 'a word) 1" and c0: "\<not> bit (mask n - 1 :: 'a word) 0"
    using assms by (auto simp: bit_mask_minus_1 simp del: bit_0)
  have ne: "(1 :: 'a word) \<noteq> mask n" using b1 by (auto simp: bit_1_iff)
  have nz: "(mask n - 1 :: 'a word) \<noteq> 0" using c1 by (metis bit_0_eq bot_apply bot_bool_def)
  have nm: "(mask n - 1 :: 'a word) \<noteq> mask n" using b0 c0 by metis
  show "pick_host n raw \<noteq> (0 :: 'a word)" "pick_host n raw \<noteq> (mask n :: 'a word)"
    using assms ne nz nm by (auto simp: pick_host_def Let_def)
qed

lemma join_network_host:
  assumes "n \<le> LENGTH('a)"
  shows "((net AND NOT (mask n)) OR pick_host n raw) AND NOT (mask n) = (net AND NOT (mask n) :: 'a::len word)"
    and "((net AND NOT (mask n)) OR pick_host n raw) AND mask n = (pick_host n raw :: 'a word)"
  by (rule bit_word_eqI; auto simp: bit_simps dest: pick_host_bits [OF assms])+

lemma host_mask_32:
  "n \<le> 32 \<Longrightarrow>
   (if n = 0 then 0 else if 32 \<le> n then - 1 else push_bit n 1 - 1) = (mask n :: u32)"
  by (cases "n = 32") (auto simp: mask_eq_exp_minus_1)

lemma host_mask_128:
  "n \<le> 128 \<Longrightarrow>
   (if n = 0 then 0 else if 128 \<le> n then - 1 else push_bit n 1 - 1) = (mask n :: u128)"
  by (cases "n = 128") (auto simp: mask_eq_exp_minus_1)

lemma NOT_mask_length: "LENGTH('a) \<le> n \<Longrightarrow> NOT (mask n) = (0 :: 'a::len word)"
  by (rule bit_word_eqI) (simp add: bit_simps)

lemma ipv4_netmask_eq:
  assumes "p \<le> 32"
  shows "ipv4_netmask p = NOT (mask (32 - unat p))"
proof -
  have p: "unat p \<le> 32" "p = 0 \<longleftrightarrow> unat p = 0" "32 \<le> p \<longleftrightarrow> 32 \<le> unat p"
    using assms by (simp_all add: word_le_nat_alt unat_eq_zero)
  then consider "unat p = 0" | "unat p = 32" | "0 < unat p" "unat p < 32" by linarith
  then show ?thesis
    by cases (use p host_mask_32 [of "32 - unat p"] in
        \<open>simp_all add: ipv4_netmask_def NOT_mask_length mask_eq_exp_minus_1\<close>)
qed

lemma ipv6_netmask_eq:
  assumes "p \<le> 128"
  shows "ipv6_netmask p = NOT (mask (128 - unat p))"
proof -
  have p: "unat p \<le> 128" "p = 0 \<longleftrightarrow> unat p = 0" "128 \<le> p \<longleftrightarrow> 128 \<le> unat p"
    using assms by (simp_all add: word_le_nat_alt unat_eq_zero)
  then consider "unat p = 0" | "unat p = 128" | "0 < unat p" "unat p < 128" by linarith
  then show ?thesis
    by cases (use p host_mask_128 [of "128 - unat p"] in
        \<open>simp_all add: ipv6_netmask_def NOT_mask_length mask_eq_exp_minus_1\<close>)
qed

lemma derive_mesh_ipv4_eq:
  "derive_mesh_ipv4 B nid pfx =
     (let n = 32 - unat (v4_prefix_len pfx)
      in if n = 0 then v4_network pfx
         else (v4_network pfx AND NOT (mask n))
              OR pick_host n (of_be32 (take 4 (keyed_digest B CONTEXT_V4 nid))))"
  unfolding derive_mesh_ipv4_def Let_def pick_host_def host_mask_32 [OF diff_le_self]
  by (rule refl)

lemma derive_mesh_ipv6_eq:
  "derive_mesh_ipv6 B nid pfx =
     (let n = 128 - unat (v6_prefix_len pfx)
      in if n = 0 then v6_network pfx
         else (v6_network pfx AND NOT (mask n))
              OR pick_host n (of_be128 (take 16 (keyed_digest B CONTEXT_V6 nid))))"
  unfolding derive_mesh_ipv6_def Let_def pick_host_def host_mask_128 [OF diff_le_self]
  by (rule refl)

text \<open>
  For every digest, the mesh IPv4 address derived for a node has exactly the network
  bits of the configured prefix, and, when the prefix leaves at least two host bits, its host part
  is neither all zeros (the network address) nor all ones (the broadcast address). The derivation
  also always passes the check \<^const>\<open>verify_mesh_ipv4\<close> that another node applies to it.
\<close>

theorem derive_mesh_ipv4_in_prefix:
  assumes "v4_prefix_len pfx \<le> 32"
  shows "let a = derive_mesh_ipv4 B nid pfx; m = ipv4_netmask (v4_prefix_len pfx)
         in a AND m = v4_network pfx AND m
            \<and> verify_mesh_ipv4 B nid a pfx
            \<and> (v4_prefix_len pfx \<le> 30 \<longrightarrow> a AND NOT m \<noteq> 0 \<and> a AND NOT m \<noteq> NOT m)"
  using assms
  by (simp add: derive_mesh_ipv4_eq ipv4_netmask_eq Let_def join_network_host pick_host_usable
      word_le_nat_alt verify_mesh_ipv4_def)

theorem derive_mesh_ipv4_in_prefix_witness:
  "let B = \<lparr>b3_derive_key = (\<lambda>_ _. replicate 32 0), b3_keyed_hash = (\<lambda>_ bs. bs @ bs)\<rparr>;
       pfx = \<lparr>v4_network = 0x0A4D0000, v4_prefix_len = 16\<rparr>;
       a = derive_mesh_ipv4 B (NodeId (replicate 16 255)) pfx;
       m = ipv4_netmask (v4_prefix_len pfx)
   in v4_prefix_len pfx \<le> 32 \<and> a AND m = v4_network pfx AND m \<and> a AND NOT m \<noteq> NOT m"
  using derive_mesh_ipv4_in_prefix
    [of "\<lparr>v4_network = 0x0A4D0000, v4_prefix_len = 16\<rparr>"
        "\<lparr>b3_derive_key = (\<lambda>_ _. replicate 32 0), b3_keyed_hash = (\<lambda>_ bs. bs @ bs)\<rparr>"
        "NodeId (replicate 16 255)"]
  by (simp add: Let_def)

text \<open>
  For every digest, the mesh IPv6 address derived for a node has exactly the network
  bits of the configured prefix, and, when the prefix leaves at least two host bits, its host part
  is neither all zeros (the network address) nor all ones (the broadcast address). The derivation
  also always passes the check \<^const>\<open>verify_mesh_ipv6\<close> that another node applies to it.
\<close>

theorem derive_mesh_ipv6_in_prefix:
  assumes "v6_prefix_len pfx \<le> 128"
  shows "let a = derive_mesh_ipv6 B nid pfx; m = ipv6_netmask (v6_prefix_len pfx)
         in a AND m = v6_network pfx AND m
            \<and> verify_mesh_ipv6 B nid a pfx
            \<and> (v6_prefix_len pfx \<le> 126 \<longrightarrow> a AND NOT m \<noteq> 0 \<and> a AND NOT m \<noteq> NOT m)"
  using assms
  by (simp add: derive_mesh_ipv6_eq ipv6_netmask_eq Let_def join_network_host pick_host_usable
      word_le_nat_alt verify_mesh_ipv6_def)

theorem derive_mesh_ipv6_in_prefix_witness:
  "let B = \<lparr>b3_derive_key = (\<lambda>_ _. replicate 32 0), b3_keyed_hash = (\<lambda>_ bs. bs @ bs)\<rparr>;
       pfx = \<lparr>v6_network = 0xFD770000000000000000000000000000, v6_prefix_len = 64\<rparr>;
       a = derive_mesh_ipv6 B (NodeId (replicate 16 255)) pfx;
       m = ipv6_netmask (v6_prefix_len pfx)
   in v6_prefix_len pfx \<le> 128 \<and> a AND m = v6_network pfx AND m \<and> a AND NOT m \<noteq> NOT m"
  using derive_mesh_ipv6_in_prefix
    [of "\<lparr>v6_network = 0xFD770000000000000000000000000000, v6_prefix_len = 64\<rparr>"
        "\<lparr>b3_derive_key = (\<lambda>_ _. replicate 32 0), b3_keyed_hash = (\<lambda>_ bs. bs @ bs)\<rparr>"
        "NodeId (replicate 16 255)"]
  by (simp add: Let_def)

end
