(* ===== verification/Frame_Codec.thy ===== *)
theory Frame_Codec
  imports Core_Types
begin

text \<open>
  The codec contract of \<^verbatim>\<open>pim-core/src/types.rs\<close> (the trait \<^verbatim>\<open>FrameCodec\<close>) as a locale: an
  encoder that appends to a buffer, a decoder that consumes a prefix of it, and the frames the
  encoder represents without loss. Every frame type of \<^verbatim>\<open>pim-protocol\<close> interprets it. Decoders
  check every length before they consume anything, so an error leaves the buffer as it was; the
  model's \<open>Err\<close> therefore carries no buffer.
\<close>

text \<open>\<open>rest\<close> is what remains of \<open>buf\<close> after at least one byte has been consumed.\<close>

definition consumed :: "bytes \<Rightarrow> bytes \<Rightarrow> bool" where
  "consumed buf rest \<longleftrightarrow> length rest < length buf \<and> rest = drop (length buf - length rest) buf"

lemma consumed_drop [simp]: "0 < n \<Longrightarrow> n \<le> length buf \<Longrightarrow> consumed buf (drop n buf)"
  by (simp add: consumed_def)

locale frame_codec =
  fixes encode :: "'f \<Rightarrow> bytes"
    and decode :: "bytes \<Rightarrow> (pim_error, 'f \<times> bytes) outcome"
    and wf :: "'f \<Rightarrow> bool"
  assumes decode_encode: "wf f \<Longrightarrow> decode (encode f @ rest) = Ok (f, rest)"
    and decode_no_panic: "decode buf \<noteq> Panic"
    and decode_Ok: "decode buf = Ok (f, rest) \<Longrightarrow> wf f \<and> consumed buf rest"
begin

lemma encode_prefix_free:
  assumes "wf f" "wf g" "encode f @ xs = encode g @ ys"
  shows "f = g \<and> xs = ys"
  by (metis assms decode_encode outcome.inject(1) prod.inject)

lemma encode_inject: "wf f \<Longrightarrow> wf g \<Longrightarrow> encode f = encode g \<longleftrightarrow> f = g"
  using encode_prefix_free [of f g "[]" "[]"] by auto

lemma decode_encode_exact: "wf f \<Longrightarrow> decode (encode f) = Ok (f, [])"
  using decode_encode [of f "[]"] by simp

lemma decode_shorter: "decode buf = Ok (f, rest) \<Longrightarrow> length rest < length buf"
  using decode_Ok by (simp add: consumed_def)

lemma decode_total: "(\<exists>f rest. decode buf = Ok (f, rest)) \<or> (\<exists>e. decode buf = Err e)"
  using decode_no_panic [of buf] by (cases "decode buf") auto

lemma reencode:
  assumes "decode buf = Ok (f, rest)"
  shows "decode (encode f @ rest') = Ok (f, rest')"
  using decode_Ok [OF assms] by (intro decode_encode) simp

end

end
