(* ===== verification/Wire_Frames.thy ===== *)
theory Wire_Frames
  imports Frame_Codec
begin

text \<open>
  The fixed-layout frames of \<^verbatim>\<open>pim-protocol\<close>: the outer transport envelope
  (\<^verbatim>\<open>transport_frame.rs\<close>, \<^verbatim>\<open>frame_type.rs\<close>), the mesh data frame (\<^verbatim>\<open>data_frame.rs\<close>), the
  handshake messages (\<^verbatim>\<open>handshake_frame.rs\<close>) and the heartbeat (\<^verbatim>\<open>heartbeat_frame.rs\<close>), each
  an interpretation of the codec contract.
\<close>

section \<open>Transport envelope\<close>

datatype frame_type = Handshake | Data | RouteUpdate | Heartbeat | Control | Fragment

fun FrameType_as_u8 :: "frame_type \<Rightarrow> u8" where
  "FrameType_as_u8 Handshake = 1"
| "FrameType_as_u8 Data = 2"
| "FrameType_as_u8 RouteUpdate = 3"
| "FrameType_as_u8 Heartbeat = 4"
| "FrameType_as_u8 Control = 5"
| "FrameType_as_u8 Fragment = 6"

definition FrameType_from_u8 :: "u8 \<Rightarrow> (pim_error, frame_type) outcome" where
  "FrameType_from_u8 v =
     (if v = 1 then Ok Handshake
      else if v = 2 then Ok Data
      else if v = 3 then Ok RouteUpdate
      else if v = 4 then Ok Heartbeat
      else if v = 5 then Ok Control
      else if v = 6 then Ok Fragment
      else Err (Protocol (UnknownFrameType v)))"

lemma FrameType_from_as_u8 [simp]: "FrameType_from_u8 (FrameType_as_u8 t) = Ok t"
  by (cases t) (simp_all add: FrameType_from_u8_def)

lemma FrameType_from_u8_no_panic [simp]: "FrameType_from_u8 v \<noteq> Panic"
  by (simp add: FrameType_from_u8_def)

lemma FrameType_from_u8_Ok: "FrameType_from_u8 v = Ok t \<Longrightarrow> v = FrameType_as_u8 t"
  by (auto simp: FrameType_from_u8_def split: if_splits)

definition MAGIC :: u16 where "MAGIC = 0x504D"
definition VERSION :: u8 where "VERSION = 1"
definition MAX_PAYLOAD_SIZE :: u32 where "MAX_PAYLOAD_SIZE = 1048576"
definition TF_HEADER_SIZE :: nat where "TF_HEADER_SIZE = 20"
definition TAG_SIZE :: nat where "TAG_SIZE = 16"

record transport_frame =
  tf_frame_type :: frame_type
  tf_nonce :: bytes
  tf_payload :: bytes
  tf_tag :: bytes

definition TransportFrame_encode :: "transport_frame \<Rightarrow> bytes" where
  "TransportFrame_encode f =
     be16 MAGIC @ [VERSION] @ [FrameType_as_u8 (tf_frame_type f)]
     @ be32 (of_nat (length (tf_payload f))) @ tf_nonce f @ tf_payload f @ tf_tag f"

definition TransportFrame_decode :: "bytes \<Rightarrow> (pim_error, transport_frame \<times> bytes) outcome" where
  "TransportFrame_decode buf =
     (if length buf < TF_HEADER_SIZE then Err (Protocol FrameTooShortForHeader)
      else and_then (subslice buf 0 2) (\<lambda>m.
        let magic = of_be16 m in
        if magic \<noteq> MAGIC then Err (Protocol (InvalidMagic magic))
        else and_then (index buf 2) (\<lambda>version.
          if version \<noteq> VERSION then Err (Protocol (UnsupportedVersion version))
          else and_then (index buf 3) (\<lambda>t.
            and_then (FrameType_from_u8 t) (\<lambda>frame_type.
            and_then (subslice buf 4 8) (\<lambda>l.
              let len = of_be32 l in
              if len > MAX_PAYLOAD_SIZE then Err (Protocol (PayloadTooLarge len))
              else
                let total_size = TF_HEADER_SIZE + unat len + TAG_SIZE in
                if length buf < total_size
                then Err (Protocol (FrameTruncated total_size (length buf)))
                else and_then (subslice buf 8 20) (\<lambda>nonce.
                  and_then (advance buf TF_HEADER_SIZE) (\<lambda>buf.
                  and_then (split_to buf (unat len)) (\<lambda>(payload, buf).
                  and_then (subslice buf 0 TAG_SIZE) (\<lambda>tag.
                  and_then (advance buf TAG_SIZE) (\<lambda>buf.
                    Ok (\<lparr>tf_frame_type = frame_type, tf_nonce = nonce, tf_payload = payload,
                         tf_tag = tag\<rparr>, buf))))))))))))"

definition wf_transport_frame :: "transport_frame \<Rightarrow> bool" where
  "wf_transport_frame f \<longleftrightarrow>
     length (tf_nonce f) = 12 \<and> length (tf_tag f) = 16
     \<and> length (tf_payload f) \<le> unat MAX_PAYLOAD_SIZE"

lemmas transport_frame_defs =
  MAGIC_def VERSION_def MAX_PAYLOAD_SIZE_def TF_HEADER_SIZE_def TAG_SIZE_def

lemma TransportFrame_decode_encode:
  "wf_transport_frame f \<Longrightarrow> TransportFrame_decode (TransportFrame_encode f @ rest) = Ok (f, rest)"
  by (simp add: TransportFrame_decode_def TransportFrame_encode_def wf_transport_frame_def
      transport_frame_defs be16_def nth_append word_less_nat_alt unat_of_nat of_be16_pair)

lemma TransportFrame_decode_no_panic: "TransportFrame_decode buf \<noteq> Panic"
  by (simp add: TransportFrame_decode_def Let_def and_then_eq_Panic transport_frame_defs)

lemma TransportFrame_decode_Ok:
  "TransportFrame_decode buf = Ok (f, rest) \<Longrightarrow>
   wf_transport_frame f \<and> consumed buf rest"
  by (auto simp: TransportFrame_decode_def Let_def and_then_eq_Ok access_eq_Ok
      wf_transport_frame_def transport_frame_defs word_le_nat_alt not_less split: if_splits)

interpretation transport_codec:
  frame_codec TransportFrame_encode TransportFrame_decode wf_transport_frame
  by unfold_locales
    (fact TransportFrame_decode_encode TransportFrame_decode_no_panic TransportFrame_decode_Ok)+

section \<open>Mesh data frame\<close>

text \<open>\<^verbatim>\<open>DataFlags\<close> is a set of seven bits; \<^verbatim>\<open>from_bits_truncate\<close> drops the eighth.\<close>

definition IS_FRAGMENT :: u8 where "IS_FRAGMENT = 1"
definition IS_LAST_FRAGMENT :: u8 where "IS_LAST_FRAGMENT = 2"
definition REQUIRES_ACK :: u8 where "REQUIRES_ACK = 4"
definition IS_ACK :: u8 where "IS_ACK = 8"
definition IS_INTERNET :: u8 where "IS_INTERNET = 16"
definition IS_E2E :: u8 where "IS_E2E = 32"
definition IS_CONTROL :: u8 where "IS_CONTROL = 64"

definition DataFlags_all :: u8 where
  "DataFlags_all = IS_FRAGMENT OR IS_LAST_FRAGMENT OR REQUIRES_ACK OR IS_ACK OR IS_INTERNET
     OR IS_E2E OR IS_CONTROL"

definition DataFlags_from_bits_truncate :: "u8 \<Rightarrow> u8" where
  "DataFlags_from_bits_truncate b = b AND DataFlags_all"

definition DataFlags_contains :: "u8 \<Rightarrow> u8 \<Rightarrow> bool" where
  "DataFlags_contains fs f \<longleftrightarrow> fs AND f = f"

record mesh_data_frame =
  mdf_src_id :: node_id
  mdf_dst_id :: node_id
  mdf_session_id :: u32
  mdf_ttl :: u8
  mdf_flags :: u8
  mdf_payload :: bytes

definition MDF_HEADER_SIZE :: nat where "MDF_HEADER_SIZE = 40"

definition MeshDataFrame_encode :: "mesh_data_frame \<Rightarrow> bytes" where
  "MeshDataFrame_encode f =
     as_bytes (mdf_src_id f) @ as_bytes (mdf_dst_id f) @ be32 (mdf_session_id f)
     @ [mdf_ttl f] @ [mdf_flags f] @ be16 (of_nat (length (mdf_payload f))) @ mdf_payload f"

definition MeshDataFrame_decode :: "bytes \<Rightarrow> (pim_error, mesh_data_frame \<times> bytes) outcome" where
  "MeshDataFrame_decode buf =
     (if length buf < MDF_HEADER_SIZE then Err (Protocol (DataFrameTooShort (length buf)))
      else and_then (subslice buf 0 16) (\<lambda>src_bytes.
        and_then (subslice buf 16 32) (\<lambda>dst_bytes.
        and_then (subslice buf 32 36) (\<lambda>sid.
        and_then (index buf 36) (\<lambda>ttl.
        and_then (index buf 37) (\<lambda>bits.
        and_then (subslice buf 38 40) (\<lambda>pl.
          let payload_len = unat (of_be16 pl);
              total = MDF_HEADER_SIZE + payload_len in
          if length buf < total then Err (Protocol (DataFrameTruncated total (length buf)))
          else and_then (advance buf MDF_HEADER_SIZE) (\<lambda>buf.
            and_then (split_to buf payload_len) (\<lambda>(payload, buf).
              Ok (\<lparr>mdf_src_id = NodeId_from_bytes src_bytes,
                   mdf_dst_id = NodeId_from_bytes dst_bytes,
                   mdf_session_id = of_be32 sid, mdf_ttl = ttl,
                   mdf_flags = DataFlags_from_bits_truncate bits,
                   mdf_payload = payload\<rparr>, buf))))))))))"

definition wf_mesh_data_frame :: "mesh_data_frame \<Rightarrow> bool" where
  "wf_mesh_data_frame f \<longleftrightarrow>
     wf_node_id (mdf_src_id f) \<and> wf_node_id (mdf_dst_id f)
     \<and> mdf_flags f AND DataFlags_all = mdf_flags f \<and> length (mdf_payload f) < 65536"

lemma MeshDataFrame_decode_encode:
  "wf_mesh_data_frame f \<Longrightarrow> MeshDataFrame_decode (MeshDataFrame_encode f @ rest) = Ok (f, rest)"
  by (simp add: MeshDataFrame_decode_def MeshDataFrame_encode_def wf_mesh_data_frame_def
      wf_node_id_def MDF_HEADER_SIZE_def nth_append NodeId_from_bytes_def
      DataFlags_from_bits_truncate_def unat_of_nat)

lemma MeshDataFrame_decode_no_panic: "MeshDataFrame_decode buf \<noteq> Panic"
  by (simp add: MeshDataFrame_decode_def Let_def and_then_eq_Panic MDF_HEADER_SIZE_def)

lemma MeshDataFrame_decode_Ok:
  "MeshDataFrame_decode buf = Ok (f, rest) \<Longrightarrow> wf_mesh_data_frame f \<and> consumed buf rest"
  using unsigned_less [of "of_be16 (take 2 (drop 38 buf))"]
  by (auto simp: MeshDataFrame_decode_def Let_def and_then_eq_Ok access_eq_Ok
      wf_mesh_data_frame_def wf_node_id_def MDF_HEADER_SIZE_def NodeId_from_bytes_def
      DataFlags_from_bits_truncate_def not_less ac_simps split: if_splits)

interpretation data_codec:
  frame_codec MeshDataFrame_encode MeshDataFrame_decode wf_mesh_data_frame
  by unfold_locales
    (fact MeshDataFrame_decode_encode MeshDataFrame_decode_no_panic MeshDataFrame_decode_Ok)+

section \<open>Handshake messages\<close>

datatype handshake_frame_type = Init | Response | Confirm

fun HandshakeFrameType_as_u8 :: "handshake_frame_type \<Rightarrow> u8" where
  "HandshakeFrameType_as_u8 Init = 0"
| "HandshakeFrameType_as_u8 Response = 1"
| "HandshakeFrameType_as_u8 Confirm = 2"

definition HandshakeFrameType_from_u8 :: "u8 \<Rightarrow> (pim_error, handshake_frame_type) outcome" where
  "HandshakeFrameType_from_u8 v =
     (if v = 0 then Ok Init
      else if v = 1 then Ok Response
      else if v = 2 then Ok Confirm
      else Err (Protocol (UnknownHandshakeType v)))"

text \<open>
  The Rust type lets an \<^verbatim>\<open>InitOrResponse\<close> carry the subtype \<^verbatim>\<open>Confirm\<close>, which no decoder accepts
  as such; such frames are not well formed.
\<close>

datatype handshake_wire_frame =
    InitOrResponse handshake_frame_type (hs_sender_pub: bytes) (hs_ephemeral_pub: bytes)
      (hs_nonce: bytes) (hs_signature: bytes)
  | ConfirmFrame (hs_hmac: bytes)

definition INIT_RESPONSE_SIZE :: nat where "INIT_RESPONSE_SIZE = 1 + 32 + 32 + 32 + 64"
definition CONFIRM_SIZE :: nat where "CONFIRM_SIZE = 1 + 32"

fun HandshakeWireFrame_encode :: "handshake_wire_frame \<Rightarrow> bytes" where
  "HandshakeWireFrame_encode (InitOrResponse t sender_pub ephemeral_pub nonce signature) =
     [HandshakeFrameType_as_u8 t] @ sender_pub @ ephemeral_pub @ nonce @ signature"
| "HandshakeWireFrame_encode (ConfirmFrame hmac) = [HandshakeFrameType_as_u8 Confirm] @ hmac"

definition HandshakeWireFrame_decode ::
  "bytes \<Rightarrow> (pim_error, handshake_wire_frame \<times> bytes) outcome" where
  "HandshakeWireFrame_decode buf =
     (if buf = [] then Err (Protocol HandshakeFrameEmpty)
      else and_then (index buf 0) (\<lambda>b.
        and_then (HandshakeFrameType_from_u8 b) (\<lambda>handshake_type.
          if handshake_type = Init \<or> handshake_type = Response then
            (if length buf < INIT_RESPONSE_SIZE
             then Err (Protocol (HandshakeTooShort INIT_RESPONSE_SIZE (length buf)))
             else and_then (subslice buf 1 33) (\<lambda>sender_pub.
               and_then (subslice buf 33 65) (\<lambda>ephemeral_pub.
               and_then (subslice buf 65 97) (\<lambda>nonce.
               and_then (subslice buf 97 161) (\<lambda>signature.
               and_then (advance buf INIT_RESPONSE_SIZE) (\<lambda>buf.
                 Ok (InitOrResponse handshake_type sender_pub ephemeral_pub nonce signature,
                     buf)))))))
          else
            (if length buf < CONFIRM_SIZE
             then Err (Protocol (HandshakeTooShort CONFIRM_SIZE (length buf)))
             else and_then (subslice buf 1 33) (\<lambda>hmac.
               and_then (advance buf CONFIRM_SIZE) (\<lambda>buf. Ok (ConfirmFrame hmac, buf)))))))"

fun wf_handshake_wire_frame :: "handshake_wire_frame \<Rightarrow> bool" where
  "wf_handshake_wire_frame (InitOrResponse t sender_pub ephemeral_pub nonce signature) \<longleftrightarrow>
     t \<noteq> Confirm \<and> length sender_pub = 32 \<and> length ephemeral_pub = 32 \<and> length nonce = 32
     \<and> length signature = 64"
| "wf_handshake_wire_frame (ConfirmFrame hmac) \<longleftrightarrow> length hmac = 32"

lemma HandshakeFrameType_from_as_u8 [simp]:
  "HandshakeFrameType_from_u8 (HandshakeFrameType_as_u8 t) = Ok t"
  by (cases t) (simp_all add: HandshakeFrameType_from_u8_def)

lemma HandshakeFrameType_from_u8_no_panic [simp]: "HandshakeFrameType_from_u8 v \<noteq> Panic"
  by (simp add: HandshakeFrameType_from_u8_def)

lemma HandshakeWireFrame_decode_encode:
  "wf_handshake_wire_frame f \<Longrightarrow>
   HandshakeWireFrame_decode (HandshakeWireFrame_encode f @ rest) = Ok (f, rest)"
proof (cases f)
  case (InitOrResponse t a b c d)
  assume "wf_handshake_wire_frame f"
  with InitOrResponse have "t = Init \<or> t = Response" by (cases t) auto
  with InitOrResponse \<open>wf_handshake_wire_frame f\<close> show ?thesis
    by (simp add: HandshakeWireFrame_decode_def INIT_RESPONSE_SIZE_def
        del: HandshakeFrameType_as_u8.simps)
next
  case (ConfirmFrame h)
  assume "wf_handshake_wire_frame f"
  with ConfirmFrame show ?thesis
    by (simp add: HandshakeWireFrame_decode_def CONFIRM_SIZE_def
        del: HandshakeFrameType_as_u8.simps)
qed

lemma HandshakeWireFrame_decode_no_panic: "HandshakeWireFrame_decode buf \<noteq> Panic"
  by (simp add: HandshakeWireFrame_decode_def and_then_eq_Panic INIT_RESPONSE_SIZE_def
      CONFIRM_SIZE_def)

lemma HandshakeWireFrame_decode_Ok:
  "HandshakeWireFrame_decode buf = Ok (f, rest) \<Longrightarrow>
   wf_handshake_wire_frame f \<and> consumed buf rest"
  by (auto simp: HandshakeWireFrame_decode_def and_then_eq_Ok access_eq_Ok INIT_RESPONSE_SIZE_def
      CONFIRM_SIZE_def not_less split: if_splits)

interpretation handshake_codec:
  frame_codec HandshakeWireFrame_encode HandshakeWireFrame_decode wf_handshake_wire_frame
  by unfold_locales
    (fact HandshakeWireFrame_decode_encode HandshakeWireFrame_decode_no_panic
      HandshakeWireFrame_decode_Ok)+

section \<open>Heartbeat\<close>

record heartbeat_frame =
  hb_sender_id :: node_id
  hb_timestamp :: u64
  hb_gateway_hops :: u8
  hb_load :: u8
  hb_gw_x25519_pub :: bytes

definition HB_SIZE :: nat where "HB_SIZE = 58"

definition HeartbeatFrame_encode :: "heartbeat_frame \<Rightarrow> bytes" where
  "HeartbeatFrame_encode f =
     as_bytes (hb_sender_id f) @ be64 (hb_timestamp f) @ [hb_gateway_hops f] @ [hb_load f]
     @ hb_gw_x25519_pub f"

definition HeartbeatFrame_decode :: "bytes \<Rightarrow> (pim_error, heartbeat_frame \<times> bytes) outcome" where
  "HeartbeatFrame_decode buf =
     (if length buf < HB_SIZE then Err (Protocol (HeartbeatTooShort (length buf)))
      else and_then (subslice buf 0 16) (\<lambda>id_bytes.
        and_then (subslice buf 16 24) (\<lambda>ts.
        and_then (index buf 24) (\<lambda>gateway_hops.
        and_then (index buf 25) (\<lambda>load.
        and_then (subslice buf 26 58) (\<lambda>gw_x25519_pub.
        and_then (advance buf HB_SIZE) (\<lambda>buf.
          Ok (\<lparr>hb_sender_id = NodeId_from_bytes id_bytes, hb_timestamp = of_be64 ts,
               hb_gateway_hops = gateway_hops, hb_load = load,
               hb_gw_x25519_pub = gw_x25519_pub\<rparr>, buf))))))))"

definition wf_heartbeat_frame :: "heartbeat_frame \<Rightarrow> bool" where
  "wf_heartbeat_frame f \<longleftrightarrow> wf_node_id (hb_sender_id f) \<and> length (hb_gw_x25519_pub f) = 32"

lemma HeartbeatFrame_decode_encode:
  "wf_heartbeat_frame f \<Longrightarrow> HeartbeatFrame_decode (HeartbeatFrame_encode f @ rest) = Ok (f, rest)"
  by (simp add: HeartbeatFrame_decode_def HeartbeatFrame_encode_def wf_heartbeat_frame_def
      wf_node_id_def HB_SIZE_def nth_append NodeId_from_bytes_def)

lemma HeartbeatFrame_decode_no_panic: "HeartbeatFrame_decode buf \<noteq> Panic"
  by (simp add: HeartbeatFrame_decode_def and_then_eq_Panic HB_SIZE_def)

lemma HeartbeatFrame_decode_Ok:
  "HeartbeatFrame_decode buf = Ok (f, rest) \<Longrightarrow> wf_heartbeat_frame f \<and> consumed buf rest"
  by (auto simp: HeartbeatFrame_decode_def and_then_eq_Ok access_eq_Ok wf_heartbeat_frame_def
      wf_node_id_def HB_SIZE_def NodeId_from_bytes_def not_less split: if_splits)

interpretation heartbeat_codec:
  frame_codec HeartbeatFrame_encode HeartbeatFrame_decode wf_heartbeat_frame
  by unfold_locales
    (fact HeartbeatFrame_decode_encode HeartbeatFrame_decode_no_panic HeartbeatFrame_decode_Ok)+

end
