(* ===== verification/Stream_Framing.thy ===== *)
theory Stream_Framing
  imports Wire_Frames
begin

text \<open>
  Frames on a byte stream: the length-delimited codec (\<^verbatim>\<open>length_delimited.rs\<close>), what the TCP
  transport puts on the wire for a frame (\<^verbatim>\<open>TcpTransport::send\<close>), and the read task that turns
  the chunks returned by the socket back into frames (\<^verbatim>\<open>TcpTransport::register_peer\<close>). The lemmas
  show that the reader's output does not depend on how the stream is cut into chunks, that every
  frame sent is delivered once and in order, and what the reader does after a framing error.
\<close>

section \<open>Length-delimited codec\<close>

definition MAX_FRAME_SIZE :: u32 where "MAX_FRAME_SIZE = 1048576"

definition LengthDelimited_encode :: "bytes \<Rightarrow> bytes" where
  "LengthDelimited_encode payload = be32 (of_nat (length payload)) @ payload"

text \<open>\<open>Ok None\<close>: more data is needed. \<open>Ok (Some (payload, rest))\<close>: a message and the remaining buffer.\<close>

definition LengthDelimited_decode :: "bytes \<Rightarrow> (pim_error, (bytes \<times> bytes) option) outcome" where
  "LengthDelimited_decode buf =
     (if length buf < 4 then Ok None
      else and_then (subslice buf 0 4) (\<lambda>l.
        let len = of_be32 l in
        if len > MAX_FRAME_SIZE then Err (Protocol (FrameTooLarge len))
        else
          let total = 4 + unat len in
          if length buf < total then Ok None
          else and_then (advance buf 4) (\<lambda>buf.
            and_then (split_to buf (unat len)) (\<lambda>(payload, buf). Ok (Some (payload, buf))))))"

lemma LengthDelimited_decode_cases:
  obtains (need) "LengthDelimited_decode buf = Ok None" "length buf < 4 + unat MAX_FRAME_SIZE"
  | (error) e where "LengthDelimited_decode buf = Err e"
  | (frame) p rest where "LengthDelimited_decode buf = Ok (Some (p, rest))"
      "length rest < length buf" "length p \<le> unat MAX_FRAME_SIZE"
proof -
  consider "length buf < 4" | "4 \<le> length buf" "of_be32 (take 4 buf) > MAX_FRAME_SIZE"
    | "4 \<le> length buf" "\<not> of_be32 (take 4 buf) > MAX_FRAME_SIZE"
        "length buf < 4 + unat (of_be32 (take 4 buf))"
    | "4 \<le> length buf" "\<not> of_be32 (take 4 buf) > MAX_FRAME_SIZE"
        "4 + unat (of_be32 (take 4 buf)) \<le> length buf"
    by linarith
  then show thesis
  proof cases
    case 1
    then show ?thesis by (intro need) (simp_all add: LengthDelimited_decode_def)
  next
    case 2
    then show ?thesis by (intro error) (simp add: LengthDelimited_decode_def)
  next
    case 3
    then show ?thesis
      by (intro need) (simp_all add: LengthDelimited_decode_def Let_def linorder_not_less word_less_nat_alt)
  next
    case 4
    then have "LengthDelimited_decode buf = Ok (Some (take (unat (of_be32 (take 4 buf))) (drop 4 buf),
        drop (4 + unat (of_be32 (take 4 buf))) buf))"
      by (simp add: LengthDelimited_decode_def Let_def ac_simps)
    then show ?thesis
      by (rule frame) (use 4 in \<open>simp_all add: linorder_not_less word_less_nat_alt\<close>)
  qed
qed

lemma LengthDelimited_decode_no_panic: "LengthDelimited_decode buf \<noteq> Panic"
  by (rule LengthDelimited_decode_cases [of buf]) simp_all

lemma LengthDelimited_decode_shorter:
  "LengthDelimited_decode buf = Ok (Some (p, rest)) \<Longrightarrow> length rest < length buf"
  by (rule LengthDelimited_decode_cases [of buf]) auto

lemma LengthDelimited_decode_encode:
  "length p \<le> unat MAX_FRAME_SIZE \<Longrightarrow>
   LengthDelimited_decode (LengthDelimited_encode p @ rest) = Ok (Some (p, rest))"
  by (simp add: LengthDelimited_decode_def LengthDelimited_encode_def MAX_FRAME_SIZE_def
      word_less_nat_alt unat_of_nat)

text \<open>More bytes at the end of the buffer do not change a message already found, nor an error.\<close>

lemma LengthDelimited_decode_append:
  "LengthDelimited_decode a = Ok (Some (p, rest)) \<Longrightarrow>
   LengthDelimited_decode (a @ b) = Ok (Some (p, rest @ b))"
  "LengthDelimited_decode a = Err e \<Longrightarrow> LengthDelimited_decode (a @ b) = Err e"
  by (auto simp: LengthDelimited_decode_def Let_def and_then_iffs access_eq_Ok split: if_splits)

section \<open>Sending\<close>

definition TcpTransport_wire :: "transport_frame \<Rightarrow> bytes" where
  "TcpTransport_wire frame =
     (let frame_buf = TransportFrame_encode frame in LengthDelimited_encode frame_buf)"

section \<open>The read task\<close>

datatype read_event = Incoming transport_frame | DecodeError pim_error | FramingError pim_error

text \<open>
  The inner loop, run after each successful read: it extracts messages until more data is needed or
  the framing is invalid, decodes each as a transport frame (bytes after the frame are ignored) and
  reports it. It returns the events and the buffer that is kept for the next read.
\<close>

function drain :: "bytes \<Rightarrow> (pim_error, read_event list \<times> bytes) outcome" where
  "drain buf =
     (case LengthDelimited_decode buf of
        Ok (Some (frame_bytes, rest)) \<Rightarrow>
          (case TransportFrame_decode frame_bytes of
             Ok (frame, _) \<Rightarrow>
               and_then (drain rest) (\<lambda>(evs, buf). Ok (Incoming frame # evs, buf))
           | Err e \<Rightarrow> and_then (drain rest) (\<lambda>(evs, buf). Ok (DecodeError e # evs, buf))
           | Panic \<Rightarrow> Panic)
      | Ok None \<Rightarrow> Ok ([], buf)
      | Err e \<Rightarrow> Ok ([FramingError e], buf)
      | Panic \<Rightarrow> Panic)"
  by pat_completeness auto

termination drain
  by (relation "measure length") (auto dest: LengthDelimited_decode_shorter)

declare drain.simps [simp del]

text \<open>The outer loop over the chunks the socket returns.\<close>

fun read_loop :: "bytes \<Rightarrow> bytes list \<Rightarrow> (pim_error, read_event list \<times> bytes) outcome" where
  "read_loop buf [] = Ok ([], buf)"
| "read_loop buf (chunk # chunks) =
     and_then (drain (buf @ chunk)) (\<lambda>(evs, buf).
     and_then (read_loop buf chunks) (\<lambda>(evs', buf). Ok (evs @ evs', buf)))"

section \<open>What the reader delivers\<close>

lemma drain_need: "LengthDelimited_decode buf = Ok None \<Longrightarrow> drain buf = Ok ([], buf)"
  by (simp add: drain.simps [of buf])

lemma drain_error: "LengthDelimited_decode buf = Err e \<Longrightarrow> drain buf = Ok ([FramingError e], buf)"
  by (simp add: drain.simps [of buf])

definition frame_event :: "bytes \<Rightarrow> read_event" where
  "frame_event p =
     (case TransportFrame_decode p of Ok (f, _) \<Rightarrow> Incoming f | Err e \<Rightarrow> DecodeError e)"

lemma drain_frame:
  "LengthDelimited_decode buf = Ok (Some (p, rest)) \<Longrightarrow>
   drain buf = and_then (drain rest) (\<lambda>(evs, buf). Ok (frame_event p # evs, buf))"
  using TransportFrame_decode_no_panic [of p]
  by (simp add: drain.simps [of buf] frame_event_def split: outcome.splits)

text \<open>Induction over the messages at the head of a buffer.\<close>

lemma drain_induct [case_names need error frame]:
  assumes "\<And>buf. LengthDelimited_decode buf = Ok None \<Longrightarrow> P buf"
    and "\<And>buf e. LengthDelimited_decode buf = Err e \<Longrightarrow> P buf"
    and "\<And>buf p rest. LengthDelimited_decode buf = Ok (Some (p, rest)) \<Longrightarrow> P rest \<Longrightarrow> P buf"
  shows "P buf"
proof (induction buf rule: length_induct)
  case (1 buf)
  show ?case
    by (cases rule: LengthDelimited_decode_cases [of buf]) (use 1 assms in \<open>blast+\<close>)
qed

lemma drain_total: "\<exists>evs rest. drain buf = Ok (evs, rest)"
  by (induction buf rule: drain_induct) (auto simp: drain_need drain_error drain_frame)

definition framing_errors :: "read_event list \<Rightarrow> read_event list" where
  "framing_errors evs = filter (\<lambda>ev. case ev of FramingError _ \<Rightarrow> True | _ \<Rightarrow> False) evs"

lemma framing_errors_simps [simp]:
  "framing_errors [] = []" "framing_errors (a @ b) = framing_errors a @ framing_errors b"
  "framing_errors (FramingError e # evs) = FramingError e # framing_errors evs"
  "framing_errors (Incoming f # evs) = framing_errors evs"
  "framing_errors (DecodeError e # evs) = framing_errors evs"
  by (simp_all add: framing_errors_def)

lemma framing_errors_frame_event [simp]:
  "framing_errors (frame_event p # evs) = framing_errors evs"
  using TransportFrame_decode_no_panic [of p]
  by (auto simp: frame_event_def framing_errors_def split: outcome.splits)

lemma drain_append:
  "drain a = Ok (evs, rest) \<Longrightarrow> framing_errors evs = [] \<Longrightarrow>
   drain (a @ b) = and_then (drain (rest @ b)) (\<lambda>(evs', rest'). Ok (evs @ evs', rest'))"
proof (induction a arbitrary: evs rest rule: drain_induct)
  case (need buf)
  with drain_total [of "buf @ b"] show ?case by (auto simp: drain_need)
next
  case (error buf e)
  then show ?case by (auto simp: drain_error)
next
  case (frame buf p r)
  obtain evs' where e: "evs = frame_event p # evs'" "drain r = Ok (evs', rest)"
    using frame by (auto simp: drain_frame and_then_eq_Ok)
  with frame have "drain (r @ b) = and_then (drain (rest @ b)) (\<lambda>(evs'', rest'). Ok (evs' @ evs'', rest'))"
    by simp
  with e frame show ?case
    by (auto simp: drain_frame [OF LengthDelimited_decode_append(1)] and_then_assoc
        intro!: arg_cong [where f = "and_then (drain (rest @ b))"])
qed

lemma read_loop_total: "\<exists>evs rest. read_loop buf chunks = Ok (evs, rest)"
proof (induction chunks arbitrary: buf)
  case (Cons c cs)
  obtain evs rest where "drain (buf @ c) = Ok (evs, rest)" using drain_total by blast
  with Cons [of rest] show ?case by auto
qed simp

lemma drain_drained: "drain buf = Ok (evs, rest) \<Longrightarrow> framing_errors evs = [] \<Longrightarrow>
   LengthDelimited_decode rest = Ok None"
  by (induction buf arbitrary: evs rule: drain_induct)
    (auto simp: drain_need drain_error drain_frame and_then_eq_Ok)

lemma drain_append_error:
  "drain a = Ok (evs, rest) \<Longrightarrow> framing_errors evs \<noteq> [] \<Longrightarrow> drain (a @ b) = Ok (evs, rest @ b)"
proof (induction a arbitrary: evs rest rule: drain_induct)
  case (frame buf p r)
  then show ?case
    by (auto simp: drain_frame drain_frame [OF LengthDelimited_decode_append(1)] and_then_eq_Ok)
qed (auto simp: drain_need drain_error drain_error [OF LengthDelimited_decode_append(2)])

lemma read_loop_drain:
  "drain (buf @ concat chunks) = Ok (evs, rest) \<Longrightarrow> framing_errors evs = [] \<Longrightarrow>
   LengthDelimited_decode buf = Ok None \<Longrightarrow> read_loop buf chunks = Ok (evs, rest)"
proof (induction chunks arbitrary: buf evs)
  case Nil
  then show ?case by (simp add: drain_need)
next
  case (Cons c cs)
  obtain ev1 r1 where d1: "drain (buf @ c) = Ok (ev1, r1)" using drain_total by blast
  have e1: "framing_errors ev1 = []"
    using drain_append_error [OF d1, of "concat cs"] Cons.prems(1,2) by auto
  obtain ev2 where d2: "drain (r1 @ concat cs) = Ok (ev2, rest)" and evs: "evs = ev1 @ ev2"
    using drain_append [OF d1 e1, of "concat cs"] Cons.prems(1) by (auto simp: and_then_eq_Ok)
  have "read_loop r1 cs = Ok (ev2, rest)"
    using Cons.IH [OF d2] Cons.prems(2) drain_drained [OF d1 e1] by (simp add: evs)
  with d1 show ?case by (simp add: evs)
qed

definition fits_wire :: "transport_frame \<Rightarrow> bool" where
  "fits_wire f \<longleftrightarrow> wf_transport_frame f \<and> length (tf_payload f) + 36 \<le> unat MAX_FRAME_SIZE"

lemma drain_wire:
  assumes "fits_wire f"
  shows "drain (TcpTransport_wire f @ rest)
           = and_then (drain rest) (\<lambda>(evs, buf). Ok (Incoming f # evs, buf))"
proof -
  have "length (TransportFrame_encode f) \<le> unat MAX_FRAME_SIZE"
    using assms by (simp add: fits_wire_def wf_transport_frame_def TransportFrame_encode_def)
  moreover have "frame_event (TransportFrame_encode f) = Incoming f"
    using assms by (simp add: fits_wire_def frame_event_def transport_codec.decode_encode_exact)
  ultimately show ?thesis
    using drain_frame [OF LengthDelimited_decode_encode]
    by (simp add: TcpTransport_wire_def)
qed

lemma drain_wires:
  "\<forall>f\<in>set fs. fits_wire f \<Longrightarrow>
   drain (concat (map TcpTransport_wire fs) @ rest)
     = and_then (drain rest) (\<lambda>(evs, buf). Ok (map Incoming fs @ evs, buf))"
proof (induction fs)
  case Nil
  obtain evs buf where "drain rest = Ok (evs, buf)" using drain_total by blast
  then show ?case by simp
next
  case (Cons f fs)
  then show ?case by (simp add: drain_wire and_then_assoc split_def)
qed

lemma framing_errors_Incoming [simp]: "framing_errors (map Incoming fs) = []"
  by (induction fs) simp_all

lemma LengthDelimited_decode_Nil [simp]: "LengthDelimited_decode [] = Ok None"
  by (simp add: LengthDelimited_decode_def)

text \<open>
  Claim C13: whatever way the socket cuts the byte stream into chunks, the reader delivers exactly
  the frames that were sent, each once and in order, reports no error, and ends with an empty
  buffer. (A frame may be sent when its payload and the 36 bytes around it fit the framing limit.)
\<close>

theorem read_loop_delivers:
  assumes "\<forall>f\<in>set fs. fits_wire f" "concat chunks = concat (map TcpTransport_wire fs)"
  shows "read_loop [] chunks = Ok (map Incoming fs, [])"
  using drain_wires [OF assms(1), of "[]"]
  by (intro read_loop_drain) (simp_all add: assms(2) drain_need)

theorem read_loop_delivers_witness:
  "let f = \<lparr>tf_frame_type = Control, tf_nonce = replicate 12 7, tf_payload = [1, 2, 3],
            tf_tag = replicate 16 9\<rparr>;
       w = TcpTransport_wire f @ TcpTransport_wire f
   in fits_wire f \<and> read_loop [] [take 5 w, drop 5 w] = Ok ([Incoming f, Incoming f], [])"
proof -
  let ?f = "\<lparr>tf_frame_type = Control, tf_nonce = replicate 12 7, tf_payload = [1, 2, 3],
             tf_tag = replicate 16 9\<rparr>"
  let ?w = "TcpTransport_wire ?f @ TcpTransport_wire ?f"
  have fit: "fits_wire ?f"
    by (simp add: fits_wire_def wf_transport_frame_def transport_frame_defs MAX_FRAME_SIZE_def)
  have "read_loop [] [take 5 ?w, drop 5 ?w] = Ok (map Incoming [?f, ?f], [])"
    using fit by (intro read_loop_delivers) (simp_all del: take_append drop_append)
  with fit show ?thesis by (simp only: Let_def list.map simp_thms)
qed

text \<open>
  Claim C25: after a length prefix above the limit the reader never recovers: every further read
  only reports the same framing error, no frame is delivered any more, and every byte received is
  kept, so the buffer grows without bound.
\<close>

theorem framing_error_is_permanent:
  assumes "LengthDelimited_decode buf = Err e"
  shows "read_loop buf chunks = Ok (replicate (length chunks) (FramingError e), buf @ concat chunks)"
  using assms
proof (induction chunks arbitrary: buf)
  case (Cons c cs)
  have "LengthDelimited_decode (buf @ c) = Err e"
    using LengthDelimited_decode_append(2) [OF Cons.prems] .
  with Cons.IH [OF this] show ?case by (simp add: drain_error)
qed simp

theorem framing_error_is_permanent_witness:
  "read_loop [0, 16, 0, 1] [[1, 2], [3]]
     = Ok ([FramingError (Protocol (FrameTooLarge 1048577)),
            FramingError (Protocol (FrameTooLarge 1048577))], [0, 16, 0, 1, 1, 2, 3])"
proof -
  have "LengthDelimited_decode [0, 16, 0, 1] = Err (Protocol (FrameTooLarge 1048577))"
    by code_simp
  from framing_error_is_permanent [OF this, of "[[1, 2], [3]]"] show ?thesis
    by (simp add: numeral_2_eq_2)
qed

text \<open>
  As long as no framing error occurs, the buffer kept between reads is shorter than one
  maximal message with its prefix, so a peer cannot make it grow.
\<close>

theorem read_buffer_bounded:
  assumes "read_loop [] chunks = Ok (evs, rest)" "framing_errors evs = []"
  shows "length rest < 4 + unat MAX_FRAME_SIZE"
proof -
  have "LengthDelimited_decode b = Ok None \<Longrightarrow> read_loop b chunks = Ok (evs, rest) \<Longrightarrow>
      framing_errors evs = [] \<Longrightarrow> LengthDelimited_decode rest = Ok None" for b
  proof (induction chunks arbitrary: b evs)
    case (Cons c cs)
    then show ?case by (auto simp: and_then_eq_Ok dest: drain_drained)
  qed simp
  from this [of "[]"] assms have "LengthDelimited_decode rest = Ok None" by simp
  then show ?thesis by (cases rule: LengthDelimited_decode_cases [of rest]) auto
qed

theorem read_buffer_bounded_witness:
  "read_loop [] [[0, 0], [0, 2, 7]] = Ok ([], [0, 0, 0, 2, 7])
   \<and> length ([0, 0, 0, 2, 7] :: bytes) < 4 + unat MAX_FRAME_SIZE"
proof -
  have r: "read_loop [] [[0, 0], [0, 2, 7]] = Ok ([], [0, 0, 0, 2, 7])"
    by (simp add: drain_need LengthDelimited_decode_def of_be32_def of_be16_def MAX_FRAME_SIZE_def)
  from read_buffer_bounded [OF r] r show ?thesis by simp
qed

end
