(* ===== verification/Send_Buffer.thy ===== *)
theory Send_Buffer
  imports Wire_Frames "HOL-Library.Multiset"
begin

text \<open>
  The store-and-forward buffer (\<^verbatim>\<open>pim-daemon/src/send_buffer.rs\<close>) and its use by the sender
  (\<^verbatim>\<open>send_frame_buffered\<close>, \<^verbatim>\<open>flush_send_buffer\<close> and one round of \<^verbatim>\<open>run_buffer_flush\<close> in
  \<^verbatim>\<open>pim-daemon/src/peer_tasks.rs\<close>). Frames are classified by priority, kept sorted by priority and
  then by age, evicted from the low end at capacity, and dropped after a timeout. Instants are given
  as arguments; \<open>now - t\<close> on naturals is the saturating \<^verbatim>\<open>duration_since\<close>.
\<close>

datatype priority = PControl | PRoute | PData

fun priority_rank :: "priority \<Rightarrow> nat" where
  "priority_rank PControl = 0"
| "priority_rank PRoute = 1"
| "priority_rank PData = 2"

instantiation priority :: linorder
begin

definition less_eq_priority :: "priority \<Rightarrow> priority \<Rightarrow> bool" where
  "less_eq_priority a b \<longleftrightarrow> priority_rank a \<le> priority_rank b"

definition less_priority :: "priority \<Rightarrow> priority \<Rightarrow> bool" where
  "less_priority a b \<longleftrightarrow> priority_rank a < priority_rank b"

instance
proof
  fix a b :: priority
  show "a \<le> b \<Longrightarrow> b \<le> a \<Longrightarrow> a = b"
    by (cases a; cases b) (simp_all add: less_eq_priority_def)
qed (auto simp: less_eq_priority_def less_priority_def)

end

fun Priority_of :: "frame_type \<Rightarrow> priority" where
  "Priority_of Control = PControl"
| "Priority_of Handshake = PControl"
| "Priority_of RouteUpdate = PRoute"
| "Priority_of _ = PData"

definition DEFAULT_CAPACITY :: nat where "DEFAULT_CAPACITY = 256"
definition DEFAULT_TIMEOUT :: duration where "DEFAULT_TIMEOUT = 30"

section \<open>The buffer of a peer\<close>

record buffered_frame =
  bf_enqueued_at :: instant
  bf_priority :: priority
  bf_frame :: transport_frame

record peer_buffer =
  pb_frames :: "buffered_frame list"
  pb_capacity :: nat
  pb_timeout :: duration

definition PeerBuffer_new :: "nat \<Rightarrow> duration \<Rightarrow> peer_buffer" where
  "PeerBuffer_new capacity timeout = \<lparr>pb_frames = [], pb_capacity = capacity, pb_timeout = timeout\<rparr>"

definition unexpired :: "instant \<Rightarrow> duration \<Rightarrow> buffered_frame \<Rightarrow> bool" where
  "unexpired now timeout f \<longleftrightarrow> now - bf_enqueued_at f < timeout"

text \<open>\<^verbatim>\<open>partition_point\<close> of a partitioned slice: the length of the prefix that satisfies the predicate.\<close>

definition partition_point :: "('a \<Rightarrow> bool) \<Rightarrow> 'a list \<Rightarrow> nat" where
  "partition_point P xs = length (takeWhile P xs)"

definition insert_at :: "nat \<Rightarrow> 'a \<Rightarrow> 'a list \<Rightarrow> 'a list" where
  "insert_at i x xs = take i xs @ x # drop i xs"

definition goes_before :: "buffered_frame \<Rightarrow> buffered_frame \<Rightarrow> bool" where
  "goes_before f bf \<longleftrightarrow> bf_priority f < bf_priority bf
     \<or> (bf_priority f = bf_priority bf \<and> bf_enqueued_at f \<le> bf_enqueued_at bf)"

definition PeerBuffer_push :: "instant \<Rightarrow> priority \<Rightarrow> transport_frame \<Rightarrow> peer_buffer \<Rightarrow> peer_buffer" where
  "PeerBuffer_push now priority frame b =
     (let frames = filter (unexpired now (pb_timeout b)) (pb_frames b);
          bf = \<lparr>bf_enqueued_at = now, bf_priority = priority, bf_frame = frame\<rparr>;
          put = (\<lambda>frames. b\<lparr>pb_frames := insert_at (partition_point (\<lambda>f. goes_before f bf) frames) bf frames\<rparr>)
      in if length frames \<ge> pb_capacity b then
           (if frames \<noteq> [] \<and> bf_priority (last frames) \<ge> priority then put (butlast frames)
            else b\<lparr>pb_frames := frames\<rparr>)
         else put frames)"

definition PeerBuffer_drain :: "instant \<Rightarrow> peer_buffer \<Rightarrow> transport_frame list \<times> peer_buffer" where
  "PeerBuffer_drain now b =
     (map bf_frame (filter (unexpired now (pb_timeout b)) (pb_frames b)), b\<lparr>pb_frames := []\<rparr>)"

definition PeerBuffer_expire :: "instant \<Rightarrow> peer_buffer \<Rightarrow> nat \<times> peer_buffer" where
  "PeerBuffer_expire now b =
     (let frames = filter (unexpired now (pb_timeout b)) (pb_frames b)
      in (length (pb_frames b) - length frames, b\<lparr>pb_frames := frames\<rparr>))"

section \<open>All peers\<close>

record send_buffer =
  sb_peers :: "(node_id, peer_buffer) hash_map"
  sb_capacity :: nat
  sb_timeout :: duration

definition SendBuffer_new :: "nat \<Rightarrow> duration \<Rightarrow> send_buffer" where
  "SendBuffer_new capacity timeout = \<lparr>sb_peers = [], sb_capacity = capacity, sb_timeout = timeout\<rparr>"

definition SendBuffer_push ::
  "instant \<Rightarrow> node_id \<Rightarrow> priority \<Rightarrow> transport_frame \<Rightarrow> send_buffer \<Rightarrow> send_buffer" where
  "SendBuffer_push now peer priority frame sb =
     (let b = (case hm_get (sb_peers sb) peer of
                 Some b \<Rightarrow> b | None \<Rightarrow> PeerBuffer_new (sb_capacity sb) (sb_timeout sb))
      in sb\<lparr>sb_peers := hm_insert peer (PeerBuffer_push now priority frame b) (sb_peers sb)\<rparr>)"

definition SendBuffer_drain :: "instant \<Rightarrow> node_id \<Rightarrow> send_buffer \<Rightarrow> transport_frame list \<times> send_buffer" where
  "SendBuffer_drain now peer sb =
     (case hm_get (sb_peers sb) peer of
        None \<Rightarrow> ([], sb)
      | Some b \<Rightarrow>
          let (frames, b') = PeerBuffer_drain now b
          in (frames, if pb_frames b' = [] then sb\<lparr>sb_peers := hm_remove peer (sb_peers sb)\<rparr>
                      else sb\<lparr>sb_peers := hm_insert peer b' (sb_peers sb)\<rparr>))"

definition SendBuffer_expire_all :: "instant \<Rightarrow> send_buffer \<Rightarrow> nat \<times> send_buffer" where
  "SendBuffer_expire_all now sb =
     (let expired = map (\<lambda>(peer, b). (peer, PeerBuffer_expire now b)) (sb_peers sb)
      in (sum_list (map (\<lambda>(_, n, _). n) expired),
          sb\<lparr>sb_peers := hm_retain (\<lambda>_ b. pb_frames b \<noteq> []) (map (\<lambda>(peer, _, b). (peer, b)) expired)\<rparr>))"

definition SendBuffer_peer_count :: "send_buffer \<Rightarrow> nat" where
  "SendBuffer_peer_count sb = length (sb_peers sb)"

definition SendBuffer_frame_count :: "node_id \<Rightarrow> send_buffer \<Rightarrow> nat" where
  "SendBuffer_frame_count peer sb =
     (case hm_get (sb_peers sb) peer of Some b \<Rightarrow> length (pb_frames b) | None \<Rightarrow> 0)"

section \<open>Sending\<close>

text \<open>
  The transport is a parameter: \<open>send\<close> is what its \<^verbatim>\<open>send\<close> returns for a peer and a frame
  in the current state of the connections.
\<close>

datatype transport_error = PeerNotConnected node_id | ConnectionFailed | SendFailed | Congested node_id
  | ReceiveFailed | TransportShutdown | ProtocolError pim_error | IoError

type_synonym sender = "node_id \<Rightarrow> transport_frame \<Rightarrow> transport_error option"

definition should_buffer_under_congestion :: "frame_type \<Rightarrow> bool" where
  "should_buffer_under_congestion t \<longleftrightarrow> Priority_of t < PData"

record send_state =
  ss_buffer :: send_buffer
  ss_congestion_drops :: u64

definition send_frame_buffered :: "sender \<Rightarrow> instant \<Rightarrow> node_id \<Rightarrow> transport_frame \<Rightarrow> send_state \<Rightarrow> send_state" where
  "send_frame_buffered send now peer frame st =
     (let priority = Priority_of (tf_frame_type frame);
          buffered = st\<lparr>ss_buffer := SendBuffer_push now peer priority frame (ss_buffer st)\<rparr>
      in case send peer frame of
           None \<Rightarrow> st
         | Some (PeerNotConnected _) \<Rightarrow> buffered
         | Some (Congested _) \<Rightarrow>
             if should_buffer_under_congestion (tf_frame_type frame) then buffered
             else st\<lparr>ss_congestion_drops := ss_congestion_drops st + 1\<rparr>
         | Some _ \<Rightarrow> st)"

text \<open>Delivering drained frames to a peer that came back; what fails is dropped.\<close>

definition flush_send_buffer :: "sender \<Rightarrow> instant \<Rightarrow> node_id \<Rightarrow> send_state \<Rightarrow> transport_frame list \<times> send_state" where
  "flush_send_buffer send now peer st =
     (let (buffered, sb) = SendBuffer_drain now peer (ss_buffer st)
      in (filter (\<lambda>f. send peer f = None) buffered, st\<lparr>ss_buffer := sb\<rparr>))"

text \<open>
  One round of the periodic flush for one peer: the frames accepted by the transport and those put back.
  Sends are attempted in order; \<open>result i\<close> is what the \<open>i\<close>-th attempt returns.
\<close>

fun flush_round :: "transport_frame list \<Rightarrow> (nat \<Rightarrow> transport_error option) \<Rightarrow> nat \<Rightarrow> bool
    \<Rightarrow> transport_frame list \<times> transport_frame list" where
  "flush_round [] result i congested = ([], [])"
| "flush_round (f # fs) result i True =
     (let (sent, re_queue) = flush_round fs result i True in (sent, f # re_queue))"
| "flush_round (f # fs) result i False =
     (case result i of
        None \<Rightarrow> (let (sent, re_queue) = flush_round fs result (Suc i) False in (f # sent, re_queue))
      | Some (Congested _) \<Rightarrow>
          (let (sent, re_queue) = flush_round fs result (Suc i) True in (sent, f # re_queue))
      | Some (PeerNotConnected _) \<Rightarrow>
          (let (sent, re_queue) = flush_round fs result (Suc i) False in (sent, f # re_queue))
      | Some _ \<Rightarrow> flush_round fs result (Suc i) False)"

definition requeue :: "instant \<Rightarrow> node_id \<Rightarrow> transport_frame list \<Rightarrow> send_buffer \<Rightarrow> send_buffer" where
  "requeue now peer frames sb =
     fold (\<lambda>f. SendBuffer_push now peer (Priority_of (tf_frame_type f)) f) frames sb"

definition buffer_flush_peer ::
  "(nat \<Rightarrow> transport_error option) \<Rightarrow> instant \<Rightarrow> node_id \<Rightarrow> send_buffer \<Rightarrow> transport_frame list \<times> send_buffer" where
  "buffer_flush_peer result now peer sb =
     (let (buffered, sb) = SendBuffer_drain now peer sb;
          (sent, re_queue) = flush_round buffered result 0 False
      in (sent, requeue now peer re_queue sb))"

section \<open>Buffers are sorted and bounded\<close>

text \<open>Priority first, then age.\<close>

definition pb_inv :: "peer_buffer \<Rightarrow> bool" where
  "pb_inv b \<longleftrightarrow> sorted_wrt goes_before (pb_frames b) \<and> length (pb_frames b) \<le> pb_capacity b"

lemma goes_before_trans: "goes_before a b \<Longrightarrow> goes_before b c \<Longrightarrow> goes_before a c"
  by (auto simp: goes_before_def)

lemma goes_before_total: "\<not> goes_before a b \<Longrightarrow> goes_before b a"
  by (auto simp: goes_before_def)

lemma insert_at_partition: "insert_at (partition_point P xs) x xs = takeWhile P xs @ x # dropWhile P xs"
  by (simp add: insert_at_def partition_point_def takeWhile_eq_take [symmetric] dropWhile_eq_drop [symmetric])

lemma sorted_insert:
  assumes "sorted_wrt goes_before xs"
  shows "sorted_wrt goes_before (takeWhile (\<lambda>f. goes_before f x) xs @ x # dropWhile (\<lambda>f. goes_before f x) xs)"
  using assms
proof (induction xs)
  case (Cons y ys)
  show ?case
  proof (cases "goes_before y x")
    case True
    have "set (takeWhile (\<lambda>f. goes_before f x) ys @ x # dropWhile (\<lambda>f. goes_before f x) ys) = insert x (set ys)"
      by (metis Un_insert_right insert_is_Un list.simps(15) set_append takeWhile_dropWhile_id)
    with True Cons show ?thesis by auto
  next
    case False
    then have "goes_before x y" by (rule goes_before_total)
    with False Cons.prems show ?thesis by (auto intro: goes_before_trans)
  qed
qed simp

lemma sorted_wrt_butlast: "sorted_wrt P xs \<Longrightarrow> sorted_wrt P (butlast xs)"
  by (simp add: butlast_conv_take sorted_wrt_take)

lemma pb_inv_push:
  assumes "pb_inv b"
  shows "pb_inv (PeerBuffer_push now priority frame b)"
proof -
  let ?fs = "filter (unexpired now (pb_timeout b)) (pb_frames b)"
  have fs: "sorted_wrt goes_before ?fs" using assms by (simp add: pb_inv_def sorted_wrt_filter)
  have cap: "length ?fs \<le> pb_capacity b"
    using assms length_filter_le order_trans unfolding pb_inv_def by blast
  have len: "length (insert_at (partition_point P xs) x xs) = Suc (length xs)" for P xs and x :: buffered_frame
    by (simp add: insert_at_def partition_point_def length_takeWhile_le)
  have put: "sorted_wrt goes_before (insert_at (partition_point (\<lambda>f. goes_before f x) xs) x xs)"
    if "sorted_wrt goes_before xs" for x xs
    using sorted_insert [OF that] by (simp add: insert_at_partition)
  show ?thesis
    using fs cap put [OF fs] put [OF sorted_wrt_butlast [OF fs]]
    by (auto simp: PeerBuffer_push_def Let_def pb_inv_def len not_le)
qed

section \<open>Frames leave in priority order\<close>

definition insert_after :: "('a \<Rightarrow> 'b::linorder) \<Rightarrow> 'a \<Rightarrow> 'a list \<Rightarrow> 'a list" where
  "insert_after k x ys = takeWhile (\<lambda>y. k y \<le> k x) ys @ x # dropWhile (\<lambda>y. k y \<le> k x) ys"

lemma insort_insert_after: "insort_key k z (insert_after k x ys) = insert_after k x (insort_key k z ys)"
  by (induction ys) (auto simp: insert_after_def)

text \<open>Inserting behind all elements of at most the same key extends a stable sort.\<close>

lemma insert_after_sort: "insert_after k x (sort_key k zs) = sort_key k (zs @ [x])"
proof (induction zs)
  case Nil
  show ?case by (simp add: insert_after_def)
next
  case (Cons z zs)
  then show ?case by (simp add: insort_insert_after [symmetric])
qed

definition buffered :: "instant \<times> transport_frame \<Rightarrow> buffered_frame" where
  "buffered = (\<lambda>(t, f). \<lparr>bf_enqueued_at = t, bf_priority = Priority_of (tf_frame_type f), bf_frame = f\<rparr>)"

lemma buffered_simps [simp]:
  "bf_enqueued_at (buffered a) = fst a" "bf_frame (buffered a) = snd a"
  "bf_priority (buffered a) = Priority_of (tf_frame_type (snd a))"
  by (simp_all add: buffered_def split: prod.split)

definition push_all :: "(instant \<times> transport_frame) list \<Rightarrow> peer_buffer \<Rightarrow> peer_buffer" where
  "push_all arr b = fold (\<lambda>(t, f). PeerBuffer_push t (Priority_of (tf_frame_type f)) f) arr b"

lemma push_below_capacity:
  assumes "\<forall>f\<in>set (pb_frames b). bf_enqueued_at f \<le> t"
    and "length (filter (unexpired t (pb_timeout b)) (pb_frames b)) < pb_capacity b"
  shows "PeerBuffer_push t (Priority_of (tf_frame_type f)) f b =
    b\<lparr>pb_frames := insert_after bf_priority (buffered (t, f)) (filter (unexpired t (pb_timeout b)) (pb_frames b))\<rparr>"
proof -
  let ?fs = "filter (unexpired t (pb_timeout b)) (pb_frames b)"
  have "goes_before g (buffered (t, f)) \<longleftrightarrow> bf_priority g \<le> bf_priority (buffered (t, f))" if "g \<in> set ?fs" for g
    using assms(1) that by (auto simp: goes_before_def buffered_def)
  then have "takeWhile (\<lambda>g. goes_before g (buffered (t, f))) ?fs = takeWhile (\<lambda>g. bf_priority g \<le> bf_priority (buffered (t, f))) ?fs"
    "dropWhile (\<lambda>g. goes_before g (buffered (t, f))) ?fs = dropWhile (\<lambda>g. bf_priority g \<le> bf_priority (buffered (t, f))) ?fs"
    by (auto intro: takeWhile_cong dropWhile_cong)
  with assms(2) show ?thesis
    by (simp add: PeerBuffer_push_def Let_def insert_at_partition insert_after_def buffered_def)
qed

lemma push_all_frames:
  fixes timeout :: duration
  assumes "sorted (map fst arr)" "length arr \<le> capacity" "\<forall>a\<in>set arr. fst a \<le> now"
  defines "b \<equiv> push_all arr (PeerBuffer_new capacity timeout)"
  shows "pb_capacity b = capacity \<and> pb_timeout b = timeout \<and> length (pb_frames b) \<le> length arr
    \<and> set (pb_frames b) \<subseteq> buffered ` set arr
    \<and> filter (unexpired now timeout) (pb_frames b) = sort_key bf_priority (filter (unexpired now timeout) (map buffered arr))"
  using assms(1-3) unfolding b_def
proof (induction arr arbitrary: now rule: rev_induct)
  case Nil
  show ?case by (simp add: push_all_def PeerBuffer_new_def)
next
  case (snoc a arr)
  obtain t f where a: "a = (t, f)" by (cases a)
  let ?b = "push_all arr (PeerBuffer_new capacity timeout)"
  have t: "\<forall>a\<in>set arr. fst a \<le> t" "t \<le> now" "sorted (map fst arr)" "length arr \<le> capacity"
    using snoc.prems a by (auto simp: sorted_append)
  note IH = snoc.IH [OF t(3,4)]
  have b: "pb_capacity ?b = capacity" "pb_timeout ?b = timeout" "length (pb_frames ?b) \<le> length arr"
    "set (pb_frames ?b) \<subseteq> buffered ` set arr" using IH [OF t(1)] by simp_all
  let ?fs = "filter (unexpired t timeout) (pb_frames ?b)"
  have "length ?fs < capacity"
    by (rule le_less_trans [OF length_filter_le]) (use b(3) snoc.prems(2) in simp)
  moreover have "\<forall>g\<in>set (pb_frames ?b). bf_enqueued_at g \<le> t"
    using b(4) t(1) by fastforce
  ultimately have push: "push_all (arr @ [a]) (PeerBuffer_new capacity timeout)
      = ?b\<lparr>pb_frames := insert_after bf_priority (buffered a) ?fs\<rparr>"
    using push_below_capacity [of ?b t f] b(1,2) by (simp add: push_all_def a)
  have later: "(\<lambda>g. unexpired t timeout g \<and> unexpired now timeout g) = unexpired now timeout"
    using t(2) by (auto simp: unexpired_def)
  have "filter (unexpired now timeout) (insert_after bf_priority (buffered a) ?fs)
      = sort_key bf_priority (filter (unexpired now timeout) (map buffered (arr @ [a])))"
    using IH [OF t(1)] by (simp add: insert_after_sort filter_sort later)
  moreover have "length (insert_after bf_priority (buffered a) ?fs) = Suc (length ?fs)"
    unfolding insert_after_def by (metis add_Suc_right length_Cons length_append takeWhile_dropWhile_id)
  moreover have "set (insert_after bf_priority (buffered a) ?fs) = insert (buffered a) (set ?fs)"
    unfolding insert_after_def by (metis Un_insert_right list.simps(15) set_append takeWhile_dropWhile_id)
  moreover have "length ?fs \<le> length arr" by (rule order_trans [OF length_filter_le b(3)])
  ultimately show ?case unfolding push using b by auto
qed

lemma sort_key_map: "sort_key k (map f xs) = map f (sort_key (\<lambda>x. k (f x)) xs)"
proof (induction xs)
  case (Cons x xs)
  have "insort_key k (f x) (map f ys) = map f (insort_key (\<lambda>x. k (f x)) x ys)" for ys
    by (induction ys) auto
  with Cons show ?case by simp
qed simp

lemma drain_push_all:
  assumes "sorted (map fst arr)" "length arr \<le> capacity" "\<forall>a\<in>set arr. fst a \<le> now"
  shows "fst (PeerBuffer_drain now (push_all arr (PeerBuffer_new capacity timeout)))
    = sort_key (\<lambda>f. Priority_of (tf_frame_type f)) (map snd (filter (\<lambda>a. now - fst a < timeout) arr))"
proof -
  have "filter (unexpired now timeout) (map buffered arr) = map buffered (filter (\<lambda>a. now - fst a < timeout) arr)"
    by (simp add: filter_map o_def unexpired_def)
  then show ?thesis
    using push_all_frames [OF assms, of timeout] by (simp add: PeerBuffer_drain_def sort_key_map)
qed

definition push_many :: "(instant \<times> node_id \<times> transport_frame) list \<Rightarrow> send_buffer \<Rightarrow> send_buffer" where
  "push_many arr sb = fold (\<lambda>(t, p, f). SendBuffer_push t p (Priority_of (tf_frame_type f)) f) arr sb"

definition frames_for :: "node_id \<Rightarrow> (instant \<times> node_id \<times> transport_frame) list \<Rightarrow> (instant \<times> transport_frame) list" where
  "frames_for peer arr = map (\<lambda>(t, p, f). (t, f)) (filter (\<lambda>(t, p, f). p = peer) arr)"

lemma push_many_get:
  "hm_get (sb_peers (push_many arr sb)) peer =
     (if frames_for peer arr = [] then hm_get (sb_peers sb) peer
      else Some (push_all (frames_for peer arr)
        (case hm_get (sb_peers sb) peer of
           Some b \<Rightarrow> b | None \<Rightarrow> PeerBuffer_new (sb_capacity sb) (sb_timeout sb))))"
proof (induction arr arbitrary: sb)
  case Nil
  show ?case by (simp add: push_many_def frames_for_def)
next
  case (Cons a arr)
  obtain t p f where a: "a = (t, p, f)" by (cases a)
  let ?sb = "SendBuffer_push t p (Priority_of (tf_frame_type f)) f sb"
  have "push_many (a # arr) sb = push_many arr ?sb"
    "frames_for peer (a # arr) = (if p = peer then (t, f) # frames_for peer arr else frames_for peer arr)"
    by (simp_all add: push_many_def frames_for_def a)
  moreover have "sb_capacity ?sb = sb_capacity sb" "sb_timeout ?sb = sb_timeout sb"
    by (simp_all add: SendBuffer_push_def Let_def)
  moreover have "push_all [] b = b" for b by (simp add: push_all_def)
  ultimately show ?case
    using Cons [of ?sb] by (simp add: SendBuffer_push_def Let_def push_all_def split: option.split)
qed

text \<open>
  Claim C36: frames buffered for an unreachable peer are handed out in priority order, control before
  routes before data and in order of arrival within a priority, exactly those younger than the
  timeout; frames for other peers do not interfere. The buffer must not have overflowed.
\<close>

theorem drain_in_priority_order:
  assumes "sorted (map fst arr)" "\<forall>a\<in>set arr. fst a \<le> now" "length (frames_for peer arr) \<le> capacity"
  shows "fst (SendBuffer_drain now peer (push_many arr (SendBuffer_new capacity timeout)))
    = sort_key (\<lambda>f. Priority_of (tf_frame_type f))
        (map snd (filter (\<lambda>a. now - fst a < timeout) (frames_for peer arr)))"
proof (cases "frames_for peer arr = []")
  case True
  then show ?thesis by (simp add: SendBuffer_drain_def push_many_get SendBuffer_new_def)
next
  case False
  have "sorted (map fst (frames_for peer arr))"
    using sorted_filter [OF assms(1)] by (simp add: frames_for_def o_def case_prod_beta)
  moreover have "\<forall>a\<in>set (frames_for peer arr). fst a \<le> now"
    using assms(2) by (auto simp: frames_for_def)
  ultimately show ?thesis
    using False drain_push_all [OF _ assms(3)]
    by (simp add: SendBuffer_drain_def push_many_get SendBuffer_new_def case_prod_beta Let_def)
qed

theorem drain_in_priority_order_witness:
  "let f = (\<lambda>t n. \<lparr>tf_frame_type = t, tf_nonce = replicate 12 0, tf_payload = [n], tf_tag = replicate 16 0\<rparr>);
       p = NodeId (replicate 16 1); q = NodeId (replicate 16 2)
   in fst (SendBuffer_drain 40 p (push_many [(5, p, f Control 0), (12, p, f Data 1), (13, q, f Data 9),
          (14, p, f RouteUpdate 2), (15, p, f Data 3), (20, p, f Control 4)] (SendBuffer_new 5 30)))
      = [f Control 4, f RouteUpdate 2, f Data 1, f Data 3]"
proof -
  define f where "f = (\<lambda>t n. \<lparr>tf_frame_type = t, tf_nonce = replicate 12 0, tf_payload = [n], tf_tag = replicate 16 0\<rparr>)"
  define p q where "p = NodeId (replicate 16 1)" and "q = NodeId (replicate 16 2)"
  have ne: "q \<noteq> p" by (simp add: p_def q_def)
  let ?arr = "[(5, p, f Control 0), (12, p, f Data 1), (13, q, f Data 9),
          (14, p, f RouteUpdate 2), (15, p, f Data 3), (20, p, f Control 4)]"
  have "fst (SendBuffer_drain 40 p (push_many ?arr (SendBuffer_new 5 30)))
    = [f Control 4, f RouteUpdate 2, f Data 1, f Data 3]"
    using drain_in_priority_order [of ?arr 40 p 5 30] ne
    by (simp add: frames_for_def f_def less_eq_priority_def)
  then show ?thesis by (simp add: Let_def f_def p_def q_def)
qed

section \<open>Overflow\<close>

datatype sb_event =
    SbPush instant node_id transport_frame
  | SbDrain instant node_id
  | SbExpire instant
  | SbFlush instant node_id "nat \<Rightarrow> transport_error option"

fun sb_exec :: "sb_event \<Rightarrow> send_buffer \<Rightarrow> send_buffer" where
  "sb_exec (SbPush now peer f) sb = SendBuffer_push now peer (Priority_of (tf_frame_type f)) f sb"
| "sb_exec (SbDrain now peer) sb = snd (SendBuffer_drain now peer sb)"
| "sb_exec (SbExpire now) sb = snd (SendBuffer_expire_all now sb)"
| "sb_exec (SbFlush now peer result) sb = snd (buffer_flush_peer result now peer sb)"

definition sb_init :: "send_buffer \<Rightarrow> bool" where
  "sb_init sb \<longleftrightarrow> sb = SendBuffer_new (sb_capacity sb) (sb_timeout sb)"

inductive sb_step :: "send_buffer \<Rightarrow> send_buffer \<Rightarrow> bool" where
  sb_stepI: "sb_step sb (sb_exec ev sb)"

inductive_cases sb_stepE: "sb_step sb sb'"

definition sb_inv :: "send_buffer \<Rightarrow> bool" where
  "sb_inv sb \<longleftrightarrow> hm_wf (sb_peers sb) \<and>
     (\<forall>peer b. hm_get (sb_peers sb) peer = Some b \<longrightarrow>
        pb_inv b \<and> pb_capacity b = sb_capacity sb \<and> pb_timeout b = sb_timeout sb)"

lemma pb_push_params [simp]:
  "pb_capacity (PeerBuffer_push now p f b) = pb_capacity b"
  "pb_timeout (PeerBuffer_push now p f b) = pb_timeout b"
  by (simp_all add: PeerBuffer_push_def Let_def)

lemma pb_new [simp]:
  "pb_inv (PeerBuffer_new c t)" "pb_capacity (PeerBuffer_new c t) = c" "pb_timeout (PeerBuffer_new c t) = t"
  by (simp_all add: pb_inv_def PeerBuffer_new_def)

lemma sb_inv_push: "sb_inv sb \<Longrightarrow> sb_inv (SendBuffer_push now peer p f sb)"
proof -
  assume inv: "sb_inv sb"
  let ?b = "case hm_get (sb_peers sb) peer of Some b \<Rightarrow> b | None \<Rightarrow> PeerBuffer_new (sb_capacity sb) (sb_timeout sb)"
  have "pb_inv ?b \<and> pb_capacity ?b = sb_capacity sb \<and> pb_timeout ?b = sb_timeout sb"
    using inv by (auto simp: sb_inv_def pb_new split: option.split)
  then show ?thesis
    using inv pb_inv_push [of ?b] by (simp add: sb_inv_def SendBuffer_push_def Let_def)
qed

lemma sb_inv_requeue: "sb_inv sb \<Longrightarrow> sb_inv (requeue now peer fs sb)"
  unfolding requeue_def by (induction fs arbitrary: sb) (auto intro: sb_inv_push)

lemma sb_inv_drain: "sb_inv sb \<Longrightarrow> sb_inv (snd (SendBuffer_drain now peer sb))"
  by (auto simp: sb_inv_def SendBuffer_drain_def PeerBuffer_drain_def Let_def split: option.split if_splits)

lemma pb_inv_expire: "pb_inv b \<Longrightarrow> pb_inv (snd (PeerBuffer_expire now b))"
  unfolding pb_inv_def PeerBuffer_expire_def Let_def
  by (auto simp: sorted_wrt_filter intro: order_trans [OF length_filter_le])

lemma expire_all_peers:
  "sb_peers (snd (SendBuffer_expire_all now sb)) =
     hm_retain (\<lambda>_ b. pb_frames b \<noteq> []) (map (\<lambda>(peer, b). (peer, snd (PeerBuffer_expire now b))) (sb_peers sb))"
  by (simp add: SendBuffer_expire_all_def Let_def case_prod_unfold o_def)

lemma sb_inv_expire:
  assumes "sb_inv sb"
  shows "sb_inv (snd (SendBuffer_expire_all now sb))"
proof -
  let ?m = "map (\<lambda>(peer, b). (peer, snd (PeerBuffer_expire now b))) (sb_peers sb)"
  have wf: "hm_wf ?m" using assms by (simp add: sb_inv_def hm_wf_def o_def case_prod_beta)
  have get: "hm_get ?m k = map_option (\<lambda>b. snd (PeerBuffer_expire now b)) (hm_get (sb_peers sb) k)" for k
    by (simp add: map_of_map)
  have "pb_capacity (snd (PeerBuffer_expire now b)) = pb_capacity b"
    "pb_timeout (snd (PeerBuffer_expire now b)) = pb_timeout b" for b
    by (simp_all add: PeerBuffer_expire_def Let_def)
  moreover have "sb_capacity (snd (SendBuffer_expire_all now sb)) = sb_capacity sb"
    "sb_timeout (snd (SendBuffer_expire_all now sb)) = sb_timeout sb"
    by (simp_all add: SendBuffer_expire_all_def Let_def)
  ultimately show ?thesis
    using assms unfolding sb_inv_def expire_all_peers hm_get_retain [OF wf] get
    by (auto simp: wf pb_inv_expire split: option.splits if_splits)
qed

interpretation send_buffers: step_invariant sb_init sb_step sb_inv
proof
  show "sb_inv s" if "sb_init s" for s
    using that by (metis SendBuffer_new_def hm_wf_empty map_of.simps(1) option.distinct(1) sb_inv_def sb_init_def send_buffer.select_convs(1))
  fix s s' assume "sb_inv s" "sb_step s s'"
  then obtain ev where "s' = sb_exec ev s" by (blast elim: sb_stepE)
  with \<open>sb_inv s\<close> show "sb_inv s'"
    by (cases ev) (auto simp: buffer_flush_peer_def Let_def case_prod_beta
        intro: sb_inv_push sb_inv_drain sb_inv_expire sb_inv_requeue)
qed

lemma mset_insert_at: "mset (insert_at i x xs) = add_mset x (mset xs)"
  unfolding insert_at_def by (metis append_take_drop_id mset.simps(2) mset_append union_mset_add_mset_right)

lemma last_is_worst: "sorted_wrt goes_before xs \<Longrightarrow> y \<in> set xs \<Longrightarrow> bf_priority y \<le> bf_priority (last xs)"
proof (induction xs rule: rev_induct)
  case (snoc x xs)
  then show ?case by (auto simp: sorted_wrt_append goes_before_def)
qed simp

text \<open>
  In every reachable send buffer the frames of a peer are sorted by priority and age and
  within the capacity, and pushing a frame loses at most one unexpired frame, only when the buffer is
  full, and then one of the lowest priority present.
\<close>

theorem overflow_drops_lowest:
  assumes "reachable sb_init sb_step sb" "hm_get (sb_peers sb) peer = Some b"
    and "fs = filter (unexpired now (pb_timeout b)) (pb_frames b)"
    and "x = \<lparr>bf_enqueued_at = now, bf_priority = priority, bf_frame = frame\<rparr>"
    and "b' = PeerBuffer_push now priority frame b"
  shows "sorted_wrt goes_before (pb_frames b') \<and> length (pb_frames b') \<le> sb_capacity sb
    \<and> (mset (pb_frames b') = add_mset x (mset fs)
       \<or> length fs = sb_capacity sb
         \<and> (\<exists>y. add_mset y (mset (pb_frames b')) = add_mset x (mset fs)
              \<and> (\<forall>z\<in>set (pb_frames b'). bf_priority z \<le> bf_priority y)))"
proof -
  have b: "pb_inv b" "pb_capacity b = sb_capacity sb"
    using send_buffers.inv_reachable [OF assms(1)] assms(2) by (auto simp: sb_inv_def)
  have fs: "sorted_wrt goes_before fs" "length fs \<le> sb_capacity sb"
    using b unfolding pb_inv_def assms(3)
    by (auto simp: sorted_wrt_filter intro: order_trans [OF length_filter_le])
  have "pb_inv b'" unfolding assms(5) by (rule pb_inv_push [OF b(1)])
  moreover have "mset (pb_frames b') = add_mset x (mset fs)" if "length fs < sb_capacity sb"
    using that b(2) by (simp add: assms(3-5) PeerBuffer_push_def Let_def mset_insert_at)
  moreover have "\<exists>y. add_mset y (mset (pb_frames b')) = add_mset x (mset fs)
              \<and> (\<forall>z\<in>set (pb_frames b'). bf_priority z \<le> bf_priority y)" if full: "length fs = sb_capacity sb"
  proof (cases "fs \<noteq> [] \<and> priority \<le> bf_priority (last fs)")
    case True
    then have m: "mset (pb_frames b') = add_mset x (mset (butlast fs))"
      using full b(2) by (simp add: assms(3-5) PeerBuffer_push_def Let_def mset_insert_at)
    have "add_mset (last fs) (mset (butlast fs)) = mset fs"
      using True by (metis append_butlast_last_id mset.simps(1,2) mset_append union_mset_add_mset_right add.right_neutral)
    moreover have "bf_priority z \<le> bf_priority (last fs)" if "z \<in> set (pb_frames b')" for z
      using that True last_is_worst [OF fs(1)] m
      by (metis assms(4) buffered_frame.select_convs(2) in_set_butlastD insert_iff set_mset_add_mset_insert set_mset_mset)
    ultimately show ?thesis using m by (intro exI [of _ "last fs"]) simp
  next
    case False
    then have "pb_frames b' = fs"
      using full b(2) by (auto simp: assms(3-5) PeerBuffer_push_def Let_def)
    moreover have "bf_priority z \<le> bf_priority x" if "z \<in> set fs" for z
      using that False last_is_worst [OF fs(1) that] by (auto simp: assms(4))
    ultimately show ?thesis by (intro exI [of _ x]) simp
  qed
  ultimately show ?thesis
    using fs(2) b(2) by (auto simp: pb_inv_def assms(5) le_less)
qed

theorem overflow_drops_lowest_witness:
  "let f = (\<lambda>t. \<lparr>tf_frame_type = t, tf_nonce = replicate 12 0, tf_payload = [], tf_tag = replicate 16 0\<rparr>);
       sb = sb_exec (SbPush 1 (NodeId []) (f Data)) (SendBuffer_new 1 30)
   in \<exists>b. reachable sb_init sb_step sb \<and> hm_get (sb_peers sb) (NodeId []) = Some b
        \<and> length (pb_frames (PeerBuffer_push 2 PControl (f Control) b)) \<le> sb_capacity sb"
proof -
  define f where "f = (\<lambda>t. \<lparr>tf_frame_type = t, tf_nonce = replicate 12 0, tf_payload = [], tf_tag = replicate 16 0\<rparr>)"
  define sb where "sb = sb_exec (SbPush 1 (NodeId []) (f Data)) (SendBuffer_new 1 30)"
  have "reachable sb_init sb_step (SendBuffer_new 1 30)"
    by (rule reachable_init) (simp add: sb_init_def SendBuffer_new_def)
  then have r: "reachable sb_init sb_step sb" 
    unfolding sb_def by (rule reachable_step) (rule sb_stepI)
  obtain b where "hm_get (sb_peers sb) (NodeId []) = Some b"
    by (simp add: sb_def SendBuffer_push_def Let_def)
  with r overflow_drops_lowest [OF r this refl refl refl, of 2 PControl "f Control"] show ?thesis
    unfolding Let_def f_def [symmetric] sb_def [symmetric] by blast
qed

text \<open>
  A round of the periodic flush that finds the peer disconnected puts the frames back with a new time
  stamp, so the timeout starts anew: a frame buffered at 0 with a timeout of 30 is still delivered at 45.
\<close>

lemma flush_renews_timeout:
  defines "p \<equiv> NodeId (replicate 16 1)"
    and "f \<equiv> \<lparr>tf_frame_type = Data, tf_nonce = replicate 12 0, tf_payload = [], tf_tag = replicate 16 0\<rparr>"
  shows "fst (SendBuffer_drain 45 p (snd (buffer_flush_peer (\<lambda>_. Some (PeerNotConnected p)) 20 p
           (SendBuffer_push 0 p PData f (SendBuffer_new 256 30))))) = [f]"
  by (simp add: buffer_flush_peer_def SendBuffer_drain_def PeerBuffer_drain_def SendBuffer_push_def
      PeerBuffer_push_def PeerBuffer_new_def SendBuffer_new_def requeue_def Let_def unexpired_def
      insert_at_def partition_point_def f_def)

end
