(* ===== verification/Tcp_Peers.thy ===== *)
theory Tcp_Peers
  imports Stream_Framing Send_Buffer
begin

text \<open>
  The TCP transport (\<^verbatim>\<open>pim-transport/src/tcp.rs\<close>) as a step system. A connection is identified by the
  shared cell that holds its peer id (\<^verbatim>\<open>current_id\<close>, compared by address in the code); each has a read
  task, a bounded write queue with its write task, and possibly an entry in the peer map. The steps
  are the points between which other tasks may run: spawning the tasks of a new connection and
  storing its entry are two steps, and so are the end of the stream and the removal of the entry.
  Sockets are abstract: what the write task has handed to the socket is \<open>cn_wire\<close>, and frames decoded
  by the read loop (\<open>Stream_Framing\<close>) arrive as events. \<open>cn_sent\<close> is a history variable of the
  frames \<^verbatim>\<open>send\<close> accepted for a connection; no operation reads it.
\<close>

section \<open>Addresses\<close>

datatype socket_addr = AddrV4 ipv4 u16 | AddrV6 ipv6 u16

fun dual_stack_secondary_addr :: "socket_addr \<Rightarrow> socket_addr option" where
  "dual_stack_secondary_addr (AddrV4 ip port) = (if ip = 0 then Some (AddrV6 0 port) else None)"
| "dual_stack_secondary_addr (AddrV6 ip port) = (if ip = 0 then Some (AddrV4 0 port) else None)"

section \<open>State\<close>

datatype reader = Reading | Sending node_id transport_frame | Closing node_id | Stopped

record connection =
  cn_current_id :: node_id
  cn_remote_addr :: socket_addr
  cn_reader :: reader
  cn_queue :: "bytes list"
  cn_open :: bool
  cn_wire :: bytes
  cn_sent :: "transport_frame list"

type_synonym conn = nat

record tcp_transport =
  tt_peers :: "(node_id, conn) hash_map"
  tt_conns :: "connection list"
  tt_unstored :: "(conn \<times> node_id) list"
  tt_incoming :: "(node_id \<times> transport_frame) list"

definition WRITE_QUEUE :: nat where "WRITE_QUEUE = 64"
definition INCOMING_QUEUE :: nat where "INCOMING_QUEUE = 256"

definition TcpTransport_new :: tcp_transport where
  "TcpTransport_new = \<lparr>tt_peers = [], tt_conns = [], tt_unstored = [], tt_incoming = []\<rparr>"

definition upd_conn :: "conn \<Rightarrow> (connection \<Rightarrow> connection) \<Rightarrow> tcp_transport \<Rightarrow> tcp_transport" where
  "upd_conn c f tt = tt\<lparr>tt_conns := (tt_conns tt)[c := f (tt_conns tt ! c)]\<rparr>"

section \<open>Operations\<close>

text \<open>\<^verbatim>\<open>register_peer\<close> up to the two spawned tasks; both an accepted and an opened connection come here.\<close>

definition register_peer :: "node_id \<Rightarrow> socket_addr \<Rightarrow> tcp_transport \<Rightarrow> tcp_transport" where
  "register_peer peer addr tt =
     tt\<lparr>tt_conns := tt_conns tt @ [\<lparr>cn_current_id = peer, cn_remote_addr = addr, cn_reader = Reading,
                                      cn_queue = [], cn_open = True, cn_wire = [], cn_sent = []\<rparr>],
        tt_unstored := tt_unstored tt @ [(length (tt_conns tt), peer)]\<rparr>"

text \<open>The last statement of \<^verbatim>\<open>register_peer\<close>.\<close>

definition store_writer :: "conn \<times> node_id \<Rightarrow> tcp_transport \<Rightarrow> tcp_transport" where
  "store_writer r tt =
     tt\<lparr>tt_peers := hm_insert (snd r) (fst r) (tt_peers tt), tt_unstored := remove1 r (tt_unstored tt)\<rparr>"

text \<open>\<^verbatim>\<open>read_exact\<close> of the 16 bytes a connecting peer identifies itself with.\<close>

definition handle_incoming :: "bytes \<Rightarrow> socket_addr \<Rightarrow> tcp_transport \<Rightarrow> tcp_transport option" where
  "handle_incoming bs addr tt =
     (if length bs < 16 then None else Some (register_peer (NodeId_from_bytes (take 16 bs)) addr tt))"

definition rename_peer :: "node_id \<Rightarrow> node_id \<Rightarrow> tcp_transport \<Rightarrow> tcp_transport" where
  "rename_peer old_id new_id tt =
     (case hm_get (tt_peers tt) old_id of
        None \<Rightarrow> tt
      | Some c \<Rightarrow>
          upd_conn c (\<lambda>cn. cn\<lparr>cn_current_id := new_id\<rparr>)
            (tt\<lparr>tt_peers := hm_insert new_id c (hm_remove old_id (tt_peers tt))\<rparr>))"

definition peer_addr :: "node_id \<Rightarrow> tcp_transport \<Rightarrow> socket_addr option" where
  "peer_addr peer tt = map_option (\<lambda>c. cn_remote_addr (tt_conns tt ! c)) (hm_get (tt_peers tt) peer)"

definition transport_send ::
  "node_id \<Rightarrow> transport_frame \<Rightarrow> tcp_transport \<Rightarrow> transport_error option \<times> tcp_transport" where
  "transport_send peer frame tt =
     (case hm_get (tt_peers tt) peer of
        None \<Rightarrow> (Some (PeerNotConnected peer), tt)
      | Some c \<Rightarrow>
          let cn = tt_conns tt ! c in
          if \<not> cn_open cn then (Some SendFailed, tt)
          else if length (cn_queue cn) \<ge> WRITE_QUEUE then (Some (Congested peer), tt)
          else (None, upd_conn c (\<lambda>cn. cn\<lparr>cn_queue := cn_queue cn @ [TcpTransport_wire frame],
                    cn_sent := cn_sent cn @ [frame]\<rparr>) tt))"

definition transport_recv :: "tcp_transport \<Rightarrow> (node_id \<times> transport_frame) option \<times> tcp_transport" where
  "transport_recv tt =
     (case tt_incoming tt of
        [] \<Rightarrow> (None, tt)
      | x # xs \<Rightarrow> (Some x, tt\<lparr>tt_incoming := xs\<rparr>))"

definition disconnect :: "node_id \<Rightarrow> tcp_transport \<Rightarrow> transport_error option \<times> tcp_transport" where
  "disconnect peer tt =
     (case hm_get (tt_peers tt) peer of
        None \<Rightarrow> (Some (PeerNotConnected peer), tt)
      | Some _ \<Rightarrow> (None, tt\<lparr>tt_peers := hm_remove peer (tt_peers tt)\<rparr>))"

definition connected_peers :: "tcp_transport \<Rightarrow> node_id list" where
  "connected_peers tt = map fst (tt_peers tt)"

text \<open>
  The read task: a decoded frame is paired with the id the connection has at that moment, and waits
  until the incoming channel has room; then the end of the stream, and the cleanup after it.
\<close>

definition read_frame :: "conn \<Rightarrow> transport_frame \<Rightarrow> tcp_transport \<Rightarrow> tcp_transport" where
  "read_frame c frame tt = upd_conn c (\<lambda>cn. cn\<lparr>cn_reader := Sending (cn_current_id cn) frame\<rparr>) tt"

definition read_deliver :: "conn \<Rightarrow> node_id \<Rightarrow> transport_frame \<Rightarrow> tcp_transport \<Rightarrow> tcp_transport" where
  "read_deliver c peer frame tt =
     upd_conn c (\<lambda>cn. cn\<lparr>cn_reader := Reading\<rparr>) (tt\<lparr>tt_incoming := tt_incoming tt @ [(peer, frame)]\<rparr>)"

definition read_end :: "conn \<Rightarrow> tcp_transport \<Rightarrow> tcp_transport" where
  "read_end c tt = upd_conn c (\<lambda>cn. cn\<lparr>cn_reader := Closing (cn_current_id cn)\<rparr>) tt"

definition read_cleanup :: "conn \<Rightarrow> node_id \<Rightarrow> tcp_transport \<Rightarrow> tcp_transport" where
  "read_cleanup c peer tt =
     (let tt = upd_conn c (\<lambda>cn. cn\<lparr>cn_reader := Stopped\<rparr>) tt
      in if hm_get (tt_peers tt) peer = Some c then tt\<lparr>tt_peers := hm_remove peer (tt_peers tt)\<rparr> else tt)"

text \<open>The write task: one queued buffer written, or a failed write, which ends the task.\<close>

definition write_next :: "conn \<Rightarrow> tcp_transport \<Rightarrow> tcp_transport" where
  "write_next c tt =
     upd_conn c (\<lambda>cn. cn\<lparr>cn_wire := cn_wire cn @ hd (cn_queue cn), cn_queue := tl (cn_queue cn)\<rparr>) tt"

definition write_failed :: "conn \<Rightarrow> tcp_transport \<Rightarrow> tcp_transport" where
  "write_failed c tt = upd_conn c (\<lambda>cn. cn\<lparr>cn_open := False, cn_queue := []\<rparr>) tt"

section \<open>Steps\<close>

inductive tcp_step :: "tcp_transport \<Rightarrow> tcp_transport \<Rightarrow> bool" where
  tcp_register: "tcp_step tt (register_peer peer addr tt)"
| tcp_store: "r \<in> set (tt_unstored tt) \<Longrightarrow> tcp_step tt (store_writer r tt)"
| tcp_rename: "tcp_step tt (rename_peer old_id new_id tt)"
| tcp_send: "tcp_step tt (snd (transport_send peer frame tt))"
| tcp_recv: "tcp_step tt (snd (transport_recv tt))"
| tcp_disconnect: "tcp_step tt (snd (disconnect peer tt))"
| tcp_frame: "c < length (tt_conns tt) \<Longrightarrow> cn_reader (tt_conns tt ! c) = Reading \<Longrightarrow>
    tcp_step tt (read_frame c frame tt)"
| tcp_deliver: "c < length (tt_conns tt) \<Longrightarrow> cn_reader (tt_conns tt ! c) = Sending peer frame \<Longrightarrow>
    length (tt_incoming tt) < INCOMING_QUEUE \<Longrightarrow> tcp_step tt (read_deliver c peer frame tt)"
| tcp_end: "c < length (tt_conns tt) \<Longrightarrow> cn_reader (tt_conns tt ! c) = Reading \<Longrightarrow> tcp_step tt (read_end c tt)"
| tcp_cleanup: "c < length (tt_conns tt) \<Longrightarrow> cn_reader (tt_conns tt ! c) = Closing peer \<Longrightarrow>
    tcp_step tt (read_cleanup c peer tt)"
| tcp_write: "c < length (tt_conns tt) \<Longrightarrow> cn_open (tt_conns tt ! c) \<Longrightarrow> cn_queue (tt_conns tt ! c) \<noteq> [] \<Longrightarrow>
    tcp_step tt (write_next c tt)"
| tcp_write_failed: "c < length (tt_conns tt) \<Longrightarrow> cn_open (tt_conns tt ! c) \<Longrightarrow> tcp_step tt (write_failed c tt)"

definition tcp_init :: "tcp_transport \<Rightarrow> bool" where
  "tcp_init tt \<longleftrightarrow> tt = TcpTransport_new"

lemma upd_conn_simps [simp]:
  "tt_peers (upd_conn c f tt) = tt_peers tt" "tt_unstored (upd_conn c f tt) = tt_unstored tt"
  "tt_incoming (upd_conn c f tt) = tt_incoming tt" "length (tt_conns (upd_conn c f tt)) = length (tt_conns tt)"
  "c < length (tt_conns tt) \<Longrightarrow> tt_conns (upd_conn c f tt) ! c' = (if c' = c then f (tt_conns tt ! c) else tt_conns tt ! c')"
  by (simp_all add: upd_conn_def nth_list_update)

lemma upd_conn_set: "cn \<in> set (tt_conns (upd_conn c f tt)) \<Longrightarrow> cn \<in> set (tt_conns tt) \<or> c < length (tt_conns tt) \<and> cn = f (tt_conns tt ! c)"
  unfolding upd_conn_def
  by (cases "c < length (tt_conns tt)") (auto dest: subsetD [OF set_update_subset_insert] simp: list_update_beyond)

text \<open>
  An entry of the peer map is under the id its connection currently has, so is a registration that is
  not stored yet, and a connection whose registration is pending has no entry.
\<close>

definition ids_agree :: "tcp_transport \<Rightarrow> bool" where
  "ids_agree tt \<longleftrightarrow>
     (\<forall>peer c. hm_get (tt_peers tt) peer = Some c \<longrightarrow>
        c < length (tt_conns tt) \<and> cn_current_id (tt_conns tt ! c) = peer \<and> (\<forall>q. (c, q) \<notin> set (tt_unstored tt)))
     \<and> (\<forall>c peer. (c, peer) \<in> set (tt_unstored tt) \<longrightarrow>
        c < length (tt_conns tt) \<and> cn_current_id (tt_conns tt ! c) = peer)
     \<and> distinct (tt_unstored tt)"

definition queues_bounded :: "tcp_transport \<Rightarrow> bool" where
  "queues_bounded tt \<longleftrightarrow> (\<forall>cn\<in>set (tt_conns tt). length (cn_queue cn) \<le> WRITE_QUEUE)
     \<and> length (tt_incoming tt) \<le> INCOMING_QUEUE"

lemmas tcp_ops = register_peer_def store_writer_def rename_peer_def transport_send_def transport_recv_def
  disconnect_def read_frame_def read_deliver_def read_end_def read_cleanup_def write_next_def write_failed_def

lemma ids_agreeD:
  assumes "ids_agree tt"
  shows "hm_get (tt_peers tt) peer = Some c \<Longrightarrow>
      c < length (tt_conns tt) \<and> cn_current_id (tt_conns tt ! c) = peer \<and> (c, q) \<notin> set (tt_unstored tt)"
    "(c, peer) \<in> set (tt_unstored tt) \<Longrightarrow> c < length (tt_conns tt) \<and> cn_current_id (tt_conns tt ! c) = peer"
    "distinct (tt_unstored tt)"
  using assms unfolding ids_agree_def by blast+

lemma ids_agree_upd:
  assumes "ids_agree tt" "\<And>cn. cn_current_id (f cn) = cn_current_id cn"
  shows "ids_agree (upd_conn c f tt)"
proof -
  have "cn_current_id (tt_conns (upd_conn c f tt) ! c') = cn_current_id (tt_conns tt ! c')" for c'
    using assms(2) by (cases "c < length (tt_conns tt)") (simp_all add: upd_conn_def nth_list_update list_update_beyond)
  with assms(1) show ?thesis unfolding ids_agree_def by simp
qed

lemma ids_agree_remove: "ids_agree tt \<Longrightarrow> ids_agree (tt\<lparr>tt_peers := hm_remove peer (tt_peers tt)\<rparr>)"
  by (auto simp: ids_agree_def)

lemma ids_agree_incoming: "ids_agree tt \<Longrightarrow> ids_agree (tt\<lparr>tt_incoming := x\<rparr>)"
  by (auto simp: ids_agree_def)

lemma ids_agree_register: "ids_agree tt \<Longrightarrow> ids_agree (register_peer peer addr tt)"
  unfolding ids_agree_def register_peer_def
  by (auto simp: nth_append less_Suc_eq)

lemma ids_agree_store:
  assumes "ids_agree tt" "r \<in> set (tt_unstored tt)"
  shows "ids_agree (store_writer r tt)"
proof -
  obtain c peer where r: "r = (c, peer)" by (cases r)
  have c: "c < length (tt_conns tt)" "cn_current_id (tt_conns tt ! c) = peer"
    using ids_agreeD(2) [OF assms(1)] assms(2) r by auto
  have "(c, q) \<notin> set (remove1 r (tt_unstored tt))" for q
    using ids_agreeD(2,3) [OF assms(1)] c r by (auto simp: set_remove1_eq)
  with c show ?thesis
    using ids_agreeD [OF assms(1)] r
    by (auto simp: ids_agree_def store_writer_def dest: notin_set_remove1 split: if_splits)
qed

lemma ids_agree_rename:
  assumes "ids_agree tt"
  shows "ids_agree (rename_peer old_id new_id tt)"
proof (cases "hm_get (tt_peers tt) old_id")
  case None
  then show ?thesis using assms by (simp add: rename_peer_def)
next
  case (Some c)
  have c: "c < length (tt_conns tt)" "cn_current_id (tt_conns tt ! c) = old_id" "(c, q) \<notin> set (tt_unstored tt)" for q
    using ids_agreeD(1) [OF assms Some] by auto
  let ?tt = "tt\<lparr>tt_peers := hm_insert new_id c (hm_remove old_id (tt_peers tt))\<rparr>"
  let ?tt' = "upd_conn c (\<lambda>cn. cn\<lparr>cn_current_id := new_id\<rparr>) ?tt"
  have "c' < length (tt_conns tt) \<and> cn_current_id (tt_conns ?tt' ! c') = peer \<and> (c', q) \<notin> set (tt_unstored tt)"
    if "hm_get (tt_peers ?tt) peer = Some c'" for peer c' q
  proof (cases "peer = new_id")
    case True
    then show ?thesis using that c by simp
  next
    case False
    then have "hm_get (tt_peers tt) peer = Some c'" "peer \<noteq> old_id" using that by (auto split: if_splits)
    then show ?thesis using ids_agreeD(1) [OF assms, of peer c' q] c by auto
  qed
  moreover have "c' < length (tt_conns tt) \<and> cn_current_id (tt_conns ?tt' ! c') = peer"
    if "(c', peer) \<in> set (tt_unstored tt)" for peer c'
    using ids_agreeD(2) [OF assms that] c that by auto
  ultimately show ?thesis
    using Some ids_agreeD(3) [OF assms] by (simp add: rename_peer_def ids_agree_def)
qed

lemma ids_agree_cleanup: "ids_agree tt \<Longrightarrow> ids_agree (read_cleanup c peer tt)"
  using ids_agree_remove [OF ids_agree_upd [of tt "\<lambda>cn. cn\<lparr>cn_reader := Stopped\<rparr>" c], of peer]
    ids_agree_upd [of tt "\<lambda>cn. cn\<lparr>cn_reader := Stopped\<rparr>" c]
  by (simp add: read_cleanup_def Let_def)

lemma tcp_step_ids: "ids_agree tt \<Longrightarrow> tcp_step tt tt' \<Longrightarrow> ids_agree tt'"
  by (erule tcp_step.cases)
    (auto simp: transport_send_def transport_recv_def disconnect_def read_frame_def read_deliver_def
      read_end_def write_next_def write_failed_def Let_def
      intro!: ids_agree_register ids_agree_store ids_agree_rename ids_agree_cleanup ids_agree_upd
        ids_agree_remove ids_agree_incoming
      split: option.split list.split)

lemma queues_bounded_upd:
  "queues_bounded tt \<Longrightarrow> (c < length (tt_conns tt) \<Longrightarrow> length (cn_queue (f (tt_conns tt ! c))) \<le> WRITE_QUEUE) \<Longrightarrow>
   queues_bounded (upd_conn c f tt)"
  unfolding queues_bounded_def by (auto dest: upd_conn_set)

lemma queues_bounded_peers: "queues_bounded (tt\<lparr>tt_peers := m\<rparr>) = queues_bounded tt"
  by (simp add: queues_bounded_def)

lemma queue_le: "queues_bounded tt \<Longrightarrow> c < length (tt_conns tt) \<Longrightarrow> length (cn_queue (tt_conns tt ! c)) \<le> WRITE_QUEUE"
  by (simp add: queues_bounded_def)

lemma tcp_step_queues:
  assumes "queues_bounded tt" "tcp_step tt tt'"
  shows "queues_bounded tt'"
  using assms(2)
proof cases
  case (tcp_register peer addr)
  then show ?thesis using assms(1) by (auto simp: queues_bounded_def register_peer_def)
next
  case (tcp_store r)
  then show ?thesis using assms(1) by (simp add: queues_bounded_def store_writer_def)
next
  case (tcp_cleanup c peer)
  then show ?thesis
    using assms(1) queue_le [OF assms(1)]
    by (auto simp: read_cleanup_def Let_def queues_bounded_peers intro!: queues_bounded_upd)
next
  case (tcp_recv)
  then show ?thesis using assms(1) by (auto simp: queues_bounded_def transport_recv_def split: list.split)
next
  case (tcp_deliver c peer frame)
  then have "queues_bounded (tt\<lparr>tt_incoming := tt_incoming tt @ [(peer, frame)]\<rparr>)"
    using assms(1) by (simp add: queues_bounded_def)
  with tcp_deliver show ?thesis
    using queue_le [OF assms(1)] by (auto simp: read_deliver_def intro!: queues_bounded_upd)
next
  case (tcp_write c)
  then show ?thesis
    using assms(1) queue_le [OF assms(1)] by (auto simp: write_next_def le_diff_conv intro!: queues_bounded_upd le_SucI)
qed (use assms(1) queue_le [OF assms(1)] in
    \<open>auto simp: rename_peer_def transport_send_def disconnect_def read_frame_def read_end_def write_failed_def Let_def
      queues_bounded_peers intro!: queues_bounded_upd split: option.split\<close>)

text \<open>What the socket got of a connection is the frames accepted for it, in order, cut at a frame boundary.\<close>

definition stream_ok :: "connection \<Rightarrow> bool" where
  "stream_ok cn \<longleftrightarrow>
     (\<exists>k \<le> length (cn_sent cn). cn_wire cn = concat (map TcpTransport_wire (take k (cn_sent cn)))
        \<and> (cn_open cn \<longrightarrow> cn_queue cn = map TcpTransport_wire (drop k (cn_sent cn))))"

abbreviation streams_ok :: "tcp_transport \<Rightarrow> bool" where
  "streams_ok tt \<equiv> list_all stream_ok (tt_conns tt)"

lemma streams_ok_upd:
  "streams_ok tt \<Longrightarrow> (c < length (tt_conns tt) \<Longrightarrow> stream_ok (tt_conns tt ! c) \<Longrightarrow> stream_ok (f (tt_conns tt ! c))) \<Longrightarrow>
   streams_ok (upd_conn c f tt)"
  by (auto simp: list_all_iff dest!: upd_conn_set)

lemma stream_ok_send:
  assumes "stream_ok cn" "cn_open cn"
  shows "stream_ok (cn\<lparr>cn_queue := cn_queue cn @ [TcpTransport_wire frame], cn_sent := cn_sent cn @ [frame]\<rparr>)"
proof -
  obtain k where "k \<le> length (cn_sent cn)" "cn_wire cn = concat (map TcpTransport_wire (take k (cn_sent cn)))"
    "cn_queue cn = map TcpTransport_wire (drop k (cn_sent cn))"
    using assms by (auto simp: stream_ok_def)
  then show ?thesis by (auto simp: stream_ok_def intro!: exI [of _ k])
qed

lemma stream_ok_write:
  assumes "stream_ok cn" "cn_open cn" "cn_queue cn \<noteq> []"
  shows "stream_ok (cn\<lparr>cn_wire := cn_wire cn @ hd (cn_queue cn), cn_queue := tl (cn_queue cn)\<rparr>)"
proof -
  obtain k where k: "k \<le> length (cn_sent cn)" "cn_wire cn = concat (map TcpTransport_wire (take k (cn_sent cn)))"
    "cn_queue cn = map TcpTransport_wire (drop k (cn_sent cn))"
    using assms by (auto simp: stream_ok_def)
  then have lt: "k < length (cn_sent cn)" using assms(3) by (cases "k < length (cn_sent cn)") auto
  with k show ?thesis
    by (auto simp: stream_ok_def take_Suc_conv_app_nth hd_map hd_drop_conv_nth map_tl [symmetric] tl_drop drop_Suc
        intro!: exI [of _ "Suc k"])
qed

lemma stream_ok_other:
  "stream_ok cn \<Longrightarrow> stream_ok (cn\<lparr>cn_open := False, cn_queue := []\<rparr>)"
  "stream_ok (cn\<lparr>cn_reader := r\<rparr>) = stream_ok cn"
  "stream_ok (cn\<lparr>cn_current_id := n\<rparr>) = stream_ok cn"
  by (auto simp: stream_ok_def)

lemma streams_ok_register: "streams_ok tt \<Longrightarrow> streams_ok (register_peer peer addr tt)"
  by (simp add: register_peer_def stream_ok_def)

lemma tcp_step_streams: "streams_ok tt \<Longrightarrow> tcp_step tt tt' \<Longrightarrow> streams_ok tt'"
  by (erule tcp_step.cases)
    (auto simp: store_writer_def rename_peer_def transport_send_def transport_recv_def disconnect_def
      read_frame_def read_deliver_def read_end_def read_cleanup_def write_next_def write_failed_def Let_def stream_ok_other
      intro!: streams_ok_register streams_ok_upd stream_ok_send stream_ok_write stream_ok_other(1)
      split: option.split list.split)

abbreviation tcp_inv :: "tcp_transport \<Rightarrow> bool" where
  "tcp_inv tt \<equiv> ids_agree tt \<and> queues_bounded tt \<and> streams_ok tt"

interpretation tcp: step_invariant tcp_init tcp_step tcp_inv
proof
  show "tcp_inv s" if "tcp_init s" for s
    using that by (simp add: tcp_init_def TcpTransport_new_def ids_agree_def queues_bounded_def)
  show "tcp_inv s'" if "tcp_inv s" "tcp_step s s'" for s s'
    using that tcp_step_ids tcp_step_queues tcp_step_streams by blast
qed

section \<open>Attribution and delivery\<close>

text \<open>
  Claim C31: whatever the order in which the tasks run, every entry of the peer map is under the id its
  connection currently has, no connection has two entries, no queue exceeds its capacity, and the
  cleanup of a read task that ended never removes the entry of another connection, even when the
  peer has reconnected under the same id.
\<close>

theorem peers_attributed:
  assumes "reachable tcp_init tcp_step tt"
  shows "(\<forall>peer c. hm_get (tt_peers tt) peer = Some c \<longrightarrow>
            c < length (tt_conns tt) \<and> cn_current_id (tt_conns tt ! c) = peer)
    \<and> (\<forall>p q c. hm_get (tt_peers tt) p = Some c \<longrightarrow> hm_get (tt_peers tt) q = Some c \<longrightarrow> p = q)
    \<and> queues_bounded tt
    \<and> (\<forall>c c' p q. c \<noteq> c' \<longrightarrow> hm_get (tt_peers tt) q = Some c' \<longrightarrow>
          hm_get (tt_peers (read_cleanup c p tt)) q = Some c')"
proof -
  have inv: "ids_agree tt" "queues_bounded tt"
    using tcp.inv_reachable [OF assms] by auto
  have "hm_get (tt_peers (read_cleanup c p tt)) q = Some c'"
    if "c \<noteq> c'" "hm_get (tt_peers tt) q = Some c'" for c c' p q
    using that by (auto simp: read_cleanup_def Let_def)
  then show ?thesis
    using inv(2) ids_agreeD(1) [OF inv(1)] by blast
qed

lemmas tcp_reach = reachable_init [of tcp_init, where step = tcp_step]
  reachable_step [where step = tcp_step, OF _ tcp_register] reachable_step [where step = tcp_step, OF _ tcp_store]
  reachable_step [where step = tcp_step, OF _ tcp_send] reachable_step [where step = tcp_step, OF _ tcp_end]
  reachable_step [where step = tcp_step, OF _ tcp_cleanup] reachable_step [where step = tcp_step, OF _ tcp_write]

definition example_peer :: node_id where
  "example_peer = NodeId_from_bytes (replicate 16 7)"

definition example_tcp :: "tcp_transport" where
  "example_tcp = store_writer (0, example_peer) (register_peer example_peer (AddrV4 1 9100) TcpTransport_new)"

lemma example_tcp_reachable: "reachable tcp_init tcp_step example_tcp"
  unfolding example_tcp_def
  by (intro tcp_reach)
    (simp_all add: tcp_init_def TcpTransport_new_def register_peer_def)

lemma example_tcp_eq:
  "example_tcp = \<lparr>tt_peers = [(example_peer, 0)],
     tt_conns = [\<lparr>cn_current_id = example_peer, cn_remote_addr = AddrV4 1 9100, cn_reader = Reading,
                    cn_queue = [], cn_open = True, cn_wire = [], cn_sent = []\<rparr>],
     tt_unstored = [], tt_incoming = []\<rparr>"
  by (simp add: example_tcp_def store_writer_def register_peer_def TcpTransport_new_def)

theorem peers_attributed_witness:
  "let tt = store_writer (1, example_peer) (register_peer example_peer (AddrV4 1 9101) (read_end 0 example_tcp))
   in cn_reader (tt_conns tt ! 0) = Closing example_peer \<and> hm_get (tt_peers tt) example_peer = Some 1
      \<and> hm_get (tt_peers (read_cleanup 0 example_peer tt)) example_peer = Some 1"
proof -
  let ?t = "register_peer example_peer (AddrV4 1 9101) (read_end 0 example_tcp)"
  let ?tt = "store_writer (1, example_peer) ?t"
  have t: "reachable tcp_init tcp_step ?t"
    by (intro tcp_reach example_tcp_reachable)
      (simp_all add: example_tcp_eq)
  then have "reachable tcp_init tcp_step ?tt"
    by (rule tcp_reach) (simp add: register_peer_def read_end_def upd_conn_def example_tcp_eq)
  moreover have "cn_reader (tt_conns ?tt ! 0) = Closing example_peer \<and> hm_get (tt_peers ?tt) example_peer = Some 1"
    by (simp add: store_writer_def register_peer_def read_end_def upd_conn_def example_tcp_eq)
  ultimately show ?thesis
    using peers_attributed [of ?tt] unfolding Let_def by (metis zero_neq_one)
qed

lemma read_loop_prefix:
  assumes fit: "\<forall>f\<in>set fs. fits_wire f" and w: "concat chunks @ unread = concat (map TcpTransport_wire fs)"
  shows "\<exists>j rest. read_loop [] chunks = Ok (map Incoming (take j fs), rest) \<and> (unread = [] \<longrightarrow> j = length fs \<and> rest = [])"
proof -
  have all: "drain (concat chunks @ unread) = Ok (map Incoming fs, [])"
    using drain_wires [OF fit, of "[]"] by (simp add: w drain_need)
  obtain ev1 r1 where d1: "drain (concat chunks) = Ok (ev1, r1)" using drain_total by blast
  have e1: "framing_errors ev1 = []"
    using drain_append_error [OF d1, of unread] all by (metis Pair_inject framing_errors_Incoming outcome.inject(1))
  obtain ev2 where evs: "ev1 @ ev2 = map Incoming fs"
    using drain_append [OF d1 e1, of unread, symmetric] unfolding all by (auto simp: and_then_eq_Ok)
  then have "ev1 = map Incoming (take (length ev1) fs)"
    by (metis append_eq_conv_conj take_map)
  moreover have "unread = [] \<Longrightarrow> length ev1 = length fs \<and> r1 = []"
    using d1 all by (metis Pair_inject append_Nil2 length_map outcome.inject(1))
  moreover have "read_loop [] chunks = Ok (ev1, r1)"
    using d1 e1 by (intro read_loop_drain) simp_all
  ultimately show ?thesis by metis
qed

text \<open>
  Claim C30: end to end over one connection, in every interleaving of the tasks: whatever part of
  what the write task handed to the socket has reached the other side, and however it was cut into
  reads, the other side's read loop has delivered exactly the first frames that \<^verbatim>\<open>send\<close> accepted for
  the connection, in order, none twice and none skipped. All frames written are delivered once all
  bytes have arrived; while the connection is open the rest waits in the queue.
\<close>

theorem transport_delivers_in_order:
  assumes "reachable tcp_init tcp_step tt" "c < length (tt_conns tt)"
    "\<forall>f\<in>set (cn_sent (tt_conns tt ! c)). fits_wire f" "concat chunks @ unread = cn_wire (tt_conns tt ! c)"
  shows "\<exists>j k rest. read_loop [] chunks = Ok (map Incoming (take j (cn_sent (tt_conns tt ! c))), rest)
    \<and> cn_wire (tt_conns tt ! c) = concat (map TcpTransport_wire (take k (cn_sent (tt_conns tt ! c))))
    \<and> (unread = [] \<longrightarrow> j = k \<and> rest = [])
    \<and> (cn_open (tt_conns tt ! c) \<longrightarrow>
         cn_queue (tt_conns tt ! c) = map TcpTransport_wire (drop k (cn_sent (tt_conns tt ! c))))"
proof -
  let ?cn = "tt_conns tt ! c"
  have "stream_ok ?cn"
    using tcp.inv_reachable [OF assms(1)] assms(2) by (simp add: list_all_length)
  then obtain k where k: "k \<le> length (cn_sent ?cn)" "cn_wire ?cn = concat (map TcpTransport_wire (take k (cn_sent ?cn)))"
    "cn_open ?cn \<longrightarrow> cn_queue ?cn = map TcpTransport_wire (drop k (cn_sent ?cn))"
    unfolding stream_ok_def by blast
  have "\<forall>f\<in>set (take k (cn_sent ?cn)). fits_wire f" using assms(3) by (auto dest: in_set_takeD)
  from read_loop_prefix [OF this, of chunks unread] obtain j rest
    where j: "read_loop [] chunks = Ok (map Incoming (take j (take k (cn_sent ?cn))), rest)"
      "unread = [] \<longrightarrow> j = length (take k (cn_sent ?cn)) \<and> rest = []"
    using assms(4) k(2) by auto
  have "read_loop [] chunks = Ok (map Incoming (take (min j k) (cn_sent ?cn)), rest)"
    using j(1) by (simp add: take_take)
  moreover have "unread = [] \<longrightarrow> min j k = k \<and> rest = []" using j(2) k(1) by simp
  ultimately show ?thesis using k(2,3) by blast
qed

lemma example_send:
  fixes f
  defines "tt \<equiv> write_next 0 (snd (transport_send example_peer f example_tcp))"
  shows "reachable tcp_init tcp_step tt" "0 < length (tt_conns tt)"
    "cn_sent (tt_conns tt ! 0) = [f]" "cn_wire (tt_conns tt ! 0) \<noteq> []"
proof -
  have "reachable tcp_init tcp_step (snd (transport_send example_peer f example_tcp))"
    by (intro tcp_reach example_tcp_reachable)
  then show "reachable tcp_init tcp_step tt"
    unfolding tt_def
    by (rule tcp_reach) (simp_all add: transport_send_def upd_conn_def example_tcp_eq WRITE_QUEUE_def)
qed (simp_all add: tt_def write_next_def transport_send_def upd_conn_def example_tcp_eq WRITE_QUEUE_def
    TcpTransport_wire_def LengthDelimited_encode_def Let_def be32_def be16_def)

theorem transport_delivers_in_order_witness:
  "let f = \<lparr>tf_frame_type = Control, tf_nonce = replicate 12 7, tf_payload = [1, 2, 3], tf_tag = replicate 16 9\<rparr>;
       tt = write_next 0 (snd (transport_send example_peer f example_tcp)); w = cn_wire (tt_conns tt ! 0)
   in fits_wire f \<and> read_loop [] [take 5 w, drop 5 w] = Ok ([Incoming f], [])"
proof -
  define f where "f = \<lparr>tf_frame_type = Control, tf_nonce = replicate 12 7, tf_payload = [1, 2, 3], tf_tag = replicate 16 9\<rparr>"
  define tt where "tt = write_next 0 (snd (transport_send example_peer f example_tcp))"
  have fit: "fits_wire f"
    by (simp add: f_def fits_wire_def wf_transport_frame_def transport_frame_defs MAX_FRAME_SIZE_def)
  let ?w = "cn_wire (tt_conns tt ! 0)"
  note run = example_send [of f, folded tt_def]
  obtain j k rest where "read_loop [] [take 5 ?w, drop 5 ?w] = Ok (map Incoming (take j [f]), rest)"
    "j = k" "rest = []" "?w = concat (map TcpTransport_wire (take k [f]))"
    using transport_delivers_in_order [OF run(1,2), of "[take 5 ?w, drop 5 ?w]" "[]"] fit run(3) by auto
  moreover from this(4) run(4) have "k \<noteq> 0" by (cases k) simp_all
  ultimately show ?thesis
    using fit by (cases k) (simp_all add: Let_def flip: f_def tt_def)
qed

text \<open>
  Claim C37: the entry of a connection whose read task has ended can stay in the peer map: when the
  stream ends before the last statement of \<^verbatim>\<open>register_peer\<close> ran, the cleanup finds no entry to remove
  and the entry stored afterwards is never cleaned up; the peer counts as connected and \<^verbatim>\<open>send\<close> still
  accepts frames for it.
\<close>

theorem stale_peer_entry:
  "\<exists>tt peer. reachable tcp_init tcp_step tt \<and> tt_unstored tt = [] \<and> peer \<in> set (connected_peers tt)
     \<and> list_all (\<lambda>cn. cn_reader cn = Stopped) (tt_conns tt)
     \<and> (\<forall>frame. fst (transport_send peer frame tt) = None)"
proof -
  let ?t1 = "register_peer example_peer (AddrV4 1 9100) TcpTransport_new"
  let ?t3 = "read_cleanup 0 example_peer (read_end 0 ?t1)"
  let ?t4 = "store_writer (0, example_peer) ?t3"
  have t4: "?t4 = \<lparr>tt_peers = [(example_peer, 0)],
     tt_conns = [\<lparr>cn_current_id = example_peer, cn_remote_addr = AddrV4 1 9100, cn_reader = Stopped,
                    cn_queue = [], cn_open = True, cn_wire = [], cn_sent = []\<rparr>],
     tt_unstored = [], tt_incoming = []\<rparr>"
    by (simp add: tcp_ops upd_conn_def TcpTransport_new_def)
  have "reachable tcp_init tcp_step ?t4"
    by (intro tcp_reach)
      (simp_all add: tcp_init_def TcpTransport_new_def register_peer_def read_end_def read_cleanup_def upd_conn_def)
  then show ?thesis
    by (intro exI [of _ ?t4] exI [of _ example_peer])
      (simp add: t4 connected_peers_def transport_send_def WRITE_QUEUE_def)
qed

end
