(* ===== verification/Peer_Policies.thy ===== *)
theory Peer_Policies
  imports Tcp_Peers Complex_Main
begin

text \<open>
  What the daemon decides about a peer before it processes its traffic: the per-peer token bucket
  (\<^verbatim>\<open>rate_limiter.rs\<close>), the reputation score behind automatic blacklisting (\<^verbatim>\<open>reputation.rs\<close>), the
  authorization policy with trust on first use (\<^verbatim>\<open>auth.rs\<close>), and the reconnect bookkeeping with its
  backoff (\<^verbatim>\<open>reconnect.rs\<close>). The floating-point numbers of the token bucket are real numbers here and
  its clock is in seconds. Writing the trust store succeeds or fails as a parameter says.
\<close>

section \<open>Rate limiter\<close>

definition DEFAULT_BURST :: u32 where "DEFAULT_BURST = 500"
definition DEFAULT_RATE :: real where "DEFAULT_RATE = 200"

definition as_f64 :: "u32 \<Rightarrow> real" where
  "as_f64 n = real (unat n)"

record token_bucket =
  bk_capacity :: u32
  bk_tokens :: real
  bk_refill_rate :: real
  bk_last_refill :: real

definition TokenBucket_new :: "real \<Rightarrow> u32 \<Rightarrow> real \<Rightarrow> token_bucket" where
  "TokenBucket_new now capacity refill_rate =
     \<lparr>bk_capacity = capacity, bk_tokens = as_f64 capacity, bk_refill_rate = refill_rate,
      bk_last_refill = now\<rparr>"

definition try_consume :: "real \<Rightarrow> token_bucket \<Rightarrow> bool \<times> token_bucket" where
  "try_consume now b =
     (let elapsed = max 0 (now - bk_last_refill b);
          tokens = min (bk_tokens b + elapsed * bk_refill_rate b) (as_f64 (bk_capacity b));
          b = b\<lparr>bk_tokens := tokens, bk_last_refill := now\<rparr>
      in if tokens \<ge> 1 then (True, b\<lparr>bk_tokens := tokens - 1\<rparr>) else (False, b))"

record rate_limiter =
  rl_buckets :: "(node_id, token_bucket) hash_map"
  rl_capacity :: u32
  rl_refill_rate :: real

definition RateLimiter_new :: "u32 \<Rightarrow> real \<Rightarrow> rate_limiter" where
  "RateLimiter_new capacity refill_rate =
     \<lparr>rl_buckets = [], rl_capacity = capacity, rl_refill_rate = refill_rate\<rparr>"

definition allow :: "real \<Rightarrow> node_id \<Rightarrow> rate_limiter \<Rightarrow> bool \<times> rate_limiter" where
  "allow now peer rl =
     (let b = (case hm_get (rl_buckets rl) peer of
                 Some b \<Rightarrow> b
               | None \<Rightarrow> TokenBucket_new now (rl_capacity rl) (rl_refill_rate rl));
          (ok, b) = try_consume now b
      in (ok, rl\<lparr>rl_buckets := hm_insert peer b (rl_buckets rl)\<rparr>))"

definition RateLimiter_remove_peer :: "node_id \<Rightarrow> rate_limiter \<Rightarrow> rate_limiter" where
  "RateLimiter_remove_peer peer rl = rl\<lparr>rl_buckets := hm_remove peer (rl_buckets rl)\<rparr>"

section \<open>Reputation\<close>

definition BLACKLIST_THRESHOLD :: u32 where "BLACKLIST_THRESHOLD = 10"

type_synonym reputation_tracker = "(node_id, u32) hash_map"

definition score_of :: "node_id \<Rightarrow> reputation_tracker \<Rightarrow> u32" where
  "score_of peer r = (case hm_get r peer of Some s \<Rightarrow> s | None \<Rightarrow> 0)"

definition record_failure :: "node_id \<Rightarrow> reputation_tracker \<Rightarrow> bool \<times> reputation_tracker" where
  "record_failure peer r =
     (let score = score_of peer r;
          score = (if score = - 1 then score else score + 1)
      in (score = BLACKLIST_THRESHOLD, hm_insert peer score r))"

definition record_success :: "node_id \<Rightarrow> reputation_tracker \<Rightarrow> reputation_tracker" where
  "record_success peer r =
     (case hm_get r peer of
        Some score \<Rightarrow> hm_insert peer (if score = 0 then 0 else score - 1) r
      | None \<Rightarrow> r)"

definition reputation_is_blacklisted :: "node_id \<Rightarrow> reputation_tracker \<Rightarrow> bool" where
  "reputation_is_blacklisted peer r \<longleftrightarrow> score_of peer r \<ge> BLACKLIST_THRESHOLD"

definition pardon :: "node_id \<Rightarrow> reputation_tracker \<Rightarrow> reputation_tracker" where
  "pardon peer r = hm_remove peer r"

section \<open>Authorization\<close>

datatype authorization_policy = AllowAll | AllowList | TrustOnFirstUse
datatype authorization_decision = Allowed | TrustedOnFirstUse | Rejected

record authorization_manager =
  am_policy :: authorization_policy
  am_allow_list :: "node_id set"
  am_trusted_peers :: "node_id set"

text \<open>\<open>stored\<close> is what the trust store file holds, or nothing when it cannot be read or parsed.\<close>

definition AuthorizationManager_new ::
  "authorization_policy \<Rightarrow> node_id list \<Rightarrow> node_id list option \<Rightarrow> authorization_manager option" where
  "AuthorizationManager_new policy allow_list stored =
     (if policy = TrustOnFirstUse
      then map_option (\<lambda>peers. \<lparr>am_policy = policy, am_allow_list = set allow_list, am_trusted_peers = set peers\<rparr>) stored
      else Some \<lparr>am_policy = policy, am_allow_list = set allow_list, am_trusted_peers = {}\<rparr>)"

fun authorize_discovered_peer :: "node_id \<Rightarrow> authorization_manager \<Rightarrow> bool" where
  "authorize_discovered_peer peer am =
     (case am_policy am of
        AllowList \<Rightarrow> peer \<in> am_allow_list am
      | _ \<Rightarrow> True)"

text \<open>\<open>None\<close> as a decision stands for the error when the trust store cannot be written.\<close>

definition authorize_authenticated_peer ::
  "bool \<Rightarrow> node_id \<Rightarrow> authorization_manager \<Rightarrow> authorization_decision option \<times> authorization_manager" where
  "authorize_authenticated_peer persist_ok peer am =
     (case am_policy am of
        AllowAll \<Rightarrow> (Some Allowed, am)
      | AllowList \<Rightarrow> (Some (if peer \<in> am_allow_list am then Allowed else Rejected), am)
      | TrustOnFirstUse \<Rightarrow>
          if peer \<in> am_trusted_peers am then (Some Allowed, am)
          else
            let trusted = am\<lparr>am_trusted_peers := insert peer (am_trusted_peers am)\<rparr>
            in if persist_ok then (Some TrustedOnFirstUse, trusted)
               else (None, trusted\<lparr>am_trusted_peers := am_trusted_peers trusted - {peer}\<rparr>))"

section \<open>Reconnects\<close>

datatype connect_target = TcpTarget socket_addr | BluetoothPan socket_addr

fun ConnectTarget_addr :: "connect_target \<Rightarrow> socket_addr" where
  "ConnectTarget_addr (TcpTarget addr) = addr"
| "ConnectTarget_addr (BluetoothPan addr) = addr"

record reconnect_manager =
  rm_configured_targets :: "connect_target set"
  rm_discovered_targets :: "(connect_target, instant) hash_map"
  rm_target_by_peer :: "(node_id, connect_target) hash_map"
  rm_reconnecting :: "connect_target set"

definition ReconnectManager_new :: "connect_target list \<Rightarrow> reconnect_manager" where
  "ReconnectManager_new targets =
     \<lparr>rm_configured_targets = set targets, rm_discovered_targets = [], rm_target_by_peer = [],
      rm_reconnecting = {}\<rparr>"

definition reconnect_register :: "node_id \<Rightarrow> connect_target \<Rightarrow> reconnect_manager \<Rightarrow> reconnect_manager" where
  "reconnect_register peer target rm = rm\<lparr>rm_target_by_peer := hm_insert peer target (rm_target_by_peer rm)\<rparr>"

definition register_discovered :: "instant \<Rightarrow> connect_target \<Rightarrow> reconnect_manager \<Rightarrow> reconnect_manager" where
  "register_discovered now target rm =
     rm\<lparr>rm_discovered_targets := hm_insert target now (rm_discovered_targets rm)\<rparr>"

definition expire_discovered_targets :: "instant \<Rightarrow> duration \<Rightarrow> reconnect_manager \<Rightarrow> nat \<times> reconnect_manager" where
  "expire_discovered_targets now lifetime rm =
     (let m = filter (\<lambda>(_, last_seen). now - last_seen \<le> lifetime) (rm_discovered_targets rm)
      in (length (rm_discovered_targets rm) - length m, rm\<lparr>rm_discovered_targets := m\<rparr>))"

definition is_reconnectable_target :: "node_id \<Rightarrow> reconnect_manager \<Rightarrow> connect_target option" where
  "is_reconnectable_target peer rm =
     (case hm_get (rm_target_by_peer rm) peer of
        None \<Rightarrow> None
      | Some target \<Rightarrow>
          if target \<in> rm_configured_targets rm \<or> hm_get (rm_discovered_targets rm) target \<noteq> None
          then Some target else None)"

definition begin_reconnect :: "connect_target \<Rightarrow> reconnect_manager \<Rightarrow> bool \<times> reconnect_manager" where
  "begin_reconnect target rm =
     (target \<notin> rm_reconnecting rm, rm\<lparr>rm_reconnecting := insert target (rm_reconnecting rm)\<rparr>)"

definition end_reconnect :: "connect_target \<Rightarrow> reconnect_manager \<Rightarrow> reconnect_manager" where
  "end_reconnect target rm = rm\<lparr>rm_reconnecting := rm_reconnecting rm - {target}\<rparr>"

definition peer_id_for_target :: "connect_target \<Rightarrow> reconnect_manager \<Rightarrow> node_id option" where
  "peer_id_for_target target rm = map_option fst (find (\<lambda>(_, t). t = target) (rm_target_by_peer rm))"

definition backoff_base_ms :: "u32 \<Rightarrow> u64" where
  "backoff_base_ms attempt =
     (let shift = unat (min attempt 15)
      in min (of_nat (min (1000 * 2 ^ shift) (2 ^ 64 - 1))) 10000)"

text \<open>\<open>jitter\<close> is the random number drawn from \<^verbatim>\<open>-jitter_range..=jitter_range\<close>; the result is in milliseconds.\<close>

definition jitter_range :: "u32 \<Rightarrow> int" where
  "jitter_range attempt = int (unat (backoff_base_ms attempt div 4))"

definition backoff_duration :: "int \<Rightarrow> u32 \<Rightarrow> nat" where
  "backoff_duration jitter attempt = nat (max (int (unat (backoff_base_ms attempt)) + jitter) 1)"

section \<open>The token bucket bounds the rate\<close>

text \<open>The frames of \<open>peer\<close> that pass in a sequence of arrivals, each a time and a sender.\<close>

fun admitted :: "node_id \<Rightarrow> (real \<times> node_id) list \<Rightarrow> rate_limiter \<Rightarrow> nat \<times> rate_limiter" where
  "admitted peer [] rl = (0, rl)"
| "admitted peer ((t, from_peer) # es) rl =
     (let (ok, rl) = allow t from_peer rl;
          (n, rl) = admitted peer es rl
      in ((if ok \<and> from_peer = peer then 1 else 0) + n, rl))"

lemma as_f64_nonneg [simp]: "0 \<le> as_f64 n"
  unfolding as_f64_def by (rule of_nat_0_le_iff)

definition bucket_ok :: "rate_limiter \<Rightarrow> real \<Rightarrow> token_bucket \<Rightarrow> bool" where
  "bucket_ok rl now b \<longleftrightarrow> bk_capacity b = rl_capacity rl \<and> bk_refill_rate b = rl_refill_rate rl
     \<and> 0 \<le> bk_tokens b \<and> bk_tokens b \<le> as_f64 (rl_capacity rl) \<and> bk_last_refill b \<le> now"

definition limiter_ok :: "real \<Rightarrow> rate_limiter \<Rightarrow> bool" where
  "limiter_ok now rl \<longleftrightarrow> 0 \<le> rl_refill_rate rl \<and> (\<forall>peer b. hm_get (rl_buckets rl) peer = Some b \<longrightarrow> bucket_ok rl now b)"

definition bucket_for :: "real \<Rightarrow> node_id \<Rightarrow> rate_limiter \<Rightarrow> token_bucket" where
  "bucket_for now peer rl =
     (case hm_get (rl_buckets rl) peer of
        Some b \<Rightarrow> b
      | None \<Rightarrow> TokenBucket_new now (rl_capacity rl) (rl_refill_rate rl))"

lemma limiter_ok_mono: "limiter_ok t0 rl \<Longrightarrow> t0 \<le> now \<Longrightarrow> limiter_ok now rl"
  unfolding limiter_ok_def bucket_ok_def by (meson order_trans)

lemma bucket_for_ok: "limiter_ok now rl \<Longrightarrow> bucket_ok rl now (bucket_for now peer rl)"
  by (auto simp: limiter_ok_def bucket_for_def bucket_ok_def TokenBucket_new_def split: option.split)

text \<open>One arrival at a bucket: tokens in hand after it, and what it cost.\<close>

lemma try_consume_bounds:
  assumes "bucket_ok rl t0 b" "t0 \<le> now" "0 \<le> rl_refill_rate rl" "try_consume now b = (ok, b')"
  shows "bucket_ok rl now b'" "bk_last_refill b' = now"
    "(if ok then 1 else 0) + bk_tokens b' \<le> as_f64 (rl_capacity rl)"
    "(if ok then 1 else 0) + bk_tokens b' \<le> bk_tokens b + rl_refill_rate rl * (now - bk_last_refill b)"
proof -
  define g where "g = rl_refill_rate rl * (now - bk_last_refill b)"
  have b: "bk_capacity b = rl_capacity rl" "bk_refill_rate b = rl_refill_rate rl" "0 \<le> bk_tokens b"
    "bk_tokens b \<le> as_f64 (rl_capacity rl)" "bk_last_refill b \<le> now"
    using assms(1,2) by (auto simp: bucket_ok_def)
  then have g: "0 \<le> g" unfolding g_def using assms(3) by (intro mult_nonneg_nonneg) auto
  define tk where "tk = min (bk_tokens b + g) (as_f64 (rl_capacity rl))"
  have tk: "0 \<le> tk" "tk \<le> as_f64 (rl_capacity rl)" "tk \<le> bk_tokens b + g"
    using g b by (simp_all add: tk_def)
  have "try_consume now b = (if tk \<ge> 1 then (True, b\<lparr>bk_tokens := tk - 1, bk_last_refill := now\<rparr>)
      else (False, b\<lparr>bk_tokens := tk, bk_last_refill := now\<rparr>))"
  proof -
    have "max 0 (now - bk_last_refill b) = now - bk_last_refill b" using b(5) by simp
    then have "min (bk_tokens b + max 0 (now - bk_last_refill b) * bk_refill_rate b) (as_f64 (bk_capacity b)) = tk"
      by (simp only: tk_def g_def b(1,2) mult.commute)
    then show ?thesis unfolding try_consume_def Let_def by simp
  qed
  with assms(4) have b': "ok = (tk \<ge> 1)" "b' = b\<lparr>bk_tokens := tk - (if ok then 1 else 0), bk_last_refill := now\<rparr>"
    by (cases "tk \<ge> 1"; simp)+
  have r: "bk_last_refill b' = now" "bk_capacity b' = rl_capacity rl"
    "bk_refill_rate b' = rl_refill_rate rl" "0 \<le> bk_tokens b'" "(if ok then 1 else 0) + bk_tokens b' = tk"
    unfolding b'(2) using b(1,2) tk(1) b'(1) by simp_all
  then show "bk_last_refill b' = now" "(if ok then 1 else 0) + bk_tokens b' \<le> as_f64 (rl_capacity rl)"
    "(if ok then 1 else 0) + bk_tokens b' \<le> bk_tokens b + rl_refill_rate rl * (now - bk_last_refill b)"
    using tk by (simp_all add: g_def)
  show "bucket_ok rl now b'"
    using r tk(2) by (auto simp: bucket_ok_def split: if_splits)
qed

lemma allow_eq:
  "allow now peer rl = (fst (try_consume now (bucket_for now peer rl)),
     rl\<lparr>rl_buckets := hm_insert peer (snd (try_consume now (bucket_for now peer rl))) (rl_buckets rl)\<rparr>)"
  by (simp add: allow_def bucket_for_def split_def Let_def)

lemma allow_limiter_ok:
  assumes "limiter_ok t0 rl" "t0 \<le> now"
  shows "limiter_ok now (snd (allow now peer rl))"
proof -
  have "limiter_ok now rl" using limiter_ok_mono [OF assms] .
  then have "bucket_ok rl now (snd (try_consume now (bucket_for now peer rl)))"
    using try_consume_bounds(1) [OF bucket_for_ok order_refl] by (metis limiter_ok_def prod.collapse)
  then show ?thesis
    using \<open>limiter_ok now rl\<close> by (auto simp: allow_eq limiter_ok_def bucket_ok_def)
qed

lemma allow_fields [simp]:
  "rl_capacity (snd (allow now peer rl)) = rl_capacity rl"
  "rl_refill_rate (snd (allow now peer rl)) = rl_refill_rate rl"
  "peer \<noteq> q \<Longrightarrow> hm_get (rl_buckets (snd (allow now peer rl))) q = hm_get (rl_buckets rl) q"
  by (simp_all add: allow_eq)

lemma admitted_Cons [simp]:
  "fst (admitted p ((t, q) # es) rl) = of_bool (fst (allow t q rl) \<and> q = p) + fst (admitted p es (snd (allow t q rl)))"
  "snd (admitted p ((t, q) # es) rl) = snd (admitted p es (snd (allow t q rl)))"
  by (auto simp: split_def Let_def)

declare admitted.simps(2) [simp del]

lemma admitted_fields [simp]:
  "rl_capacity (snd (admitted p es rl)) = rl_capacity rl"
  "rl_refill_rate (snd (admitted p es rl)) = rl_refill_rate rl"
  by (induction es arbitrary: rl) auto

lemma admitted_limiter_ok:
  "limiter_ok t0 rl \<Longrightarrow> sorted (t0 # map fst es) \<Longrightarrow> limiter_ok (last (t0 # map fst es)) (snd (admitted p es rl))"
proof (induction es arbitrary: t0 rl)
  case (Cons e es)
  obtain t q where e: "e = (t, q)" by (cases e)
  have "limiter_ok t (snd (allow t q rl))" using Cons.prems e allow_limiter_ok by simp
  from Cons.IH [OF this] show ?case using Cons.prems by (simp add: e)
qed simp

text \<open>What passes is paid for by the tokens in the bucket and those refilled since.\<close>

lemma admitted_paid:
  assumes "limiter_ok t0 rl" "sorted (t0 # map fst es)" "hm_get (rl_buckets rl) p = Some b"
  shows "real (fst (admitted p es rl)) \<le> bk_tokens b + rl_refill_rate rl * (last (t0 # map fst es) - bk_last_refill b)"
  using assms
proof (induction es arbitrary: t0 rl b)
  case Nil
  then have "bucket_ok rl t0 b" "0 \<le> rl_refill_rate rl" by (auto simp: limiter_ok_def)
  then show ?case by (simp add: bucket_ok_def)
next
  case (Cons e es)
  obtain t q where e: "e = (t, q)" by (cases e)
  let ?rl = "snd (allow t q rl)"
  have ok: "limiter_ok t ?rl" "sorted (t # map fst es)" "t0 \<le> t"
    using Cons.prems e allow_limiter_ok by auto
  have b: "bucket_ok rl t0 b" "0 \<le> rl_refill_rate rl" using Cons.prems by (auto simp: limiter_ok_def)
  show ?case
  proof (cases "q = p")
    case True
    obtain okb b' where tc: "try_consume t b = (okb, b')" by (cases "try_consume t b")
    then have get: "hm_get (rl_buckets ?rl) p = Some b'" and al: "fst (allow t q rl) = okb"
      using True Cons.prems(3) by (simp_all add: allow_eq bucket_for_def)
    note tb = try_consume_bounds [OF b(1) ok(3) b(2) tc]
    have "real (fst (admitted p es ?rl)) \<le> bk_tokens b' + rl_refill_rate rl * (last (t # map fst es) - t)"
      using Cons.IH [OF ok(1,2) get] tb(2) by simp
    with tb(4) show ?thesis
      using True al by (auto simp: e algebra_simps split: if_splits)
  next
    case False
    then have "hm_get (rl_buckets ?rl) p = Some b" using Cons.prems(3) by simp
    from Cons.IH [OF ok(1,2) this] False show ?thesis by (simp add: e)
  qed
qed

lemma admitted_window:
  "limiter_ok t0 rl \<Longrightarrow> sorted (t0 # map fst es) \<Longrightarrow>
   real (fst (admitted p es rl)) \<le> as_f64 (rl_capacity rl) + rl_refill_rate rl * (last (t0 # map fst es) - t0)"
proof (induction es arbitrary: t0 rl)
  case (Cons e es)
  obtain t q where e: "e = (t, q)" by (cases e)
  let ?rl = "snd (allow t q rl)" and ?fin = "last (t # map fst es)"
  have ok: "limiter_ok t ?rl" "sorted (t # map fst es)" "t0 \<le> t" "0 \<le> rl_refill_rate rl"
    using Cons.prems e allow_limiter_ok by (auto simp: limiter_ok_def)
  have later: "rl_refill_rate rl * (?fin - t) \<le> rl_refill_rate rl * (?fin - t0)"
    using ok(3,4) by (intro mult_left_mono) auto
  show ?case
  proof (cases "q = p")
    case True
    obtain okb b' where tc: "try_consume t (bucket_for t p rl) = (okb, b')" by (cases "try_consume t (bucket_for t p rl)")
    then have al: "hm_get (rl_buckets ?rl) p = Some b'" "fst (allow t q rl) = okb"
      using True by (simp_all add: allow_eq)
    have "limiter_ok t rl" using limiter_ok_mono [OF Cons.prems(1) ok(3)] .
    note tb = try_consume_bounds [OF bucket_for_ok [OF this] order_refl ok(4) tc]
    show ?thesis
      using admitted_paid [OF ok(1,2) al(1)] tb(2,3) later True al(2) by (auto simp: e split: if_splits)
  next
    case False
    then show ?thesis using Cons.IH [OF ok(1,2)] later by (simp add: e)
  qed
qed simp



text \<open>A peer that waits long enough for a token between frames loses none.\<close>

lemma conforming_peer_admitted:
  assumes "1 \<le> as_f64 (rl_capacity rl)" "limiter_ok t0 rl" "t0 \<le> t"
    and "\<And>b. hm_get (rl_buckets rl) peer = Some b \<Longrightarrow> 1 \<le> rl_refill_rate rl * (t - bk_last_refill b)"
  shows "fst (allow t peer rl)"
proof (cases "hm_get (rl_buckets rl) peer")
  case None
  then show ?thesis
    using assms(1) by (simp add: allow_eq bucket_for_def try_consume_def TokenBucket_new_def)
next
  case (Some b)
  then have b: "bucket_ok rl t0 b" "1 \<le> rl_refill_rate rl * (t - bk_last_refill b)"
    using assms(2,4) by (auto simp: limiter_ok_def)
  then have "max 0 (t - bk_last_refill b) = t - bk_last_refill b" using assms(3) by (simp add: bucket_ok_def)
  then show ?thesis
    using b assms(1) Some by (simp add: allow_eq bucket_for_def try_consume_def Let_def bucket_ok_def mult.commute)
qed

section \<open>Reputation, authorization and backoff\<close>

lemma record_failure_score:
  "score_of peer (snd (record_failure peer r)) = (if score_of peer r = - 1 then - 1 else score_of peer r + 1)"
  "q \<noteq> peer \<Longrightarrow> score_of q (snd (record_failure peer r)) = score_of q r"
  by (auto simp: record_failure_def score_of_def Let_def)

text \<open>
  The blacklisting signal is given exactly when a failure takes the score from below the threshold to
  it, which can be more than once: after a success in between the same peer is reported again.
\<close>

lemma record_failure_signal:
  "fst (record_failure peer r) \<longleftrightarrow>
     \<not> reputation_is_blacklisted peer r \<and> reputation_is_blacklisted peer (snd (record_failure peer r))"
proof -
  let ?s = "score_of peer r"
  have "(if ?s = - 1 then ?s else ?s + 1) = 10 \<longleftrightarrow> \<not> 10 \<le> ?s \<and> 10 \<le> (if ?s = - 1 then - 1 else ?s + 1)"
  proof (cases "?s = - 1")
    case False
    then have "1 + ?s \<noteq> 0" by (metis add_eq_0_iff)
    then have "unat (?s + 1) = Suc (unat ?s)" by (metis add.commute unatSuc)
    with False show ?thesis by (auto simp: word_le_nat_alt word_unat_eq_iff)
  qed simp
  then show ?thesis
    unfolding reputation_is_blacklisted_def record_failure_score
    by (simp add: record_failure_def Let_def BLACKLIST_THRESHOLD_def)
qed

lemma blacklist_signal_repeats:
  "score_of peer r = 10 \<Longrightarrow> fst (record_failure peer (record_success peer r))"
  by (auto simp: score_of_def record_success_def record_failure_def BLACKLIST_THRESHOLD_def split: option.splits)

text \<open>Trust is never withdrawn, and only first contact adds to it.\<close>

lemma authorize_trusted_mono:
  "authorize_authenticated_peer ok peer am = (d, am') \<Longrightarrow>
     am_trusted_peers am \<subseteq> am_trusted_peers am' \<and> am_policy am' = am_policy am \<and> am_allow_list am' = am_allow_list am"
  by (auto simp: authorize_authenticated_peer_def Let_def split: authorization_policy.splits if_splits)

definition authorized :: "node_id \<Rightarrow> authorization_manager \<Rightarrow> bool" where
  "authorized peer am \<longleftrightarrow>
     (case am_policy am of AllowAll \<Rightarrow> True | AllowList \<Rightarrow> peer \<in> am_allow_list am
      | TrustOnFirstUse \<Rightarrow> peer \<in> am_trusted_peers am)"

lemma authorize_decision:
  assumes "authorize_authenticated_peer ok peer am = (d, am')"
  shows "d = Some Allowed \<longleftrightarrow> authorized peer am"
    and "d = Some TrustedOnFirstUse \<Longrightarrow> \<not> authorized peer am \<and> authorized peer am'"
    and "d = Some Rejected \<longleftrightarrow> am_policy am = AllowList \<and> \<not> authorized peer am"
    and "d = None \<longleftrightarrow> am_policy am = TrustOnFirstUse \<and> \<not> authorized peer am \<and> \<not> ok"
    and "d = None \<Longrightarrow> am' = am"
  using assms
  by (auto simp: authorize_authenticated_peer_def authorized_def Let_def
      split: authorization_policy.splits if_splits)

lemma backoff_base_nat: "unat (backoff_base_ms attempt) = min (1000 * 2 ^ unat (min attempt 15)) 10000"
proof -
  have "unat (min attempt 15) \<le> 15" by (simp add: min_def word_le_nat_alt)
  then have "(2::nat) ^ unat (min attempt 15) \<le> 2 ^ 15" by (intro power_increasing) auto
  moreover define v :: nat where "v = 1000 * 2 ^ unat (min attempt 15)"
  ultimately have "v \<le> 32768000" by simp
  then have "min v (2 ^ 64 - 1) = v" "unat (of_nat v :: u64) = v" by (simp_all add: unat_of_nat)
  then show ?thesis
    unfolding backoff_base_ms_def Let_def v_def [symmetric] by (simp add: min_def word_le_nat_alt)
qed

lemma jitter_arith:
  fixes b :: nat
  assumes "1000 \<le> b" "b \<le> 10000" "- int (b div 4) \<le> j" "j \<le> int (b div 4)"
  shows "750 \<le> nat (max (int b + j) 1) \<and> nat (max (int b + j) 1) \<le> 12500
    \<and> 4 * nat (max (int b + j) 1) \<ge> 3 * b \<and> 4 * nat (max (int b + j) 1) \<le> 5 * b"
  using assms by linarith

text \<open>
  The wait before a reconnect attempt doubles from one second up to ten, and the random
  jitter keeps it within a quarter of that: it is never below 750 ms nor above 12.5 s, whatever the
  attempt number, and the arithmetic does not overflow.
\<close>

theorem backoff_bounds:
  assumes "- jitter_range attempt \<le> jitter" "jitter \<le> jitter_range attempt"
  shows "unat (backoff_base_ms attempt) = min (1000 * 2 ^ unat (min attempt 15)) 10000
    \<and> 750 \<le> backoff_duration jitter attempt \<and> backoff_duration jitter attempt \<le> 12500
    \<and> 4 * backoff_duration jitter attempt \<ge> 3 * unat (backoff_base_ms attempt)
    \<and> 4 * backoff_duration jitter attempt \<le> 5 * unat (backoff_base_ms attempt)"
proof -
  let ?b = "unat (backoff_base_ms attempt)"
  have b: "?b = min (1000 * 2 ^ unat (min attempt 15)) 10000" by (rule backoff_base_nat)
  have "(1::nat) \<le> 2 ^ unat (min attempt 15)" by simp
  then have r: "1000 \<le> ?b" "?b \<le> 10000" unfolding b by auto
  have "unat (backoff_base_ms attempt div 4) = ?b div 4" by (simp add: unat_div)
  then have j: "- int (?b div 4) \<le> jitter" "jitter \<le> int (?b div 4)"
    using assms by (simp_all add: jitter_range_def)
  from jitter_arith [OF r j] b show ?thesis unfolding backoff_duration_def by blast
qed

theorem backoff_bounds_witness:
  "jitter_range 20 = 2500 \<and> backoff_duration (- 2500) 20 = 7500 \<and> backoff_duration (- 2500) 20 \<le> 12500"
proof -
  have "unat (backoff_base_ms 20) = 10000" by (simp add: backoff_base_nat min_def)
  then have "jitter_range 20 = 2500" "backoff_duration (- 2500) 20 = 7500"
    by (simp_all add: jitter_range_def backoff_duration_def unat_div)
  then show ?thesis using backoff_bounds [of 20 "- 2500"] by simp
qed

end
