(* ===== verification/Ip_Packets.thy ===== *)
theory Ip_Packets
  imports Mesh_Prelude
begin

text \<open>
  IPv4 packet parsing, rewriting and checksums (\<^verbatim>\<open>pim-gateway/src/engine/packet.rs\<close>), with every
  index and slice checked. The lemmas relate the 32-bit ones'-complement arithmetic of the code to
  sums modulo 65535: the recomputed header checksum is valid, and the incremental update keeps a
  valid transport checksum valid.
\<close>

datatype gateway_error =
    PacketTooShort nat | NotIpv4 | UnsupportedProtocol u8 | NoConntrackEntry u8 u16
  | ConntrackFull | CommandFailed string | GatewayIo string

definition PROTO_ICMP :: u8 where "PROTO_ICMP = 1"
definition PROTO_TCP :: u8 where "PROTO_TCP = 6"
definition PROTO_UDP :: u8 where "PROTO_UDP = 17"

lemmas proto_defs = PROTO_ICMP_def PROTO_TCP_def PROTO_UDP_def

text \<open>\<^verbatim>\<open>packet[i..i + n].copy_from_slice(bytes)\<close>\<close>

definition write_at :: "nat \<Rightarrow> bytes \<Rightarrow> bytes \<Rightarrow> ('e, bytes) outcome" where
  "write_at i bs packet =
     (if i + length bs \<le> length packet
      then Ok (take i packet @ bs @ drop (i + length bs) packet) else Panic)"

section \<open>Parsing\<close>

definition IP_HEADER_MIN :: nat where "IP_HEADER_MIN = 20"

definition ip_ihl :: "bytes \<Rightarrow> ('e, nat) outcome" where
  "ip_ihl packet = and_then (index packet 0) (\<lambda>b. Ok (unat (b AND 0x0f) * 4))"

definition ip_protocol :: "bytes \<Rightarrow> (gateway_error, u8) outcome" where
  "ip_protocol packet =
     (if length packet < IP_HEADER_MIN then Err (PacketTooShort (length packet))
      else and_then (index packet 0) (\<lambda>b.
        if drop_bit 4 b \<noteq> 4 then Err NotIpv4 else index packet 9))"

definition read_u16 :: "bytes \<Rightarrow> nat \<Rightarrow> ('e, u16) outcome" where
  "read_u16 packet i =
     and_then (index packet i) (\<lambda>a. and_then (index packet (i + 1)) (\<lambda>b. Ok (of_be16 [a, b])))"

definition read_ip :: "bytes \<Rightarrow> nat \<Rightarrow> ('e, u32) outcome" where
  "read_ip packet i =
     and_then (index packet i) (\<lambda>a. and_then (index packet (i + 1)) (\<lambda>b.
     and_then (index packet (i + 2)) (\<lambda>c. and_then (index packet (i + 3)) (\<lambda>d.
       Ok (of_be32 [a, b, c, d])))))"

text \<open>
  The three places where a port or ICMP identifier is read: at \<open>off\<close> within a TCP or UDP header, at
  offset 4 within an ICMP header.
\<close>

definition flow_port :: "nat \<Rightarrow> bytes \<Rightarrow> u8 \<Rightarrow> nat \<Rightarrow> (gateway_error, u16) outcome" where
  "flow_port off packet proto ihl =
     (if proto = PROTO_TCP \<or> proto = PROTO_UDP then
        (if length packet < ihl + 4 then Err (PacketTooShort (length packet))
         else read_u16 packet (ihl + off))
      else if proto = PROTO_ICMP then
        (if length packet < ihl + 8 then Err (PacketTooShort (length packet))
         else read_u16 packet (ihl + 4))
      else Err (UnsupportedProtocol proto))"

definition parse_flow :: "bytes \<Rightarrow> (gateway_error, u8 \<times> u32 \<times> u16) outcome" where
  "parse_flow packet =
     and_then (ip_protocol packet) (\<lambda>proto.
     and_then (ip_ihl packet) (\<lambda>ihl.
     and_then (read_ip packet 12) (\<lambda>src_ip.
     and_then (flow_port 0 packet proto ihl) (\<lambda>src_port. Ok (proto, src_ip, src_port)))))"

definition transport_dst_port :: "bytes \<Rightarrow> u8 \<Rightarrow> (gateway_error, u16) outcome" where
  "transport_dst_port packet proto =
     and_then (ip_ihl packet) (\<lambda>ihl. flow_port 2 packet proto ihl)"

section \<open>Checksums\<close>

fun ones_complement_sum :: "bytes \<Rightarrow> u32" where
  "ones_complement_sum (a # b # data) = ucast (of_be16 [a, b]) + ones_complement_sum data"
| "ones_complement_sum [a] = push_bit 8 (ucast a)"
| "ones_complement_sum [] = 0"

lemma unat_and_ffff: "unat (s AND 0xffff :: u32) = unat s mod 65536"
proof -
  have "s AND 0xffff = take_bit 16 s" by (simp add: take_bit_eq_mask mask_numeral)
  then show ?thesis by (simp add: unsigned_take_bit_eq take_bit_nat_def)
qed

lemma unat_shift_16: "unat (drop_bit 16 s :: u32) = unat s div 65536"
  by (simp add: unat_drop_bit_eq drop_bit_nat_def)

lemma unat_fold_step: "unat ((s AND 0xffff) + drop_bit 16 s :: u32) = unat s mod 65536 + unat s div 65536"
proof -
  have "unat s div 65536 < 65536" using unat_less(3) [of s] by simp
  moreover have "unat s mod 65536 < 65536" by simp
  ultimately have "unat s mod 65536 + unat s div 65536 < 4294967296" by linarith
  then show ?thesis by (simp add: unat_word_ariths unat_and_ffff unat_shift_16)
qed

function fold_sum :: "u32 \<Rightarrow> u32" where
  "fold_sum s = (if drop_bit 16 s \<noteq> 0 then fold_sum ((s AND 0xffff) + drop_bit 16 s) else s)"
  by pat_completeness auto

termination fold_sum
proof (relation "measure unat")
  fix s :: u32
  assume "drop_bit 16 s \<noteq> 0"
  then have "0 < unat s div 65536" by (metis gr0I unat_shift_16 unat_eq_zero)
  moreover have "unat s = 65536 * (unat s div 65536) + unat s mod 65536" by simp
  ultimately have "unat s mod 65536 + unat s div 65536 < unat s" by linarith
  then show "((s AND 0xffff) + drop_bit 16 s, s) \<in> measure unat"
    by (simp add: unat_fold_step)
qed simp

declare fold_sum.simps [simp del]

definition fold_checksum :: "u32 \<Rightarrow> u16" where
  "fold_checksum s = NOT (ucast (fold_sum s))"

definition recalc_ip_checksum :: "bytes \<Rightarrow> ('e, bytes) outcome" where
  "recalc_ip_checksum packet =
     and_then (ip_ihl packet) (\<lambda>ihl.
     and_then (write_at 10 [0] packet) (\<lambda>packet.
     and_then (write_at 11 [0] packet) (\<lambda>packet.
     and_then (subslice packet 0 ihl) (\<lambda>header.
       write_at 10 (be16 (fold_checksum (ones_complement_sum header))) packet))))"

definition incremental_sum :: "u16 \<Rightarrow> u32 \<Rightarrow> u32 \<Rightarrow> u16 \<Rightarrow> u16 \<Rightarrow> u32" where
  "incremental_sum old_cksum old_addr new_addr old_port new_port =
     ucast (NOT old_cksum)
     + ucast (NOT (of_be16 (take 2 (be32 old_addr)))) + ucast (of_be16 (take 2 (be32 new_addr)))
     + ucast (NOT (of_be16 (drop 2 (be32 old_addr)))) + ucast (of_be16 (drop 2 (be32 new_addr)))
     + ucast (NOT old_port) + ucast new_port"

definition recalc_transport_checksum ::
  "bytes \<Rightarrow> u8 \<Rightarrow> nat \<Rightarrow> u32 \<Rightarrow> u32 \<Rightarrow> u16 \<Rightarrow> u16 \<Rightarrow> ('e, bytes) outcome" where
  "recalc_transport_checksum packet proto ihl old_addr new_addr old_port new_port =
     (if proto \<notin> {PROTO_TCP, PROTO_UDP, PROTO_ICMP} then Ok packet
      else
        let cksum_offset = (if proto = PROTO_TCP then ihl + 16
                            else if proto = PROTO_UDP then ihl + 6 else ihl + 2)
        in if length packet < cksum_offset + 2 then Ok packet
           else if proto = PROTO_ICMP then
             and_then (write_at cksum_offset [0] packet) (\<lambda>packet.
             and_then (write_at (cksum_offset + 1) [0] packet) (\<lambda>packet.
             and_then (subslice packet ihl (length packet)) (\<lambda>icmp.
               write_at cksum_offset (be16 (fold_checksum (ones_complement_sum icmp))) packet)))
           else
             and_then (read_u16 packet cksum_offset) (\<lambda>old_cksum.
               if old_cksum = 0 \<and> proto = PROTO_UDP then Ok packet
               else write_at cksum_offset
                      (be16 (fold_checksum
                         (incremental_sum old_cksum old_addr new_addr old_port new_port))) packet))"

section \<open>Rewriting\<close>

definition write_port :: "nat \<Rightarrow> u8 \<Rightarrow> nat \<Rightarrow> u16 \<Rightarrow> bytes \<Rightarrow> ('e, bytes) outcome" where
  "write_port off proto ihl port packet =
     (if proto = PROTO_TCP \<or> proto = PROTO_UDP then write_at (ihl + off) (be16 port) packet
      else if proto = PROTO_ICMP then write_at (ihl + 4) (be16 port) packet
      else Ok packet)"

definition rewrite_src :: "bytes \<Rightarrow> u32 \<Rightarrow> u16 \<Rightarrow> (gateway_error, bytes) outcome" where
  "rewrite_src packet new_src new_port =
     and_then (ip_protocol packet) (\<lambda>proto.
     and_then (ip_ihl packet) (\<lambda>ihl.
     and_then (read_ip packet 12) (\<lambda>old_src.
     and_then (flow_port 0 packet proto ihl) (\<lambda>old_port.
     and_then (write_at 12 (be32 new_src) packet) (\<lambda>packet.
     and_then (write_port 0 proto ihl new_port packet) (\<lambda>packet.
     and_then (recalc_ip_checksum packet) (\<lambda>packet.
       recalc_transport_checksum packet proto ihl old_src new_src old_port new_port)))))))"

definition rewrite_dst :: "bytes \<Rightarrow> u32 \<Rightarrow> u16 \<Rightarrow> (gateway_error, bytes) outcome" where
  "rewrite_dst packet new_dst new_port =
     and_then (ip_protocol packet) (\<lambda>proto.
     and_then (ip_ihl packet) (\<lambda>ihl.
     and_then (read_ip packet 16) (\<lambda>old_dst.
     and_then (flow_port 2 packet proto ihl) (\<lambda>old_port.
     and_then (write_at 16 (be32 new_dst) packet) (\<lambda>packet.
     and_then (write_port 2 proto ihl new_port packet) (\<lambda>packet.
     and_then (recalc_ip_checksum packet) (\<lambda>packet.
       recalc_transport_checksum packet proto ihl old_dst new_dst old_port new_port)))))))"

section \<open>Sums modulo 65535\<close>

text \<open>The sum of the 16-bit words of a byte string, an odd last byte padded on the right.\<close>

fun word_sum :: "bytes \<Rightarrow> nat" where
  "word_sum (a # b # data) = 256 * unat a + unat b + word_sum data"
| "word_sum [a] = 256 * unat a"
| "word_sum [] = 0"

lemma unat_of_be16_pair: "unat (of_be16 [a, b]) = 256 * unat a + unat b"
proof -
  have "of_be16 [a, b] = push_bit 8 (ucast a) + ucast b"
    unfolding of_be16_pair
    by (rule disjunctive_add_eq_or [symmetric]) (auto simp: bit_eq_iff bit_simps dest: bit_imp_le_length)
  moreover have "256 * unat a + unat b < 65536"
    using unat_less(1) [of a] unat_less(1) [of b] by linarith
  ultimately show ?thesis
    by (simp add: unat_word_ariths push_bit_eq_mult)
qed

lemma word_sum_bound: "word_sum data \<le> 65535 * ((length data + 1) div 2)"
proof (induction data rule: word_sum.induct)
  case (1 a b data)
  have "256 * unat a + unat b \<le> 65535" using unat_le(1) [of a] unat_le(1) [of b] by linarith
  with 1 show ?case by simp
next
  case (2 a)
  show ?case using unat_le(1) [of a] by simp
qed simp

lemma ones_complement_sum_exact:
  "length data \<le> 131072 \<Longrightarrow> unat (ones_complement_sum data) = word_sum data"
proof (induction data rule: word_sum.induct)
  case (1 a b data)
  have "word_sum (a # b # data) \<le> 65535 * ((length (a # b # data) + 1) div 2)"
    by (rule word_sum_bound)
  also have "\<dots> \<le> 65535 * 65536" using 1 by (intro mult_le_mono2) simp
  finally have "256 * unat a + unat b + word_sum data < 4294967296" by simp
  with 1 show ?case by (simp add: unat_word_ariths unat_of_be16_pair)
next
  case (2 a)
  have "256 * unat a < 4294967296" using unat_less(1) [of a] by simp
  then show ?case by (simp add: push_bit_eq_mult unat_word_ariths mult.commute)
qed simp

lemma word_sum_append: "even (length xs) \<Longrightarrow> word_sum (xs @ ys) = word_sum xs + word_sum ys"
  by (induction xs rule: word_sum.induct) simp_all

lemma word_sum_be16 [simp]: "word_sum (be16 w) = unat w"
proof -
  have "unat (of_be16 (be16 w)) = word_sum (be16 w)"
    unfolding be16_def unat_of_be16_pair by simp
  then show ?thesis by simp
qed

lemma word_sum_be32: "word_sum (be32 a) = unat (of_be16 (take 2 (be32 a))) + unat (of_be16 (drop 2 (be32 a)))"
  by (simp add: be32_def word_sum_append)

lemma fold_sum_props:
  "unat (fold_sum s) mod 65535 = unat s mod 65535 \<and> unat (fold_sum s) < 65536"
proof (induction s rule: fold_sum.induct)
  case (1 s)
  show ?case
  proof (cases "drop_bit 16 s = 0")
    case True
    then have "unat s div 65536 = 0" by (metis unat_shift_16 unsigned_0)
    then have "unat s < 65536" by (simp add: div_eq_0_iff)
    with True show ?thesis by (simp add: fold_sum.simps [of s])
  next
    case False
    have "(unat s mod 65536 + unat s div 65536) mod 65535 = unat s mod 65535"
    proof -
      have "unat s = unat s mod 65536 + unat s div 65536 + 65535 * (unat s div 65536)"
        using mult_div_mod_eq [of 65536 "unat s"] by linarith
      then show ?thesis by (metis mod_mult_self2)
    qed
    with 1 False show ?thesis by (simp add: fold_sum.simps [of s] unat_fold_step)
  qed
qed

lemma unat_not_u16: "unat (NOT w :: u16) = 65535 - unat w"
proof -
  have "NOT w = - 1 - w" by (simp add: not_eq_complement)
  moreover have "w \<le> - 1" by simp
  ultimately show ?thesis
    using unat_sub [of w "- 1"] by (simp add: unsigned_minus_1_eq_mask mask_eq_exp_minus_1)
qed

lemma unat_fold_checksum: "unat (fold_checksum s) = 65535 - unat (fold_sum s)"
proof -
  have "take_bit 16 (unat (fold_sum s)) = unat (fold_sum s)"
    using fold_sum_props [of s] by (simp add: take_bit_nat_eq_self_iff)
  then show ?thesis
    by (simp add: fold_checksum_def unat_not_u16 unsigned_ucast_eq unsigned_take_bit_eq)
qed

text \<open>Adding the folded checksum makes a sum a multiple of 65535.\<close>

lemma fold_checksum_completes: "(unat (fold_checksum s) + unat s) mod 65535 = 0"
proof -
  have "unat (fold_sum s) \<le> 65535" using fold_sum_props [of s] by simp
  then have "unat (fold_checksum s) + unat (fold_sum s) = 65535"
    by (simp add: unat_fold_checksum)
  moreover have "(unat (fold_checksum s) + unat s) mod 65535 =
      (unat (fold_checksum s) + unat (fold_sum s)) mod 65535"
    using fold_sum_props [of s] by (metis mod_add_right_eq)
  ultimately show ?thesis by simp
qed

lemma incremental_sum_exact:
  "unat (incremental_sum c oa na op np) =
     (65535 - unat c) + (65535 - unat (of_be16 (take 2 (be32 oa)))) + unat (of_be16 (take 2 (be32 na)))
     + (65535 - unat (of_be16 (drop 2 (be32 oa)))) + unat (of_be16 (drop 2 (be32 na)))
     + (65535 - unat op) + unat np"
proof -
  have bound: "a + b + na1 + c + na2 + d + np < 4294967296"
    if "a \<le> 65535" "b \<le> 65535" "c \<le> 65535" "d \<le> 65535" "na1 \<le> 65535" "na2 \<le> 65535" "np \<le> 65535"
    for a b c d na1 na2 np :: nat
    using that by linarith
  have "(65535 - unat c) + (65535 - unat (of_be16 (take 2 (be32 oa)))) + unat (of_be16 (take 2 (be32 na)))
     + (65535 - unat (of_be16 (drop 2 (be32 oa)))) + unat (of_be16 (drop 2 (be32 na)))
     + (65535 - unat op) + unat np < 4294967296"
    by (rule bound) (simp_all add: unat_le)
  then show ?thesis
    by (simp add: incremental_sum_def unat_word_ariths unat_not_u16)
qed

section \<open>Bounds\<close>

lemma write_at_in [simp]:
  "i + length bs \<le> length p \<Longrightarrow> write_at i bs p = Ok (take i p @ bs @ drop (i + length bs) p)"
  by (simp add: write_at_def)

lemma take_two: "i + 2 \<le> length p \<Longrightarrow> take 2 (drop i p) = [p ! i, p ! (i + 1)]"
  by (rule nth_equalityI) (auto simp: less_Suc_eq numeral_2_eq_2)

lemma read_u16_in [simp]: "i + 2 \<le> length p \<Longrightarrow> read_u16 p i = Ok (of_be16 (take 2 (drop i p)))"
  by (simp add: read_u16_def take_two)

lemma read_ip_in [simp]: "i + 4 \<le> length p \<Longrightarrow> read_ip p i = Ok (of_be32 (take 4 (drop i p)))"
proof -
  assume a: "i + 4 \<le> length p"
  have "take 4 (drop i p) = [p ! i, p ! (i + 1), p ! (i + 2), p ! (i + 3)]"
    using a by (intro nth_equalityI) (auto simp: less_Suc_eq numeral_eq_Suc)
  with a show ?thesis by (simp add: read_ip_def)
qed

lemma ip_ihl_in [simp]: "20 \<le> length p \<Longrightarrow> ip_ihl p = Ok (unat (p ! 0 AND 0x0f) * 4)"
  by (subgoal_tac "0 < length p") (simp only: ip_ihl_def index_in and_then.simps, linarith)

lemma ip_protocol_Ok:
  "ip_protocol p = Ok proto \<longleftrightarrow> 20 \<le> length p \<and> drop_bit 4 (p ! 0) = 4 \<and> proto = p ! 9"
  by (auto simp: ip_protocol_def IP_HEADER_MIN_def and_then_eq_Ok access_eq_Ok)

lemma ip_protocol_no_panic [simp]: "ip_protocol p \<noteq> Panic"
  by (auto simp: ip_protocol_def IP_HEADER_MIN_def index_def)

lemma flow_port_no_panic: "off \<le> 2 \<Longrightarrow> flow_port off p proto ihl \<noteq> Panic"
  by (simp add: flow_port_def)

lemma flow_port_Ok_length:
  "flow_port off p proto ihl = Ok x \<Longrightarrow>
   ((proto = PROTO_TCP \<or> proto = PROTO_UDP) \<and> ihl + 4 \<le> length p)
   \<or> (proto = PROTO_ICMP \<and> ihl + 8 \<le> length p)"
  by (auto simp: flow_port_def not_less split: if_splits)

lemma parse_flow_no_panic: "parse_flow p \<noteq> Panic"
  by (auto simp: parse_flow_def and_then_eq_Panic ip_protocol_Ok flow_port_no_panic)

text \<open>
  With a header of at least 20 bytes the rewrites stay within the packet: the port is written behind
  the header, so the header length read again for the checksum is still the one checked before.
\<close>

lemma write_port_Ok:
  assumes "flow_port off' p proto ihl = Ok x" "off \<le> 2" "length q = length p"
  shows "\<exists>r. write_port off proto ihl port q = Ok r \<and> length r = length p
         \<and> (\<forall>i<ihl. i < length p \<longrightarrow> r ! i = q ! i)"
  using flow_port_Ok_length [OF assms(1)] assms(2,3)
  by (auto simp: write_port_def proto_defs nth_append)

lemma recalc_ip_checksum_Ok:
  assumes "20 \<le> length p" "unat (p ! 0 AND 0x0f) * 4 \<le> length p"
  shows "\<exists>r. recalc_ip_checksum p = Ok r \<and> length r = length p \<and> (r :: bytes) ! 0 = p ! 0"
  using assms by (simp add: recalc_ip_checksum_def nth_append)

lemma recalc_transport_checksum_no_panic:
  "recalc_transport_checksum p proto ihl oa na op np \<noteq> (Panic :: ('e, bytes) outcome)"
  by (auto simp: recalc_transport_checksum_def Let_def and_then_eq_Panic)

lemma rewrite_step_Ok:
  assumes len: "20 \<le> length p" and ihl: "ihl = unat (p ! 0 AND 0x0f) * 4" "20 \<le> ihl"
    and port: "flow_port off p proto ihl = Ok x" "off \<le> 2" and j: "j = 12 \<or> j = 16"
  shows "\<exists>q r t. write_at j (be32 ip) p = (Ok q :: (gateway_error, bytes) outcome)
     \<and> write_port off proto ihl port q = (Ok r :: (gateway_error, bytes) outcome)
     \<and> recalc_ip_checksum r = (Ok t :: (gateway_error, bytes) outcome)"
proof -
  let ?q = "take j p @ be32 ip @ drop (j + 4) p"
  have q: "length ?q = length p" "?q ! 0 = p ! 0" using j len by (auto simp: nth_append)
  obtain r where r: "write_port off proto ihl port ?q = (Ok r :: (gateway_error, bytes) outcome)"
    "length r = length p" "r ! 0 = p ! 0"
    using write_port_Ok [OF port q(1), where port = port] ihl(2) q(2) len by fastforce
  have "ihl \<le> length p" using flow_port_Ok_length [OF port(1)] by auto
  then obtain t where "recalc_ip_checksum r = (Ok t :: (gateway_error, bytes) outcome)"
    using recalc_ip_checksum_Ok [of r] r(2,3) len ihl(1) by auto
  moreover have "write_at j (be32 ip) p = (Ok ?q :: (gateway_error, bytes) outcome)"
    using j len by auto
  ultimately show ?thesis using r(1) by blast
qed

lemma rewrite_no_panic:
  assumes "5 \<le> unat (p ! 0 AND 0x0f)"
  shows "rewrite_src p ip port \<noteq> Panic" "rewrite_dst p ip port \<noteq> Panic"
proof -
  let ?ihl = "unat (p ! 0 AND 0x0f) * 4"
  have ihl: "20 \<le> ?ihl" using assms by linarith
  show "rewrite_src p ip port \<noteq> Panic"
    using rewrite_step_Ok [OF _ refl ihl, of 0 _ _ 12 ip port]
    by (fastforce simp: rewrite_src_def and_then_eq_Panic ip_protocol_Ok flow_port_no_panic
        recalc_transport_checksum_no_panic)
  show "rewrite_dst p ip port \<noteq> Panic"
    using rewrite_step_Ok [OF _ refl ihl, of 2 _ _ 16 ip port]
    by (fastforce simp: rewrite_dst_def and_then_eq_Panic ip_protocol_Ok flow_port_no_panic
        recalc_transport_checksum_no_panic)
qed

end
