(* ===== verification/Echo_Reply.thy ===== *)
theory Echo_Reply
  imports Ip_Packets
begin

text \<open>
  The packet inspection of the daemon: version and destination of an IP packet (\<^verbatim>\<open>net.rs\<close>) and the
  reply a gateway gives to a ping of its own mesh address (\<^verbatim>\<open>runtime_config.rs\<close>,
  \<^verbatim>\<open>icmp_echo_reply\<close>), with every index and slice checked.
\<close>

definition packet_ip_version :: "bytes \<Rightarrow> u8 option" where
  "packet_ip_version packet = (case packet of [] \<Rightarrow> None | b # _ \<Rightarrow> Some (drop_bit 4 b))"

definition ipv4_destination :: "bytes \<Rightarrow> u32 option" where
  "ipv4_destination packet =
     (if length packet < 20 \<or> drop_bit 4 (packet ! 0) \<noteq> 4 then None
      else Some (of_be32 [packet ! 16, packet ! 17, packet ! 18, packet ! 19]))"

definition ipv6_destination :: "bytes \<Rightarrow> bytes option" where
  "ipv6_destination packet =
     (if length packet < 40 \<or> drop_bit 4 (packet ! 0) \<noteq> 6 then None
      else Some (take 16 (drop 24 packet)))"

definition icmp_echo_reply :: "bytes \<Rightarrow> ('e, bytes option) outcome" where
  "icmp_echo_reply packet =
     (if length packet < 28 then Ok None
      else and_then (ip_ihl packet) (\<lambda>ihl.
        if length packet < ihl + 8 then Ok None
        else and_then (index packet 9) (\<lambda>proto.
          if proto \<noteq> 1 then Ok None
          else and_then (index packet ihl) (\<lambda>icmp_type. and_then (index packet (ihl + 1)) (\<lambda>icmp_code.
            if icmp_type \<noteq> 8 \<or> icmp_code \<noteq> 0 then Ok None
            else
              and_then (subslice packet 12 16) (\<lambda>src. and_then (subslice packet 16 20) (\<lambda>dst.
              and_then (write_at 12 (dst @ src) packet) (\<lambda>reply.
              and_then (write_at ihl [0] reply) (\<lambda>reply.
              and_then (write_at (ihl + 2) [0] reply) (\<lambda>reply.
              and_then (write_at (ihl + 3) [0] reply) (\<lambda>reply.
              and_then (subslice reply ihl (length reply)) (\<lambda>icmp_data.
              and_then (write_at (ihl + 2) (be16 (fold_checksum (ones_complement_sum icmp_data))) reply) (\<lambda>reply.
              and_then (write_at 10 [0] reply) (\<lambda>reply.
              and_then (write_at 11 [0] reply) (\<lambda>reply.
              and_then (subslice reply 0 ihl) (\<lambda>header.
              and_then (write_at 10 (be16 (fold_checksum (ones_complement_sum header))) reply) (\<lambda>reply.
                Ok (Some reply))))))))))))))))))"

section \<open>Totality and layout\<close>

lemma write_at_then_Panic:
  assumes "and_then (write_at i bs p) f = Panic" "i + length bs \<le> length p"
  obtains p' where "length p' = length p" "f p' = Panic"
  using assms that [of "take i p @ bs @ drop (i + length bs) p"] by (simp add: write_at_def)

lemma icmp_echo_reply_no_panic: "(icmp_echo_reply packet :: ('e, bytes option) outcome) \<noteq> Panic"
proof (cases "length packet < 28 \<or> length packet < unat (packet ! 0 AND 0x0f) * 4 + 8")
  case True
  then show ?thesis by (auto simp: icmp_echo_reply_def)
next
  case False
  then have l: "28 \<le> length packet" "unat (packet ! 0 AND 0x0f) * 4 + 8 \<le> length packet" by auto
  define ihl where "ihl = unat (packet ! 0 AND 0x0f) * 4"
  show ?thesis
    using l unfolding icmp_echo_reply_def
    by (auto simp flip: ihl_def simp del: write_at_in elim!: write_at_then_Panic)
qed

lemma write_at_layout:
  "length a = i \<Longrightarrow> length b = length bs \<Longrightarrow> write_at i bs (a @ b @ c) = Ok (a @ bs @ c)"
  by (simp add: write_at_def)

lemma subslice_suffix: "length a = n \<Longrightarrow> subslice (a @ b) n (length (a @ b)) = Ok b"
  and subslice_prefix: "length a = n \<Longrightarrow> subslice (a @ b) 0 n = Ok a"
  by (simp_all add: subslice_def)

lemma echo_reply_layout:
  assumes "length head = 10" "length src = 4" "length dst = 4"
    and "unat (head ! 0 AND 0x0f) * 4 = 20 + length opts" "head ! 9 = 1" "4 \<le> length rest"
  shows "icmp_echo_reply (head @ [c1, c2] @ src @ dst @ opts @ [8, 0, k1, k2] @ rest) =
    Ok (Some (head @ be16 (fold_checksum (ones_complement_sum (head @ [0, 0] @ dst @ src @ opts)))
      @ dst @ src @ opts @ [0, 0] @ be16 (fold_checksum (ones_complement_sum ([0, 0, 0, 0] @ rest))) @ rest))"
proof -
  let ?ihl = "20 + length opts"
  let ?p = "head @ [c1, c2] @ src @ dst @ opts @ [8, 0, k1, k2] @ rest"
  let ?k = "be16 (fold_checksum (ones_complement_sum ([0, 0, 0, 0] @ rest)))"
  have w1: "write_at 12 (dst @ src) ?p = Ok (head @ [c1, c2] @ (dst @ src) @ opts @ [8, 0, k1, k2] @ rest)"
    using write_at_layout [of "head @ [c1, c2]" 12 "src @ dst" "dst @ src"] assms by simp
  have w2: "write_at ?ihl [0] (head @ [c1, c2] @ (dst @ src) @ opts @ [8, 0, k1, k2] @ rest)
      = Ok (head @ [c1, c2] @ dst @ src @ opts @ [0, 0, k1, k2] @ rest)"
    using write_at_layout [of "head @ [c1, c2] @ dst @ src @ opts" ?ihl "[8]" "[0]" "[0, k1, k2] @ rest"] assms by simp
  have w3: "write_at (?ihl + 2) [0] (head @ [c1, c2] @ dst @ src @ opts @ [0, 0, k1, k2] @ rest)
      = Ok (head @ [c1, c2] @ dst @ src @ opts @ [0, 0, 0, k2] @ rest)"
    using write_at_layout [of "head @ [c1, c2] @ dst @ src @ opts @ [0, 0]" "?ihl + 2" "[k1]" "[0]" "[k2] @ rest"] assms by simp
  have w4: "write_at (?ihl + 3) [0] (head @ [c1, c2] @ dst @ src @ opts @ [0, 0, 0, k2] @ rest)
      = Ok (head @ [c1, c2] @ dst @ src @ opts @ [0, 0, 0, 0] @ rest)"
    using write_at_layout [of "head @ [c1, c2] @ dst @ src @ opts @ [0, 0, 0]" "?ihl + 3" "[k2]" "[0]" "rest"] assms by simp
  have w5: "write_at (?ihl + 2) ?k (head @ [c1, c2] @ dst @ src @ opts @ [0, 0, 0, 0] @ rest)
      = Ok (head @ [c1, c2] @ dst @ src @ opts @ [0, 0] @ ?k @ rest)"
    using write_at_layout [of "head @ [c1, c2] @ dst @ src @ opts @ [0, 0]" "?ihl + 2" "[0, 0]" ?k "rest"] assms by simp
  have w6: "write_at 10 [0] (head @ [c1, c2] @ X) = Ok (head @ [0, c2] @ X)"
    "write_at 11 [0] (head @ [0, c2] @ X) = Ok (head @ [0, 0] @ X)"
    "length h = 2 \<Longrightarrow> write_at 10 h (head @ [0, 0] @ X) = Ok (head @ h @ X)" for X h
    using assms(1) write_at_layout [of head 10 "[c1]" "[0]" "[c2] @ X"]
      write_at_layout [of "head @ [0]" 11 "[c2]" "[0]" X] write_at_layout [of head 10 "[0, 0]" h X]
    by (simp_all del: write_at_in)
  have ix: "(ip_ihl ?p :: ('e, nat) outcome) = Ok ?ihl" "(index ?p 9 :: ('e, u8) outcome) = Ok 1"
    "(index ?p ?ihl :: ('e, u8) outcome) = Ok 8" "(index ?p (?ihl + 1) :: ('e, u8) outcome) = Ok 0"
    "\<not> length ?p < 28" "\<not> length ?p < ?ihl + 8"
    using assms by (simp_all add: index_def nth_append)
  have sl: "subslice ?p 12 16 = Ok src" "subslice ?p 16 20 = Ok dst"
    "subslice (head @ [c1, c2] @ dst @ src @ opts @ X) ?ihl (length (head @ [c1, c2] @ dst @ src @ opts @ X)) = Ok X"
    "subslice (head @ [0, 0] @ dst @ src @ opts @ X) 0 ?ihl = Ok (head @ [0, 0] @ dst @ src @ opts)" for X
    using assms subslice_suffix [of "head @ [c1, c2] @ dst @ src @ opts" ?ihl X]
      subslice_prefix [of "head @ [0, 0] @ dst @ src @ opts" ?ihl X]
    by (simp_all add: subslice_def)
  have "length (be16 w) = 2" for w by simp
  then show ?thesis
    by (simp only: icmp_echo_reply_def ix sl w1 w2 w3 w4 w5 w6 and_then.simps if_False simp_thms)
qed

lemma checksum_inserted:
  assumes "even (length a)" "length a + length b \<le> 131070"
  shows "word_sum (a @ be16 (fold_checksum (ones_complement_sum (a @ [0, 0] @ b))) @ b) mod 65535 = 0"
proof -
  let ?s = "ones_complement_sum (a @ [0, 0] @ b)"
  have "unat ?s = word_sum (a @ [0, 0] @ b)"
    using assms(2) by (intro ones_complement_sum_exact) simp
  then have "word_sum (a @ be16 (fold_checksum ?s) @ b) = unat (fold_checksum ?s) + unat ?s"
    using assms(1) by (simp add: word_sum_append)
  then show ?thesis by (simp only: fold_checksum_completes)
qed

text \<open>
  The answer to an echo request: the same packet with the addresses exchanged and the type set to
  echo reply, whose header and ICMP checksums are both valid.
\<close>

lemma echo_reply_valid:
  assumes "length head = 10" "length src = 4" "length dst = 4"
    and "unat (head ! 0 AND 0x0f) * 4 = 20 + length opts" "head ! 9 = 1" "4 \<le> length rest" "length rest < 65536"
  shows "\<exists>h k. icmp_echo_reply (head @ [c1, c2] @ src @ dst @ opts @ [8, 0, k1, k2] @ rest)
      = Ok (Some (head @ h @ dst @ src @ opts @ [0, 0] @ k @ rest))
    \<and> length h = 2 \<and> length k = 2
    \<and> word_sum (head @ h @ dst @ src @ opts) mod 65535 = 0 \<and> word_sum ([0, 0] @ k @ rest) mod 65535 = 0"
proof -
  have "unat (head ! 0 AND 0x0f) \<le> 15"
    using word_and_le1 [of "head ! 0" "0x0f"] by (simp add: word_le_nat_alt)
  then have "length opts \<le> 40" using assms(4) by linarith
  then show ?thesis
    using echo_reply_layout [OF assms(1-6), of c1 c2 k1 k2]
      checksum_inserted [of head "dst @ src @ opts"] checksum_inserted [of "[0, 0]" rest] assms
    by fastforce
qed

end
