(* ===== verification/Control_Frames.thy ===== *)
theory Control_Frames
  imports Frame_Codec
begin

text \<open>
  The variable-layout frames of \<^verbatim>\<open>pim-protocol\<close>: control messages (\<^verbatim>\<open>control_frame.rs\<close>) and
  route updates (\<^verbatim>\<open>route_frame.rs\<close>), each an interpretation of the codec contract, and what the
  control encoder does with a name that does not fit.
\<close>

section \<open>Control messages\<close>

datatype control_type = CtGoodbye | CtRekey | CtPing | CtPong | CtPeerInfo | CtPluginPayload

fun ControlType_as_u8 :: "control_type \<Rightarrow> u8" where
  "ControlType_as_u8 CtGoodbye = 3"
| "ControlType_as_u8 CtRekey = 4"
| "ControlType_as_u8 CtPing = 5"
| "ControlType_as_u8 CtPong = 6"
| "ControlType_as_u8 CtPeerInfo = 7"
| "ControlType_as_u8 CtPluginPayload = 8"

definition ControlType_from_u8 :: "u8 \<Rightarrow> (pim_error, control_type) outcome" where
  "ControlType_from_u8 v =
     (if v = 3 then Ok CtGoodbye
      else if v = 4 then Ok CtRekey
      else if v = 5 then Ok CtPing
      else if v = 6 then Ok CtPong
      else if v = 7 then Ok CtPeerInfo
      else if v = 8 then Ok CtPluginPayload
      else Err (Protocol (UnknownControlType v)))"

datatype control_frame =
    Goodbye node_id u8
  | Rekey
  | Ping u64
  | Pong u64
  | PeerInfo bytes bytes
  | PluginPayload bytes bytes

fun ControlFrame_encode :: "control_frame \<Rightarrow> bytes" where
  "ControlFrame_encode (Goodbye departing_id reason) =
     [ControlType_as_u8 CtGoodbye] @ as_bytes departing_id @ [reason]"
| "ControlFrame_encode Rekey = [ControlType_as_u8 CtRekey]"
| "ControlFrame_encode (Ping nonce) = [ControlType_as_u8 CtPing] @ be64 nonce"
| "ControlFrame_encode (Pong nonce) = [ControlType_as_u8 CtPong] @ be64 nonce"
| "ControlFrame_encode (PeerInfo x25519_pub friendly_name) =
     (let name_len = of_nat (min (length friendly_name) 255) :: u8
      in [ControlType_as_u8 CtPeerInfo] @ x25519_pub @ [name_len]
         @ take (unat name_len) friendly_name)"
| "ControlFrame_encode (PluginPayload kind body) =
     (let kind_len = of_nat (min (length kind) 255) :: u8;
          body_len = of_nat (min (length body) 65535) :: u16
      in [ControlType_as_u8 CtPluginPayload] @ [kind_len] @ take (unat kind_len) kind
         @ be16 body_len @ take (unat body_len) body)"

text \<open>The arms of the decoder's \<^verbatim>\<open>match control_type\<close>.\<close>

definition decode_Goodbye :: "bytes \<Rightarrow> (pim_error, control_frame \<times> bytes) outcome" where
  "decode_Goodbye buf =
     (if length buf < 18 then Err (Protocol GoodbyeTooShort)
      else and_then (subslice buf 1 17) (\<lambda>id.
        and_then (index buf 17) (\<lambda>reason.
        and_then (advance buf 18) (\<lambda>buf. Ok (Goodbye (NodeId_from_bytes id) reason, buf)))))"

definition decode_nonce ::
  "error_message \<Rightarrow> (u64 \<Rightarrow> control_frame) \<Rightarrow> bytes \<Rightarrow> (pim_error, control_frame \<times> bytes) outcome"
  where
  "decode_nonce short mk buf =
     (if length buf < 9 then Err (Protocol short)
      else and_then (subslice buf 1 9) (\<lambda>n.
        and_then (advance buf 9) (\<lambda>buf. Ok (mk (of_be64 n), buf))))"

definition decode_PeerInfo :: "bytes \<Rightarrow> (pim_error, control_frame \<times> bytes) outcome" where
  "decode_PeerInfo buf =
     (if length buf < 34 then Err (Protocol PeerInfoTooShort)
      else and_then (subslice buf 1 33) (\<lambda>x25519_pub.
        and_then (index buf 33) (\<lambda>n.
          let name_len = unat n; total = 34 + name_len in
          if length buf < total then Err (Protocol (PeerInfoTruncated total (length buf)))
          else and_then (subslice buf 34 total) (\<lambda>friendly_name.
            if \<not> utf8_valid friendly_name then Err (Protocol FriendlyNameNotUtf8)
            else and_then (advance buf total) (\<lambda>buf.
              Ok (PeerInfo x25519_pub friendly_name, buf))))))"

definition decode_PluginPayload :: "bytes \<Rightarrow> (pim_error, control_frame \<times> bytes) outcome" where
  "decode_PluginPayload buf =
     (if length buf < 4 then Err (Protocol PluginPayloadTooShort)
      else and_then (index buf 1) (\<lambda>k.
        let kind_len = unat k; body_len_off = 2 + kind_len in
        if length buf < body_len_off + 2
        then Err (Protocol (PluginHeaderTruncated (body_len_off + 2) (length buf)))
        else and_then (subslice buf 2 body_len_off) (\<lambda>kind.
          if \<not> utf8_valid kind then Err (Protocol PluginKindNotUtf8)
          else and_then (subslice buf body_len_off (body_len_off + 2)) (\<lambda>l.
            let body_len = unat (of_be16 l); total = body_len_off + 2 + body_len in
            if length buf < total
            then Err (Protocol (PluginPayloadTruncated total (length buf)))
            else and_then (subslice buf (body_len_off + 2) total) (\<lambda>body.
              and_then (advance buf total) (\<lambda>buf. Ok (PluginPayload kind body, buf)))))))"

definition ControlFrame_decode :: "bytes \<Rightarrow> (pim_error, control_frame \<times> bytes) outcome" where
  "ControlFrame_decode buf =
     (if buf = [] then Err (Protocol ControlFrameEmpty)
      else and_then (index buf 0) (\<lambda>b.
        and_then (ControlType_from_u8 b) (\<lambda>control_type.
          case control_type of
            CtGoodbye \<Rightarrow> decode_Goodbye buf
          | CtRekey \<Rightarrow> and_then (advance buf 1) (\<lambda>buf. Ok (Rekey, buf))
          | CtPing \<Rightarrow> decode_nonce PingTooShort Ping buf
          | CtPong \<Rightarrow> decode_nonce PongTooShort Pong buf
          | CtPeerInfo \<Rightarrow> decode_PeerInfo buf
          | CtPluginPayload \<Rightarrow> decode_PluginPayload buf)))"

fun wf_control_frame :: "control_frame \<Rightarrow> bool" where
  "wf_control_frame (Goodbye departing_id reason) \<longleftrightarrow> wf_node_id departing_id"
| "wf_control_frame Rekey \<longleftrightarrow> True"
| "wf_control_frame (Ping nonce) \<longleftrightarrow> True"
| "wf_control_frame (Pong nonce) \<longleftrightarrow> True"
| "wf_control_frame (PeerInfo x25519_pub friendly_name) \<longleftrightarrow>
     length x25519_pub = 32 \<and> utf8_valid friendly_name \<and> length friendly_name \<le> 255"
| "wf_control_frame (PluginPayload kind body) \<longleftrightarrow>
     utf8_valid kind \<and> length kind \<le> 255 \<and> length body \<le> 65535"

lemmas control_decoders = ControlFrame_decode_def decode_Goodbye_def decode_nonce_def
  decode_PeerInfo_def decode_PluginPayload_def

lemma ControlFrame_decode_encode:
  "wf_control_frame f \<Longrightarrow> ControlFrame_decode (ControlFrame_encode f @ rest) = Ok (f, rest)"
proof (cases f)
  case (PeerInfo x name)
  assume "wf_control_frame f"
  with PeerInfo show ?thesis
    by (simp add: control_decoders Let_def ControlType_from_u8_def nth_append unat_of_nat drop_Cons')
next
  case (PluginPayload kind body)
  assume "wf_control_frame f"
  with PluginPayload show ?thesis
    by (simp add: control_decoders ControlType_from_u8_def nth_append unat_of_nat)
qed (simp_all add: control_decoders ControlType_from_u8_def nth_append wf_node_id_def
    NodeId_from_bytes_def)

lemma ControlType_from_u8_no_panic [simp]: "ControlType_from_u8 v \<noteq> Panic"
  by (simp add: ControlType_from_u8_def)

lemma control_arms_no_panic [simp]:
  "decode_Goodbye buf \<noteq> Panic" "decode_nonce e mk buf \<noteq> Panic" "decode_PeerInfo buf \<noteq> Panic"
  "decode_PluginPayload buf \<noteq> Panic"
  by (simp_all add: control_decoders Let_def and_then_eq_Panic)

lemma control_arms_Ok:
  "decode_Goodbye buf = Ok (f, rest) \<Longrightarrow> wf_control_frame f \<and> consumed buf rest"
  "decode_nonce e mk buf = Ok (f, rest) \<Longrightarrow> (\<exists>n. f = mk n) \<and> consumed buf rest"
  "decode_PeerInfo buf = Ok (f, rest) \<Longrightarrow> wf_control_frame f \<and> consumed buf rest"
  "decode_PluginPayload buf = Ok (f, rest) \<Longrightarrow> wf_control_frame f \<and> consumed buf rest"
  by (auto simp: control_decoders Let_def and_then_eq_Ok access_eq_Ok wf_node_id_def
      NodeId_from_bytes_def min_le_iff_disj unat_le split: if_splits)

lemma ControlFrame_decode_no_panic: "ControlFrame_decode buf \<noteq> Panic"
  by (cases buf) (auto simp: ControlFrame_decode_def and_then_eq_Panic split: control_type.split)

lemma ControlFrame_decode_Ok:
  assumes "ControlFrame_decode buf = Ok (f, rest)"
  shows "wf_control_frame f \<and> consumed buf rest"
proof -
  obtain t where "buf \<noteq> []" "ControlType_from_u8 (buf ! 0) = Ok t"
    using assms by (auto simp: ControlFrame_decode_def and_then_eq_Ok access_eq_Ok split: if_splits)
  with assms show ?thesis
    by (cases t) (auto simp: ControlFrame_decode_def consumed_def Suc_le_eq dest!: control_arms_Ok)
qed

interpretation control_codec:
  frame_codec ControlFrame_encode ControlFrame_decode wf_control_frame
  by unfold_locales
    (fact ControlFrame_decode_encode ControlFrame_decode_no_panic ControlFrame_decode_Ok)+

section \<open>Route updates\<close>

record route_entry =
  re_destination :: node_id
  re_hops :: u8
  re_flags :: u8
  re_mesh_ip :: bytes

definition RouteEntry_is_gateway :: "route_entry \<Rightarrow> bool" where
  "RouteEntry_is_gateway e \<longleftrightarrow> re_flags e AND 1 \<noteq> 0"

record route_update_frame =
  ru_origin_id :: node_id
  ru_sequence :: u64
  ru_entries :: "route_entry list"
  ru_signature :: bytes

definition RU_HEADER_SIZE :: nat where "RU_HEADER_SIZE = 16 + 8 + 2"
definition ENTRY_SIZE :: nat where "ENTRY_SIZE = 16 + 1 + 1 + 4"
definition SIGNATURE_SIZE :: nat where "SIGNATURE_SIZE = 64"
definition MAX_ENTRIES :: u16 where "MAX_ENTRIES = 1000"

definition encode_entry :: "route_entry \<Rightarrow> bytes" where
  "encode_entry e = as_bytes (re_destination e) @ [re_hops e] @ [re_flags e] @ re_mesh_ip e"

definition RouteUpdateFrame_encode :: "route_update_frame \<Rightarrow> bytes" where
  "RouteUpdateFrame_encode f =
     as_bytes (ru_origin_id f) @ be64 (ru_sequence f) @ be16 (of_nat (length (ru_entries f)))
     @ concat (map encode_entry (ru_entries f)) @ ru_signature f"

text \<open>The loop over the entries, with the running offset; it returns the offset it stops at.\<close>

fun decode_entries ::
  "bytes \<Rightarrow> nat \<Rightarrow> nat \<Rightarrow> (pim_error, route_entry list \<times> nat) outcome" where
  "decode_entries buf 0 offset = Ok ([], offset)"
| "decode_entries buf (Suc n) offset =
     and_then (subslice buf offset (offset + 16)) (\<lambda>dest.
     and_then (index buf (offset + 16)) (\<lambda>hops.
     and_then (index buf (offset + 17)) (\<lambda>flags.
     and_then (subslice buf (offset + 18) (offset + 22)) (\<lambda>mesh_ip.
     and_then (decode_entries buf n (offset + ENTRY_SIZE)) (\<lambda>(entries, offset).
       Ok (\<lparr>re_destination = NodeId_from_bytes dest, re_hops = hops, re_flags = flags,
            re_mesh_ip = mesh_ip\<rparr> # entries, offset))))))"

definition RouteUpdateFrame_decode :: "bytes \<Rightarrow> (pim_error, route_update_frame \<times> bytes) outcome"
  where
  "RouteUpdateFrame_decode buf =
     (if length buf < RU_HEADER_SIZE then Err (Protocol RouteUpdateTooShort)
      else and_then (subslice buf 0 16) (\<lambda>origin_bytes.
        and_then (subslice buf 16 24) (\<lambda>sq.
        and_then (subslice buf 24 26) (\<lambda>ec.
          let entry_count = of_be16 ec in
          if entry_count > MAX_ENTRIES then Err (Protocol (TooManyRouteEntries entry_count))
          else
            let total = RU_HEADER_SIZE + unat entry_count * ENTRY_SIZE + SIGNATURE_SIZE in
            if length buf < total
            then Err (Protocol (RouteUpdateTruncated total (length buf)))
            else and_then (decode_entries buf (unat entry_count) RU_HEADER_SIZE)
              (\<lambda>(entries, offset).
              and_then (subslice buf offset (offset + SIGNATURE_SIZE)) (\<lambda>signature.
              and_then (advance buf total) (\<lambda>buf.
                Ok (\<lparr>ru_origin_id = NodeId_from_bytes origin_bytes, ru_sequence = of_be64 sq,
                     ru_entries = entries, ru_signature = signature\<rparr>, buf))))))))"

definition wf_route_entry :: "route_entry \<Rightarrow> bool" where
  "wf_route_entry e \<longleftrightarrow> wf_node_id (re_destination e) \<and> length (re_mesh_ip e) = 4"

definition wf_route_update_frame :: "route_update_frame \<Rightarrow> bool" where
  "wf_route_update_frame f \<longleftrightarrow>
     wf_node_id (ru_origin_id f) \<and> length (ru_signature f) = 64
     \<and> length (ru_entries f) \<le> unat MAX_ENTRIES \<and> (\<forall>e\<in>set (ru_entries f). wf_route_entry e)"

lemmas route_frame_defs = RU_HEADER_SIZE_def ENTRY_SIZE_def SIGNATURE_SIZE_def MAX_ENTRIES_def

lemma length_encode_entry: "wf_route_entry e \<Longrightarrow> length (encode_entry e) = 22"
  by (simp add: encode_entry_def wf_route_entry_def wf_node_id_def)

lemma length_encode_entries:
  "\<forall>e\<in>set es. wf_route_entry e \<Longrightarrow> length (concat (map encode_entry es)) = 22 * length es"
  by (induction es) (simp_all add: length_encode_entry)

lemma decode_entries_encode:
  assumes "\<forall>e\<in>set es. wf_route_entry e"
  shows "decode_entries (pre @ concat (map encode_entry es) @ rest) (length es) (length pre)
           = Ok (es, length pre + 22 * length es)"
  using assms
proof (induction es arbitrary: pre)
  case (Cons e es)
  have "decode_entries ((pre @ encode_entry e) @ concat (map encode_entry es) @ rest) (length es)
          (length (pre @ encode_entry e)) = Ok (es, length (pre @ encode_entry e) + 22 * length es)"
    using Cons.prems by (intro Cons.IH) simp
  with Cons.prems show ?case
    by (simp add: length_encode_entry ENTRY_SIZE_def)
      (simp add: encode_entry_def wf_route_entry_def wf_node_id_def nth_append
        NodeId_from_bytes_def)
qed simp

lemma RouteUpdateFrame_decode_encode:
  assumes "wf_route_update_frame f"
  shows "RouteUpdateFrame_decode (RouteUpdateFrame_encode f @ rest) = Ok (f, rest)"
proof -
  let ?pre = "as_bytes (ru_origin_id f) @ be64 (ru_sequence f) @ be16 (of_nat (length (ru_entries f)))"
  have len: "length ?pre = 26" "length (concat (map encode_entry (ru_entries f))) = 22 * length (ru_entries f)"
    using assms length_encode_entries by (simp_all add: wf_route_update_frame_def wf_node_id_def)
  have "decode_entries (?pre @ concat (map encode_entry (ru_entries f)) @ ru_signature f @ rest)
      (length (ru_entries f)) (length ?pre) = Ok (ru_entries f, length ?pre + 22 * length (ru_entries f))"
    using assms by (intro decode_entries_encode) (simp add: wf_route_update_frame_def)
  with len assms show ?thesis
    by (simp add: RouteUpdateFrame_decode_def RouteUpdateFrame_encode_def wf_route_update_frame_def
        wf_node_id_def route_frame_defs NodeId_from_bytes_def unat_of_nat word_less_nat_alt)
qed

lemma decode_entries_in_range:
  assumes "offset + 22 * n \<le> length buf"
  shows "\<exists>es. decode_entries buf n offset = Ok (es, offset + 22 * n) \<and> length es = n
              \<and> (\<forall>e\<in>set es. wf_route_entry e)"
  using assms
proof (induction n arbitrary: offset)
  case (Suc n)
  have "offset + 22 + 22 * n \<le> length buf" using Suc.prems by simp
  from Suc.IH [OF this] Suc.prems show ?case
    by (auto simp: ENTRY_SIZE_def wf_route_entry_def wf_node_id_def NodeId_from_bytes_def)
qed simp

lemma RouteUpdateFrame_decode_no_panic: "RouteUpdateFrame_decode buf \<noteq> Panic"
  using decode_entries_in_range [of 26 "unat (of_be16 (take 2 (drop 24 buf)))" buf]
  by (auto simp: RouteUpdateFrame_decode_def Let_def and_then_eq_Panic route_frame_defs not_less)

lemma RouteUpdateFrame_decode_Ok:
  "RouteUpdateFrame_decode buf = Ok (f, rest) \<Longrightarrow> wf_route_update_frame f \<and> consumed buf rest"
  using decode_entries_in_range [of 26 "unat (of_be16 (take 2 (drop 24 buf)))" buf]
  by (auto simp: RouteUpdateFrame_decode_def Let_def and_then_eq_Ok access_eq_Ok route_frame_defs
      wf_route_update_frame_def wf_node_id_def NodeId_from_bytes_def not_less word_le_nat_alt
      split: if_splits)

interpretation route_codec:
  frame_codec RouteUpdateFrame_encode RouteUpdateFrame_decode wf_route_update_frame
  by unfold_locales
    (fact RouteUpdateFrame_decode_encode RouteUpdateFrame_decode_no_panic
      RouteUpdateFrame_decode_Ok)+

text \<open>The encoder does not enforce the entry limit the decoder has.\<close>

lemma RouteUpdateFrame_decode_too_many:
  assumes "wf_node_id (ru_origin_id f)" "1000 < length (ru_entries f)" "length (ru_entries f) < 65536"
  shows "RouteUpdateFrame_decode (RouteUpdateFrame_encode f @ rest) =
     Err (Protocol (TooManyRouteEntries (of_nat (length (ru_entries f)))))"
proof -
  have "MAX_ENTRIES < of_nat (length (ru_entries f))"
    using assms(2,3) by (simp add: word_less_nat_alt unat_of_nat MAX_ENTRIES_def)
  with assms(1) show ?thesis
    by (simp add: RouteUpdateFrame_decode_def RouteUpdateFrame_encode_def wf_node_id_def
        RU_HEADER_SIZE_def Let_def)
qed

text \<open>
  A friendly name longer than 255 bytes is cut at a byte position, possibly inside a character; the
  receiver then rejects the whole message.
\<close>

lemma utf8_valid_ascii_append:
  "(\<And>b. b \<in> set s \<Longrightarrow> b < 0x80) \<Longrightarrow> utf8_valid (s @ t) = utf8_valid t"
  by (induction s) (auto simp: utf8_valid_ascii_Cons)

lemma PeerInfo_name_cut:
  assumes "length x = 32"
  defines "name \<equiv> replicate 254 0x61 @ [0xC3, 0xA9]"
  shows "utf8_valid name"
    and "ControlFrame_decode (ControlFrame_encode (PeerInfo x name)) =
           Err (Protocol FriendlyNameNotUtf8)"
proof -
  have a: "utf8_valid (replicate 254 0x61 @ t) = utf8_valid t" for t
    by (rule utf8_valid_ascii_append) (simp add: set_replicate_conv_if)
  show "utf8_valid name" unfolding name_def a by (simp add: utf8_cont_def)
  have b: "take 255 name = replicate 254 0x61 @ [0xC3]" by (simp add: name_def)
  have "length name = 256" by (simp add: name_def)
  with assms(1) show "ControlFrame_decode (ControlFrame_encode (PeerInfo x name)) =
      Err (Protocol FriendlyNameNotUtf8)"
    by (simp add: control_decoders ControlType_from_u8_def nth_append b a del: replicate.simps)
qed

end
