(* ===== verification/Routing_Table.thy ===== *)
theory Routing_Table
  imports Control_Frames
begin

text \<open>
  The distance-vector routing table (\<^verbatim>\<open>pim-routing/src/table.rs\<close>): every operation that changes
  the table, the advertisements it generates and its lookups. Times are passed in where the code
  reads the clock; the logging of advertised addresses that do not match their derivation is left
  out because it changes nothing.
\<close>

section \<open>Entries\<close>

definition INFINITY :: u8 where "INFINITY = 16"

record route_table_entry =
  rt_next_hop :: node_id
  rt_hops :: u8
  rt_is_gateway :: bool
  rt_last_seen :: instant
  rt_learned_from :: node_id
  rt_sequence :: u64
  rt_gateway_load :: u8
  rt_rtt_ms :: "u32 option"
  rt_mesh_ip :: "ipv4 option"

definition gateway_score :: "u8 \<Rightarrow> u8 \<Rightarrow> u32 option \<Rightarrow> u32" where
  "gateway_score hops load rtt_ms =
     ucast hops * 100 + ucast load div 2 + (case rtt_ms of None \<Rightarrow> 0 | Some r \<Rightarrow> r) div 10"

definition entry_score :: "route_table_entry \<Rightarrow> u32" where
  "entry_score e = gateway_score (rt_hops e) (rt_gateway_load e) (rt_rtt_ms e)"

definition RouteTableEntry_is_expired :: "instant \<Rightarrow> duration \<Rightarrow> route_table_entry \<Rightarrow> bool" where
  "RouteTableEntry_is_expired now max_age e \<longleftrightarrow> now - rt_last_seen e > max_age"

datatype update_result = Changed | Unchanged

section \<open>The table\<close>

record routing_table =
  tb_self_id :: node_id
  tb_is_gateway :: bool
  tb_routes :: "(node_id, route_table_entry) hash_map"
  tb_direct_peers :: "node_id list"
  tb_sequence :: u64
  tb_peer_max_seq :: "(node_id, u64) hash_map"
  tb_blacklisted_peers :: "node_id set"
  tb_self_mesh_ip :: "ipv4 option"
  tb_mesh_ip_index :: "(ipv4, node_id) hash_map"
  tb_ipv4_prefix :: ipv4_prefix
  tb_mesh_ip_collisions_total :: u64

definition RoutingTable_new :: "node_id \<Rightarrow> bool \<Rightarrow> ipv4_prefix \<Rightarrow> routing_table" where
  "RoutingTable_new self_id is_gateway prefix =
     \<lparr>tb_self_id = self_id, tb_is_gateway = is_gateway, tb_routes = [], tb_direct_peers = [],
      tb_sequence = 0, tb_peer_max_seq = [], tb_blacklisted_peers = {}, tb_self_mesh_ip = None,
      tb_mesh_ip_index = [], tb_ipv4_prefix = prefix, tb_mesh_ip_collisions_total = 0\<rparr>"

definition set_ipv4_prefix :: "ipv4_prefix \<Rightarrow> routing_table \<Rightarrow> routing_table" where
  "set_ipv4_prefix prefix tb = tb\<lparr>tb_ipv4_prefix := prefix\<rparr>"

definition set_self_mesh_ip :: "ipv4 \<Rightarrow> routing_table \<Rightarrow> routing_table" where
  "set_self_mesh_ip ip tb = tb\<lparr>tb_self_mesh_ip := Some ip\<rparr>"

definition insert_route ::
  "blake3 \<Rightarrow> node_id \<Rightarrow> route_table_entry \<Rightarrow> routing_table \<Rightarrow> routing_table" where
  "insert_route B dst entry tb =
     (let derived = derive_mesh_ipv4 B dst (tb_ipv4_prefix tb);
          entry = entry\<lparr>rt_mesh_ip := Some derived\<rparr>;
          tb = (case hm_get (tb_routes tb) dst of
                  Some old \<Rightarrow>
                    if rt_mesh_ip old \<noteq> Some derived then
                      (case rt_mesh_ip old of
                         Some old_ip \<Rightarrow>
                           tb\<lparr>tb_mesh_ip_index := hm_remove old_ip (tb_mesh_ip_index tb)\<rparr>
                       | None \<Rightarrow> tb)
                    else tb
                | None \<Rightarrow> tb);
          tb = (case hm_get (tb_mesh_ip_index tb) derived of
                  Some existing \<Rightarrow>
                    if existing \<noteq> dst
                    then tb\<lparr>tb_mesh_ip_collisions_total := tb_mesh_ip_collisions_total tb + 1\<rparr>
                    else tb\<lparr>tb_mesh_ip_index := hm_insert derived dst (tb_mesh_ip_index tb)\<rparr>
                | None \<Rightarrow> tb\<lparr>tb_mesh_ip_index := hm_insert derived dst (tb_mesh_ip_index tb)\<rparr>)
      in tb\<lparr>tb_routes := hm_insert dst entry (tb_routes tb)\<rparr>)"

definition remove_route :: "node_id \<Rightarrow> routing_table \<Rightarrow> routing_table" where
  "remove_route dst tb =
     (case hm_get (tb_routes tb) dst of
        None \<Rightarrow> tb
      | Some entry \<Rightarrow>
          let tb = tb\<lparr>tb_routes := hm_remove dst (tb_routes tb)\<rparr>
          in case rt_mesh_ip entry of
               Some ip \<Rightarrow>
                 if hm_get (tb_mesh_ip_index tb) ip = Some dst
                 then tb\<lparr>tb_mesh_ip_index := hm_remove ip (tb_mesh_ip_index tb)\<rparr>
                 else tb
             | None \<Rightarrow> tb)"

definition remove_routes :: "node_id list \<Rightarrow> routing_table \<Rightarrow> routing_table" where
  "remove_routes dsts tb = fold remove_route dsts tb"

definition hs_insert :: "'a \<Rightarrow> 'a list \<Rightarrow> 'a list" where
  "hs_insert x xs = (if x \<in> set xs then xs else xs @ [x])"

definition add_peer :: "blake3 \<Rightarrow> instant \<Rightarrow> node_id \<Rightarrow> routing_table \<Rightarrow> routing_table" where
  "add_peer B now peer_id tb =
     insert_route B peer_id
       \<lparr>rt_next_hop = peer_id, rt_hops = 1, rt_is_gateway = False, rt_last_seen = now,
        rt_learned_from = peer_id, rt_sequence = 0, rt_gateway_load = 0, rt_rtt_ms = None,
        rt_mesh_ip = None\<rparr>
       (tb\<lparr>tb_direct_peers := hs_insert peer_id (tb_direct_peers tb)\<rparr>)"

definition remove_routes_via :: "node_id \<Rightarrow> routing_table \<Rightarrow> update_result \<times> routing_table" where
  "remove_routes_via peer tb =
     (let to_remove = map fst (filter (\<lambda>(_, e). rt_next_hop e = peer) (tb_routes tb))
      in if to_remove = [] then (Unchanged, tb) else (Changed, remove_routes to_remove tb))"

definition remove_peer :: "node_id \<Rightarrow> routing_table \<Rightarrow> update_result \<times> routing_table" where
  "remove_peer peer_id tb =
     (let tb = tb\<lparr>tb_direct_peers := filter (\<lambda>p. p \<noteq> peer_id) (tb_direct_peers tb)\<rparr>;
          tb = tb\<lparr>tb_peer_max_seq := hm_remove peer_id (tb_peer_max_seq tb)\<rparr>
      in remove_routes_via peer_id tb)"

subsection \<open>Processing an advertisement\<close>

definition fresh_entry ::
  "instant \<Rightarrow> node_id \<Rightarrow> u8 \<Rightarrow> bool \<Rightarrow> u64 \<Rightarrow> u8 \<Rightarrow> u32 option \<Rightarrow> route_table_entry" where
  "fresh_entry now via hops is_gw sq load rtt =
     \<lparr>rt_next_hop = via, rt_hops = hops, rt_is_gateway = is_gw, rt_last_seen = now,
      rt_learned_from = via, rt_sequence = sq, rt_gateway_load = load, rt_rtt_ms = rtt,
      rt_mesh_ip = None\<rparr>"

definition advertised_hops_plus_one :: "u8 \<Rightarrow> u8" where
  "advertised_hops_plus_one h = ucast (min (ucast h + 1 :: u16) (ucast INFINITY))"

text \<open>One iteration of the loop over the advertised entries.\<close>

definition apply_entry ::
  "blake3 \<Rightarrow> instant \<Rightarrow> u64 \<Rightarrow> node_id \<Rightarrow> route_entry \<Rightarrow> routing_table \<times> bool
     \<Rightarrow> routing_table \<times> bool" where
  "apply_entry B now sq from_peer advertised st =
     (case st of (tb, changed) \<Rightarrow>
        let dst = re_destination advertised in
        if dst = tb_self_id tb then (tb, changed)
        else
          let new_hops = advertised_hops_plus_one (re_hops advertised) in
          if new_hops \<ge> INFINITY then
            (case hm_get (tb_routes tb) dst of
               Some existing \<Rightarrow>
                 if rt_next_hop existing = from_peer
                 then (remove_route dst tb, True)
                 else (tb, changed)
             | None \<Rightarrow> (tb, changed))
          else
            let is_gw = RouteEntry_is_gateway advertised in
            case hm_get (tb_routes tb) dst of
              None \<Rightarrow>
                (insert_route B dst (fresh_entry now from_peer new_hops is_gw sq 0 None) tb, True)
            | Some existing \<Rightarrow>
                let better_path = new_hops < rt_hops existing;
                    same_peer_refresh = (rt_next_hop existing = from_peer);
                    newer_seq = (sq > rt_sequence existing \<and> same_peer_refresh)
                in if better_path \<or> newer_seq then
                     let gateway_flag_flipped = (rt_is_gateway existing \<noteq> is_gw);
                         (prev_load, prev_rtt) =
                           (if rt_is_gateway existing \<and> \<not> better_path
                            then (rt_gateway_load existing, rt_rtt_ms existing)
                            else (0, None))
                     in (insert_route B dst
                           (fresh_entry now from_peer new_hops is_gw sq prev_load prev_rtt) tb,
                         changed \<or> better_path \<or> gateway_flag_flipped)
                   else (tb, changed))"

definition apply_entries ::
  "blake3 \<Rightarrow> instant \<Rightarrow> u64 \<Rightarrow> node_id \<Rightarrow> route_entry list \<Rightarrow> routing_table \<times> bool
     \<Rightarrow> routing_table \<times> bool" where
  "apply_entries B now sq from_peer es st = fold (apply_entry B now sq from_peer) es st"

text \<open>The advertising peer itself: refreshed, or added at one hop.\<close>

definition touch_peer ::
  "blake3 \<Rightarrow> instant \<Rightarrow> u64 \<Rightarrow> node_id \<Rightarrow> routing_table \<Rightarrow> routing_table \<times> bool" where
  "touch_peer B now sq from_peer tb =
     (case hm_get (tb_routes tb) from_peer of
        Some entry \<Rightarrow>
          (tb\<lparr>tb_routes := hm_insert from_peer (entry\<lparr>rt_last_seen := now\<rparr>) (tb_routes tb)\<rparr>, False)
      | None \<Rightarrow> (insert_route B from_peer (fresh_entry now from_peer 1 False sq 0 None) tb, True))"

definition withdrawn_routes ::
  "node_id \<Rightarrow> node_id set \<Rightarrow> routing_table \<Rightarrow> node_id list" where
  "withdrawn_routes from_peer advertised_destinations tb =
     map fst (filter (\<lambda>(dst, e). rt_learned_from e = from_peer \<and> dst \<noteq> from_peer
                                 \<and> dst \<notin> advertised_destinations) (tb_routes tb))"

definition apply_update ::
  "blake3 \<Rightarrow> instant \<Rightarrow> route_update_frame \<Rightarrow> node_id \<Rightarrow> routing_table
     \<Rightarrow> update_result \<times> routing_table" where
  "apply_update B now update from_peer tb =
     (if ru_origin_id update \<noteq> from_peer then (Unchanged, tb)
      else
        let last_seq = (case hm_get (tb_peer_max_seq tb) from_peer of Some s \<Rightarrow> s | None \<Rightarrow> 0) in
        if ru_sequence update \<le> last_seq then (Unchanged, tb)
        else
          let tb = tb\<lparr>tb_peer_max_seq := hm_insert from_peer (ru_sequence update)
                                            (tb_peer_max_seq tb)\<rparr>;
              suspicious = list_ex (\<lambda>e. re_hops e = 0 \<and> re_destination e \<noteq> ru_origin_id update)
                             (ru_entries update)
          in if suspicious then (Unchanged, tb)
             else
               let advertised_destinations = set (map re_destination (ru_entries update));
                   (tb, changed) =
                     apply_entries B now (ru_sequence update) from_peer (ru_entries update)
                       (touch_peer B now (ru_sequence update) from_peer tb);
                   withdrawn = withdrawn_routes from_peer advertised_destinations tb;
                   changed = (changed \<or> withdrawn \<noteq> []);
                   tb = remove_routes withdrawn tb
               in (if changed then Changed else Unchanged, tb))"

subsection \<open>Generating advertisements\<close>

definition unwrap_ip :: "ipv4 option \<Rightarrow> ipv4" where
  "unwrap_ip ip = (case ip of Some a \<Rightarrow> a | None \<Rightarrow> 0)"

definition advertise_entry :: "node_id \<Rightarrow> node_id \<times> route_table_entry \<Rightarrow> route_entry" where
  "advertise_entry to_peer r =
     (case r of (dst, entry) \<Rightarrow>
        let advertised_hops = (if rt_learned_from entry = to_peer then INFINITY else rt_hops entry)
        in \<lparr>re_destination = dst, re_hops = advertised_hops,
            re_flags = (if rt_is_gateway entry then 1 else 0),
            re_mesh_ip = be32 (unwrap_ip (rt_mesh_ip entry))\<rparr>)"

definition generate_advertisement ::
  "node_id \<Rightarrow> routing_table \<Rightarrow> route_update_frame \<times> routing_table" where
  "generate_advertisement to_peer tb =
     (let tb = tb\<lparr>tb_sequence := tb_sequence tb + 1\<rparr>;
          self_entry = \<lparr>re_destination = tb_self_id tb, re_hops = 0,
                        re_flags = (if tb_is_gateway tb then 1 else 0),
                        re_mesh_ip = be32 (unwrap_ip (tb_self_mesh_ip tb))\<rparr>;
          entries = self_entry
            # map (advertise_entry to_peer) (filter (\<lambda>(dst, _). dst \<noteq> to_peer) (tb_routes tb))
      in (\<lparr>ru_origin_id = tb_self_id tb, ru_sequence = tb_sequence tb, ru_entries = entries,
           ru_signature = replicate 64 0\<rparr>, tb))"

fun advertise_to_all ::
  "node_id list \<Rightarrow> routing_table \<Rightarrow> (node_id \<times> route_update_frame) list \<times> routing_table" where
  "advertise_to_all [] tb = ([], tb)"
| "advertise_to_all (peer # peers) tb =
     (let (frame, tb) = generate_advertisement peer tb;
          (frames, tb) = advertise_to_all peers tb
      in ((peer, frame) # frames, tb))"

definition generate_all_advertisements ::
  "routing_table \<Rightarrow> (node_id \<times> route_update_frame) list \<times> routing_table" where
  "generate_all_advertisements tb = advertise_to_all (tb_direct_peers tb) tb"

subsection \<open>Blacklist and lookups\<close>

definition blacklist_peer :: "node_id \<Rightarrow> routing_table \<Rightarrow> update_result \<times> routing_table" where
  "blacklist_peer peer_id tb =
     (let tb = tb\<lparr>tb_blacklisted_peers := insert peer_id (tb_blacklisted_peers tb)\<rparr>
      in remove_routes_via peer_id tb)"

definition unblacklist_peer :: "node_id \<Rightarrow> routing_table \<Rightarrow> routing_table" where
  "unblacklist_peer peer_id tb = tb\<lparr>tb_blacklisted_peers := tb_blacklisted_peers tb - {peer_id}\<rparr>"

definition is_blacklisted :: "node_id \<Rightarrow> routing_table \<Rightarrow> bool" where
  "is_blacklisted peer_id tb \<longleftrightarrow> peer_id \<in> tb_blacklisted_peers tb"

definition lookup :: "node_id \<Rightarrow> routing_table \<Rightarrow> node_id option" where
  "lookup dst tb =
     (if dst = tb_self_id tb then None
      else (case hm_get (tb_routes tb) dst of
              None \<Rightarrow> None
            | Some e \<Rightarrow> if rt_next_hop e \<in> tb_blacklisted_peers tb then None
                        else Some (rt_next_hop e)))"

definition lookup_mesh_ip :: "ipv4 \<Rightarrow> routing_table \<Rightarrow> (node_id \<times> node_id) option" where
  "lookup_mesh_ip mesh_ip tb =
     (case hm_get (tb_mesh_ip_index tb) mesh_ip of
        None \<Rightarrow> None
      | Some dst \<Rightarrow>
          (case hm_get (tb_routes tb) dst of
             None \<Rightarrow> None
           | Some entry \<Rightarrow>
               if rt_next_hop entry \<in> tb_blacklisted_peers tb then None
               else Some (dst, rt_next_hop entry)))"

text \<open>\<^verbatim>\<open>Iterator::min_by_key\<close> returns the first of several minimal elements.\<close>

fun min_by_key :: "('a \<Rightarrow> 'k::linorder) \<Rightarrow> 'a list \<Rightarrow> 'a option" where
  "min_by_key key [] = None"
| "min_by_key key (x # xs) =
     (case min_by_key key xs of
        None \<Rightarrow> Some x
      | Some y \<Rightarrow> if key x \<le> key y then Some x else Some y)"

definition usable_gateway :: "routing_table \<Rightarrow> route_table_entry \<Rightarrow> bool" where
  "usable_gateway tb e \<longleftrightarrow>
     rt_is_gateway e \<and> rt_hops e < INFINITY \<and> rt_next_hop e \<notin> tb_blacklisted_peers tb"

definition best_gateway_entry :: "routing_table \<Rightarrow> (node_id \<times> route_table_entry) option" where
  "best_gateway_entry tb =
     min_by_key (\<lambda>(_, e). entry_score e) (filter (\<lambda>(_, e). usable_gateway tb e) (tb_routes tb))"

definition nearest_gateway :: "routing_table \<Rightarrow> (node_id \<times> u8) option" where
  "nearest_gateway tb =
     (if tb_is_gateway tb then None
      else map_option (\<lambda>(_, e). (rt_next_hop e, rt_hops e)) (best_gateway_entry tb))"

definition nearest_gateway_route :: "routing_table \<Rightarrow> (node_id \<times> node_id) option" where
  "nearest_gateway_route tb =
     (if tb_is_gateway tb then None
      else map_option (\<lambda>(dst, e). (dst, rt_next_hop e)) (best_gateway_entry tb))"

definition nearest_gateway_mesh_ip :: "routing_table \<Rightarrow> ipv4 option" where
  "nearest_gateway_mesh_ip tb =
     (if tb_is_gateway tb then None
      else Option.bind (best_gateway_entry tb) (\<lambda>(_, e). rt_mesh_ip e))"

text \<open>The stable sort of \<^verbatim>\<open>sort_by_key\<close>; the key looks the entry up again, as the code does.\<close>

definition all_gateways :: "routing_table \<Rightarrow> (node_id \<times> u8) list" where
  "all_gateways tb =
     (let gateways = map (\<lambda>(dst, e). (dst, rt_hops e))
            (filter (\<lambda>(_, e). rt_is_gateway e \<and> rt_hops e < INFINITY) (tb_routes tb))
      in sort_key (\<lambda>(dst, _). entry_score (the (hm_get (tb_routes tb) dst))) gateways)"

subsection \<open>Metrics and maintenance\<close>

definition update_gateway_load :: "node_id \<Rightarrow> u8 \<Rightarrow> routing_table \<Rightarrow> routing_table" where
  "update_gateway_load gw_id load tb =
     (case hm_get (tb_routes tb) gw_id of
        Some entry \<Rightarrow>
          if rt_is_gateway entry
          then tb\<lparr>tb_routes := hm_insert gw_id (entry\<lparr>rt_gateway_load := load\<rparr>) (tb_routes tb)\<rparr>
          else tb
      | None \<Rightarrow> tb)"

definition update_gateway_rtt :: "node_id \<Rightarrow> u32 \<Rightarrow> routing_table \<Rightarrow> routing_table" where
  "update_gateway_rtt gw_id rtt tb =
     (case hm_get (tb_routes tb) gw_id of
        Some entry \<Rightarrow>
          if rt_is_gateway entry
          then tb\<lparr>tb_routes := hm_insert gw_id (entry\<lparr>rt_rtt_ms := Some rtt\<rparr>) (tb_routes tb)\<rparr>
          else tb
      | None \<Rightarrow> tb)"

definition expire_stale :: "instant \<Rightarrow> duration \<Rightarrow> routing_table \<Rightarrow> update_result \<times> routing_table" where
  "expire_stale now max_age tb =
     (let expired = map fst (filter (\<lambda>(_, e). RouteTableEntry_is_expired now max_age e)
                               (tb_routes tb))
      in if expired = [] then (Unchanged, tb) else (Changed, remove_routes expired tb))"

definition route_count :: "routing_table \<Rightarrow> nat" where
  "route_count tb = length (tb_routes tb)"

definition routes_snapshot :: "routing_table \<Rightarrow> (node_id \<times> route_table_entry) list" where
  "routes_snapshot tb = tb_routes tb"

end
