(* ===== verification/Routing_Invariant.thy ===== *)
theory Routing_Invariant
  imports Routing_Table
begin

text \<open>
  The invariant of the routing table, over every sequence of its operations: hop counts are usable
  (between 1 and 15), a route is learned from its own next hop, its sequence number does not exceed
  the last one accepted from that peer, no route leads to the node itself, and the reverse index
  only names nodes whose route carries that address.
\<close>

section \<open>What the two primitive updates change\<close>

lemma insert_route_frame [simp]:
  "tb_self_id (insert_route B dst e tb) = tb_self_id tb"
  "tb_is_gateway (insert_route B dst e tb) = tb_is_gateway tb"
  "tb_direct_peers (insert_route B dst e tb) = tb_direct_peers tb"
  "tb_sequence (insert_route B dst e tb) = tb_sequence tb"
  "tb_peer_max_seq (insert_route B dst e tb) = tb_peer_max_seq tb"
  "tb_blacklisted_peers (insert_route B dst e tb) = tb_blacklisted_peers tb"
  "tb_self_mesh_ip (insert_route B dst e tb) = tb_self_mesh_ip tb"
  "tb_ipv4_prefix (insert_route B dst e tb) = tb_ipv4_prefix tb"
  "tb_routes (insert_route B dst e tb) =
     hm_insert dst (e\<lparr>rt_mesh_ip := Some (derive_mesh_ipv4 B dst (tb_ipv4_prefix tb))\<rparr>) (tb_routes tb)"
  by (simp_all add: insert_route_def Let_def split: option.splits)

lemma remove_route_frame [simp]:
  "tb_self_id (remove_route dst tb) = tb_self_id tb"
  "tb_is_gateway (remove_route dst tb) = tb_is_gateway tb"
  "tb_direct_peers (remove_route dst tb) = tb_direct_peers tb"
  "tb_sequence (remove_route dst tb) = tb_sequence tb"
  "tb_peer_max_seq (remove_route dst tb) = tb_peer_max_seq tb"
  "tb_blacklisted_peers (remove_route dst tb) = tb_blacklisted_peers tb"
  "tb_self_mesh_ip (remove_route dst tb) = tb_self_mesh_ip tb"
  "tb_ipv4_prefix (remove_route dst tb) = tb_ipv4_prefix tb"
  "hm_get (tb_routes (remove_route dst tb)) = (hm_get (tb_routes tb))(dst := None)"
  by (auto simp: remove_route_def Let_def fun_eq_iff split: option.splits)

lemma remove_routes_frame [simp]:
  "tb_self_id (remove_routes ds tb) = tb_self_id tb"
  "tb_is_gateway (remove_routes ds tb) = tb_is_gateway tb"
  "tb_direct_peers (remove_routes ds tb) = tb_direct_peers tb"
  "tb_sequence (remove_routes ds tb) = tb_sequence tb"
  "tb_peer_max_seq (remove_routes ds tb) = tb_peer_max_seq tb"
  "tb_blacklisted_peers (remove_routes ds tb) = tb_blacklisted_peers tb"
  "tb_self_mesh_ip (remove_routes ds tb) = tb_self_mesh_ip tb"
  "tb_ipv4_prefix (remove_routes ds tb) = tb_ipv4_prefix tb"
  "hm_get (tb_routes (remove_routes ds tb)) =
     (\<lambda>d. if d \<in> set ds then None else hm_get (tb_routes tb) d)"
  unfolding remove_routes_def by (induction ds arbitrary: tb) (auto simp: fun_eq_iff)

section \<open>The invariant\<close>

definition last_seq :: "routing_table \<Rightarrow> node_id \<Rightarrow> u64" where
  "last_seq tb p = (case hm_get (tb_peer_max_seq tb) p of Some s \<Rightarrow> s | None \<Rightarrow> 0)"

definition entry_ok :: "routing_table \<Rightarrow> node_id \<Rightarrow> route_table_entry \<Rightarrow> bool" where
  "entry_ok tb dst e \<longleftrightarrow>
     dst \<noteq> tb_self_id tb \<and> 1 \<le> rt_hops e \<and> rt_hops e < INFINITY
     \<and> rt_learned_from e = rt_next_hop e \<and> rt_next_hop e \<noteq> tb_self_id tb
     \<and> rt_sequence e \<le> last_seq tb (rt_next_hop e)"

definition index_sound :: "routing_table \<Rightarrow> bool" where
  "index_sound tb \<longleftrightarrow>
     (\<forall>ip d. hm_get (tb_mesh_ip_index tb) ip = Some d \<longrightarrow>
        (\<exists>e. hm_get (tb_routes tb) d = Some e \<and> rt_mesh_ip e = Some ip))"

definition rt_inv :: "routing_table \<Rightarrow> bool" where
  "rt_inv tb \<longleftrightarrow>
     hm_wf (tb_routes tb) \<and> hm_wf (tb_peer_max_seq tb) \<and> hm_wf (tb_mesh_ip_index tb)
     \<and> distinct (tb_direct_peers tb)
     \<and> (\<forall>dst e. hm_get (tb_routes tb) dst = Some e \<longrightarrow> entry_ok tb dst e)
     \<and> index_sound tb"

lemma entry_ok_cong:
  "tb_self_id tb = tb_self_id tb' \<Longrightarrow> tb_peer_max_seq tb = tb_peer_max_seq tb' \<Longrightarrow>
   entry_ok tb dst e = entry_ok tb' dst e"
  by (simp add: entry_ok_def last_seq_def)

lemma rt_inv_entry: "rt_inv tb \<Longrightarrow> hm_get (tb_routes tb) d = Some e \<Longrightarrow> entry_ok tb d e"
  by (simp add: rt_inv_def)

lemma rt_inv_mem: "rt_inv tb \<Longrightarrow> (d, e) \<in> set (tb_routes tb) \<longleftrightarrow> hm_get (tb_routes tb) d = Some e"
  by (simp add: rt_inv_def hm_get_mem)

lemma rt_inv_index:
  "rt_inv tb \<Longrightarrow> hm_get (tb_mesh_ip_index tb) ip = Some d \<Longrightarrow>
   \<exists>e. hm_get (tb_routes tb) d = Some e \<and> rt_mesh_ip e = Some ip"
  by (simp add: rt_inv_def index_sound_def)

lemma rt_inv_new: "rt_inv (RoutingTable_new self gw pfx)"
  by (simp add: rt_inv_def RoutingTable_new_def index_sound_def)

lemma hm_wf_tables_insert_route:
  "hm_wf (tb_routes tb) \<Longrightarrow> hm_wf (tb_routes (insert_route B dst e tb))"
  "hm_wf (tb_mesh_ip_index tb) \<Longrightarrow> hm_wf (tb_mesh_ip_index (insert_route B dst e tb))"
  by simp (simp add: insert_route_def Let_def split: option.splits)

lemma hm_wf_tables_remove_route:
  "hm_wf (tb_routes tb) \<Longrightarrow> hm_wf (tb_routes (remove_route dst tb))"
  "hm_wf (tb_mesh_ip_index tb) \<Longrightarrow> hm_wf (tb_mesh_ip_index (remove_route dst tb))"
  by (simp_all add: remove_route_def Let_def split: option.splits)

text \<open>
  Inserting a route first drops the address the node had before, so that the index never keeps
  a stale address for it.
\<close>

lemma insert_route_index:
  assumes "hm_get (tb_mesh_ip_index (insert_route B dst e tb)) ip = Some d"
  shows "(d = dst \<and> ip = derive_mesh_ipv4 B dst (tb_ipv4_prefix tb))
    \<or> (hm_get (tb_mesh_ip_index tb) ip = Some d \<and>
        (\<forall>old. hm_get (tb_routes tb) dst = Some old \<longrightarrow> rt_mesh_ip old = Some ip \<longrightarrow>
           ip = derive_mesh_ipv4 B dst (tb_ipv4_prefix tb)))"
  using assms
  by (auto simp: insert_route_def Let_def split: option.splits if_splits)

lemma index_sound_insert_route:
  assumes "index_sound tb"
  shows "index_sound (insert_route B dst e tb)"
  unfolding index_sound_def
proof (intro allI impI)
  fix ip d
  assume "hm_get (tb_mesh_ip_index (insert_route B dst e tb)) ip = Some d"
  from insert_route_index [OF this] assms
  show "\<exists>e'. hm_get (tb_routes (insert_route B dst e tb)) d = Some e' \<and> rt_mesh_ip e' = Some ip"
    by (cases "d = dst") (fastforce simp: index_sound_def)+
qed

lemma remove_route_index:
  assumes "hm_get (tb_mesh_ip_index (remove_route dst tb)) ip = Some d"
  shows "hm_get (tb_mesh_ip_index tb) ip = Some d \<and>
    (\<forall>e. hm_get (tb_routes tb) dst = Some e \<longrightarrow> rt_mesh_ip e = Some ip \<longrightarrow> d \<noteq> dst)"
  using assms by (auto simp: remove_route_def Let_def split: option.splits if_splits)

lemma index_sound_remove_route:
  assumes "index_sound tb"
  shows "index_sound (remove_route dst tb)"
  unfolding index_sound_def
proof (intro allI impI)
  fix ip d
  assume "hm_get (tb_mesh_ip_index (remove_route dst tb)) ip = Some d"
  from remove_route_index [OF this] assms
  show "\<exists>e. hm_get (tb_routes (remove_route dst tb)) d = Some e \<and> rt_mesh_ip e = Some ip"
    unfolding index_sound_def by (cases "d = dst") (metis, simp)
qed

lemma rt_inv_insert_route:
  assumes "rt_inv tb"
    and "entry_ok tb dst (e\<lparr>rt_mesh_ip := Some (derive_mesh_ipv4 B dst (tb_ipv4_prefix tb))\<rparr>)"
  shows "rt_inv (insert_route B dst e tb)"
proof -
  have "entry_ok (insert_route B dst e tb) d e' = entry_ok tb d e'" for d e'
    by (rule entry_ok_cong) simp_all
  with assms show ?thesis
    by (simp add: rt_inv_def hm_wf_tables_insert_route(2) index_sound_insert_route)
qed

lemma rt_inv_remove_route:
  assumes "rt_inv tb"
  shows "rt_inv (remove_route dst tb)"
proof -
  have "entry_ok (remove_route dst tb) d e' = entry_ok tb d e'" for d e'
    by (rule entry_ok_cong) simp_all
  with assms show ?thesis
    by (simp add: rt_inv_def hm_wf_tables_remove_route index_sound_remove_route)
qed

lemma rt_inv_remove_routes: "rt_inv tb \<Longrightarrow> rt_inv (remove_routes ds tb)"
  unfolding remove_routes_def by (induction ds arbitrary: tb) (simp_all add: rt_inv_remove_route)

text \<open>Changing an entry without touching what the invariant speaks about.\<close>

lemma rt_inv_refresh:
  assumes "rt_inv tb" "hm_get (tb_routes tb) dst = Some e"
    and "rt_next_hop e' = rt_next_hop e" "rt_hops e' = rt_hops e"
    and "rt_learned_from e' = rt_learned_from e" "rt_sequence e' = rt_sequence e"
    and "rt_mesh_ip e' = rt_mesh_ip e"
  shows "rt_inv (tb\<lparr>tb_routes := hm_insert dst e' (tb_routes tb)\<rparr>)"
proof -
  let ?tb = "tb\<lparr>tb_routes := hm_insert dst e' (tb_routes tb)\<rparr>"
  have ok: "entry_ok ?tb d x = entry_ok tb d x" for d x by (rule entry_ok_cong) simp_all
  have "entry_ok tb dst e" using assms by (simp add: rt_inv_def)
  then have "entry_ok tb dst e'" using assms(3-7) by (simp add: entry_ok_def)
  moreover have "index_sound ?tb"
    using assms(1,2,7) by (fastforce simp: rt_inv_def index_sound_def)
  ultimately show ?thesis using assms(1) ok by (simp add: rt_inv_def)
qed

section \<open>Every operation keeps it\<close>

lemma fresh_entry_sel [simp]:
  "rt_next_hop (fresh_entry now via h gw sq l r) = via" "rt_hops (fresh_entry now via h gw sq l r) = h"
  "rt_learned_from (fresh_entry now via h gw sq l r) = via"
  "rt_sequence (fresh_entry now via h gw sq l r) = sq"
  "rt_is_gateway (fresh_entry now via h gw sq l r) = gw"
  by (simp_all add: fresh_entry_def)

lemma hops_plus_one: "unat (advertised_hops_plus_one h) = min (unat h + 1) 16"
proof -
  have "unat (ucast h + 1 :: u16) = unat h + 1"
    using unat_less(1) [of h] by (simp add: unat_word_ariths unsigned_ucast_eq take_bit_nat_def)
  then show ?thesis
    by (auto simp: advertised_hops_plus_one_def INFINITY_def min_def word_le_nat_alt unsigned_ucast_eq
        take_bit_nat_def)
qed

lemma rt_inv_add_peer:
  assumes "rt_inv tb" "peer \<noteq> tb_self_id tb"
  shows "rt_inv (add_peer B now peer tb)"
proof -
  let ?tb = "tb\<lparr>tb_direct_peers := hs_insert peer (tb_direct_peers tb)\<rparr>"
  have "rt_inv ?tb"
    using assms by (simp add: rt_inv_def index_sound_def entry_ok_def last_seq_def hs_insert_def)
  then show ?thesis
    unfolding add_peer_def using assms
    by (intro rt_inv_insert_route) (simp_all add: entry_ok_def INFINITY_def)
qed

lemma rt_inv_remove_routes_via: "rt_inv tb \<Longrightarrow> rt_inv (snd (remove_routes_via p tb))"
  by (simp add: remove_routes_via_def Let_def rt_inv_remove_routes)

lemma remove_routes_via_get:
  assumes "hm_wf (tb_routes tb)"
  shows "hm_get (tb_routes (snd (remove_routes_via p tb))) d =
     (case hm_get (tb_routes tb) d of
        None \<Rightarrow> None | Some e \<Rightarrow> if rt_next_hop e = p then None else Some e)"
proof -
  have "d \<in> fst ` set (filter (\<lambda>(_, e). rt_next_hop e = p) (tb_routes tb)) \<longleftrightarrow>
      (\<exists>e. hm_get (tb_routes tb) d = Some e \<and> rt_next_hop e = p)"
    using hm_get_mem [OF assms] by force
  then show ?thesis
    by (auto simp: remove_routes_via_def Let_def filter_empty_conv split: option.splits)
qed

lemma remove_route_update_frame:
  "remove_route d (tb\<lparr>tb_peer_max_seq := m\<rparr>) = (remove_route d tb)\<lparr>tb_peer_max_seq := m\<rparr>"
  by (simp add: remove_route_def Let_def split: option.splits)

lemma remove_routes_update_frame:
  "remove_routes ds (tb\<lparr>tb_peer_max_seq := m\<rparr>) = (remove_routes ds tb)\<lparr>tb_peer_max_seq := m\<rparr>"
  unfolding remove_routes_def
  by (induction ds arbitrary: tb) (simp_all add: remove_route_update_frame)

lemma remove_routes_via_update_frame:
  "snd (remove_routes_via p (tb\<lparr>tb_peer_max_seq := m\<rparr>)) =
     (snd (remove_routes_via p tb))\<lparr>tb_peer_max_seq := m\<rparr>"
  by (simp add: remove_routes_via_def Let_def remove_routes_update_frame)

lemma remove_routes_via_frame [simp]:
  "tb_self_id (snd (remove_routes_via p tb)) = tb_self_id tb"
  "tb_peer_max_seq (snd (remove_routes_via p tb)) = tb_peer_max_seq tb"
  "tb_direct_peers (snd (remove_routes_via p tb)) = tb_direct_peers tb"
  "tb_blacklisted_peers (snd (remove_routes_via p tb)) = tb_blacklisted_peers tb"
  by (simp_all add: remove_routes_via_def Let_def)

text \<open>
  Forgetting the last sequence number of a peer is safe because all its routes go at the same time.
\<close>

lemma rt_inv_remove_peer:
  assumes "rt_inv tb"
  shows "rt_inv (snd (remove_peer p tb))"
proof -
  let ?tb = "tb\<lparr>tb_direct_peers := filter (\<lambda>q. q \<noteq> p) (tb_direct_peers tb)\<rparr>"
  let ?m = "hm_remove p (tb_peer_max_seq tb)"
  define t where "t = snd (remove_routes_via p ?tb)"
  have "rt_inv ?tb"
    using assms by (simp add: rt_inv_def index_sound_def entry_ok_def last_seq_def)
  then have inv: "rt_inv t" by (simp add: t_def rt_inv_remove_routes_via)
  have via: "rt_next_hop e \<noteq> p" if "hm_get (tb_routes t) d = Some e" for d e
    using that remove_routes_via_get [of ?tb p d] assms
    by (simp add: t_def rt_inv_def split: option.splits if_splits)
  have ok: "entry_ok (t\<lparr>tb_peer_max_seq := ?m\<rparr>) d e" if "hm_get (tb_routes t) d = Some e" for d e
    using inv via [OF that] that
    by (simp add: rt_inv_def entry_ok_def last_seq_def) (simp add: t_def)
  have "snd (remove_peer p tb) = t\<lparr>tb_peer_max_seq := ?m\<rparr>"
    by (simp add: remove_peer_def Let_def t_def remove_routes_via_update_frame [symmetric])
  with inv ok show ?thesis
    using assms by (simp add: rt_inv_def index_sound_def)
qed

text \<open>Accepting a newer sequence number keeps every entry in bounds.\<close>

lemma rt_inv_accept_seq:
  assumes "rt_inv tb" "last_seq tb p < sq"
  shows "rt_inv (tb\<lparr>tb_peer_max_seq := hm_insert p sq (tb_peer_max_seq tb)\<rparr>)"
proof -
  let ?tb = "tb\<lparr>tb_peer_max_seq := hm_insert p sq (tb_peer_max_seq tb)\<rparr>"
  have "last_seq tb q \<le> last_seq ?tb q" for q
    using assms(2) by (auto simp: last_seq_def)
  then have "entry_ok ?tb d e" if "entry_ok tb d e" for d e
    using that by (auto simp: entry_ok_def intro: order_trans)
  with assms(1) show ?thesis by (simp add: rt_inv_def index_sound_def)
qed

lemma apply_entry_frame [simp]:
  "tb_self_id (fst (apply_entry B now sq p a st)) = tb_self_id (fst st)"
  "tb_peer_max_seq (fst (apply_entry B now sq p a st)) = tb_peer_max_seq (fst st)"
  "tb_direct_peers (fst (apply_entry B now sq p a st)) = tb_direct_peers (fst st)"
  "tb_blacklisted_peers (fst (apply_entry B now sq p a st)) = tb_blacklisted_peers (fst st)"
  "tb_ipv4_prefix (fst (apply_entry B now sq p a st)) = tb_ipv4_prefix (fst st)"
  by (simp_all add: apply_entry_def Let_def split: prod.splits option.splits)

lemma rt_inv_apply_entry:
  assumes inv: "rt_inv (fst st)" and p: "p \<noteq> tb_self_id (fst st)" "last_seq (fst st) p = sq"
  shows "rt_inv (fst (apply_entry B now sq p a st))"
proof -
  obtain tb changed where st: "st = (tb, changed)" by (cases st)
  have ins: "rt_inv (insert_route B (re_destination a)
      (fresh_entry now p (advertised_hops_plus_one (re_hops a)) gw sq l r) tb)"
    if "re_destination a \<noteq> tb_self_id tb" "advertised_hops_plus_one (re_hops a) < INFINITY" for gw l r
    using assms that hops_plus_one [of "re_hops a"]
    by (intro rt_inv_insert_route) (auto simp: st entry_ok_def word_le_nat_alt)
  from inv show ?thesis
    unfolding st apply_entry_def Let_def prod.case
    by (auto simp: not_le ins rt_inv_remove_route split: option.split prod.split)
qed

lemma rt_inv_apply_entries:
  assumes "rt_inv (fst st)" "p \<noteq> tb_self_id (fst st)" "last_seq (fst st) p = sq"
  shows "rt_inv (fst (apply_entries B now sq p es st))"
  using assms unfolding apply_entries_def
proof (induction es arbitrary: st)
  case (Cons a es)
  have "last_seq (fst (apply_entry B now sq p a st)) p = sq"
    using Cons.prems(3) by (simp add: last_seq_def)
  with Cons rt_inv_apply_entry [of st p sq] show ?case by simp
qed simp

lemma rt_inv_touch_peer:
  assumes "rt_inv tb" "p \<noteq> tb_self_id tb" "last_seq tb p = sq"
  shows "rt_inv (fst (touch_peer B now sq p tb))"
  using assms
  by (auto simp: touch_peer_def entry_ok_def INFINITY_def intro!: rt_inv_insert_route rt_inv_refresh
      split: option.split)

lemma touch_peer_frame [simp]:
  "tb_self_id (fst (touch_peer B now sq p tb)) = tb_self_id tb"
  "tb_peer_max_seq (fst (touch_peer B now sq p tb)) = tb_peer_max_seq tb"
  "tb_direct_peers (fst (touch_peer B now sq p tb)) = tb_direct_peers tb"
  "tb_blacklisted_peers (fst (touch_peer B now sq p tb)) = tb_blacklisted_peers tb"
  "tb_ipv4_prefix (fst (touch_peer B now sq p tb)) = tb_ipv4_prefix tb"
  by (simp_all add: touch_peer_def split: option.split)

text \<open>An accepted update, as the composition of its phases.\<close>

definition accepts_update :: "route_update_frame \<Rightarrow> node_id \<Rightarrow> routing_table \<Rightarrow> bool" where
  "accepts_update u p tb \<longleftrightarrow>
     ru_origin_id u = p \<and> last_seq tb p < ru_sequence u
     \<and> \<not> list_ex (\<lambda>e. re_hops e = 0 \<and> re_destination e \<noteq> ru_origin_id u) (ru_entries u)"

definition after_entries :: "blake3 \<Rightarrow> instant \<Rightarrow> route_update_frame \<Rightarrow> node_id \<Rightarrow> routing_table \<Rightarrow> routing_table"
  where
  "after_entries B now u p tb =
     fst (apply_entries B now (ru_sequence u) p (ru_entries u)
       (touch_peer B now (ru_sequence u) p
         (tb\<lparr>tb_peer_max_seq := hm_insert p (ru_sequence u) (tb_peer_max_seq tb)\<rparr>)))"

lemma apply_update_accepted:
  assumes "accepts_update u p tb"
  shows "snd (apply_update B now u p tb) =
     (let t = after_entries B now u p tb
      in remove_routes (withdrawn_routes p (re_destination ` set (ru_entries u)) t) t)"
proof -
  have o: "ru_origin_id u = p"
    and s: "(ru_sequence u \<le> (case hm_get (tb_peer_max_seq tb) p of Some s \<Rightarrow> s | None \<Rightarrow> 0)) = False"
    and n: "list_ex (\<lambda>e. re_hops e = 0 \<and> re_destination e \<noteq> p) (ru_entries u) = False"
    using assms by (auto simp: accepts_update_def last_seq_def not_le)
  show ?thesis
    unfolding apply_update_def after_entries_def Let_def o s n by (simp add: split_def)
qed

lemma apply_update_not_accepted:
  assumes "\<not> accepts_update u p tb"
  shows "apply_update B now u p tb =
    (Unchanged, if ru_origin_id u = p \<and> last_seq tb p < ru_sequence u
                then tb\<lparr>tb_peer_max_seq := hm_insert p (ru_sequence u) (tb_peer_max_seq tb)\<rparr>
                else tb)"
  using assms by (auto simp: accepts_update_def apply_update_def Let_def last_seq_def not_le)

lemma rt_inv_after_entries:
  assumes "rt_inv tb" "p \<noteq> tb_self_id tb" "accepts_update u p tb"
  shows "rt_inv (after_entries B now u p tb)"
  unfolding after_entries_def using assms
  by (intro rt_inv_apply_entries rt_inv_touch_peer rt_inv_accept_seq)
    (simp_all add: accepts_update_def last_seq_def)

lemma rt_inv_apply_update:
  assumes "rt_inv tb" "p \<noteq> tb_self_id tb"
  shows "rt_inv (snd (apply_update B now u p tb))"
proof (cases "accepts_update u p tb")
  case True
  with assms show ?thesis
    by (simp add: apply_update_accepted Let_def rt_inv_remove_routes rt_inv_after_entries)
next
  case False
  with assms show ?thesis by (simp add: apply_update_not_accepted rt_inv_accept_seq)
qed

end
