(* ===== verification/Routing_Steps.thy ===== *)
theory Routing_Steps
  imports Routing_Invariant
begin

text \<open>
  The routing table as a state machine, its invariant in every reachable state, and the properties
  of distance-vector routing: an accepted advertisement performs exactly one Bellman-Ford
  relaxation per destination, no two neighbours route a destination through each other, updates
  cannot be replayed, blacklisted peers are never used, and the gateway with the lowest score wins.
\<close>

section \<open>The state machine\<close>

datatype rt_event =
    AddPeer instant node_id
  | RemovePeer node_id
  | ApplyUpdate instant route_update_frame node_id
  | Advertise node_id
  | AdvertiseAll
  | BlacklistPeer node_id
  | UnblacklistPeer node_id
  | GatewayLoad node_id u8
  | GatewayRtt node_id u32
  | ExpireStale instant duration
  | SetPrefix ipv4_prefix
  | SetSelfMeshIp ipv4

fun rt_exec :: "blake3 \<Rightarrow> rt_event \<Rightarrow> routing_table \<Rightarrow> routing_table" where
  "rt_exec B (AddPeer now p) tb = add_peer B now p tb"
| "rt_exec B (RemovePeer p) tb = snd (remove_peer p tb)"
| "rt_exec B (ApplyUpdate now u p) tb = snd (apply_update B now u p tb)"
| "rt_exec B (Advertise p) tb = snd (generate_advertisement p tb)"
| "rt_exec B AdvertiseAll tb = snd (generate_all_advertisements tb)"
| "rt_exec B (BlacklistPeer p) tb = snd (blacklist_peer p tb)"
| "rt_exec B (UnblacklistPeer p) tb = unblacklist_peer p tb"
| "rt_exec B (GatewayLoad g l) tb = update_gateway_load g l tb"
| "rt_exec B (GatewayRtt g r) tb = update_gateway_rtt g r tb"
| "rt_exec B (ExpireStale now age) tb = snd (expire_stale now age tb)"
| "rt_exec B (SetPrefix pfx) tb = set_ipv4_prefix pfx tb"
| "rt_exec B (SetSelfMeshIp ip) tb = set_self_mesh_ip ip tb"

text \<open>A node is never its own peer: peers are other nodes.\<close>

fun rt_enabled :: "rt_event \<Rightarrow> routing_table \<Rightarrow> bool" where
  "rt_enabled (AddPeer now p) tb \<longleftrightarrow> p \<noteq> tb_self_id tb"
| "rt_enabled (ApplyUpdate now u p) tb \<longleftrightarrow> p \<noteq> tb_self_id tb"
| "rt_enabled _ tb \<longleftrightarrow> True"

inductive rt_step :: "blake3 \<Rightarrow> routing_table \<Rightarrow> routing_table \<Rightarrow> bool" for B where
  rt_step: "rt_enabled ev tb \<Longrightarrow> rt_step B tb (rt_exec B ev tb)"

inductive_cases rt_stepE: "rt_step B tb tb'"

definition rt_init :: "routing_table \<Rightarrow> bool" where
  "rt_init tb \<longleftrightarrow> (\<exists>self gw pfx. tb = RoutingTable_new self gw pfx)"

lemma generate_advertisement_snd:
  "snd (generate_advertisement p tb) = tb\<lparr>tb_sequence := tb_sequence tb + 1\<rparr>"
  by (simp add: generate_advertisement_def Let_def)

lemma advertise_to_all_snd:
  "snd (advertise_to_all ps tb) = tb\<lparr>tb_sequence := tb_sequence tb + of_nat (length ps)\<rparr>"
  by (induction ps arbitrary: tb)
    (simp_all add: Let_def split_def generate_advertisement_snd ac_simps)

lemma rt_inv_frame_update:
  assumes "rt_inv tb" "tb_routes tb' = tb_routes tb" "tb_peer_max_seq tb' = tb_peer_max_seq tb"
    "tb_mesh_ip_index tb' = tb_mesh_ip_index tb" "tb_direct_peers tb' = tb_direct_peers tb"
    "tb_self_id tb' = tb_self_id tb"
  shows "rt_inv tb'"
  using assms entry_ok_cong [of tb' tb] by (simp add: rt_inv_def index_sound_def)

lemma rt_inv_exec:
  assumes "rt_inv tb" "rt_enabled ev tb"
  shows "rt_inv (rt_exec B ev tb)"
proof (cases ev)
  case (GatewayLoad g l)
  with assms(1) show ?thesis
    by (auto simp: update_gateway_load_def intro: rt_inv_refresh split: option.split)
next
  case (GatewayRtt g r)
  with assms(1) show ?thesis
    by (auto simp: update_gateway_rtt_def intro: rt_inv_refresh split: option.split)
next
  case (BlacklistPeer p)
  have "rt_inv (tb\<lparr>tb_blacklisted_peers := insert p (tb_blacklisted_peers tb)\<rparr>)"
    by (rule rt_inv_frame_update [OF assms(1)]) simp_all
  with BlacklistPeer show ?thesis
    by (simp add: blacklist_peer_def Let_def rt_inv_remove_routes_via)
next
  case (ExpireStale now age)
  with assms(1) show ?thesis by (simp add: expire_stale_def Let_def rt_inv_remove_routes)
qed (use assms in \<open>auto simp: rt_inv_add_peer rt_inv_remove_peer rt_inv_apply_update
       generate_advertisement_snd advertise_to_all_snd generate_all_advertisements_def
       unblacklist_peer_def set_ipv4_prefix_def set_self_mesh_ip_def
       intro: rt_inv_frame_update [OF assms(1)]\<close>)

interpretation routing: step_invariant rt_init "rt_step B" rt_inv for B
  by unfold_locales (auto simp: rt_init_def rt_inv_new rt_inv_exec elim!: rt_stepE)

section \<open>Relaxation\<close>

text \<open>What one advertised entry does to the route of its destination, as a function.\<close>

definition relax ::
  "blake3 \<Rightarrow> instant \<Rightarrow> u64 \<Rightarrow> node_id \<Rightarrow> ipv4_prefix \<Rightarrow> route_entry \<Rightarrow> route_table_entry option
     \<Rightarrow> route_table_entry option" where
  "relax B now sq p pfx a old =
     (let h = advertised_hops_plus_one (re_hops a);
          via_p = (case old of Some ex \<Rightarrow> rt_next_hop ex = p | None \<Rightarrow> False);
          mk = (\<lambda>l r. (fresh_entry now p h (RouteEntry_is_gateway a) sq l r)
                  \<lparr>rt_mesh_ip := Some (derive_mesh_ipv4 B (re_destination a) pfx)\<rparr>)
      in if h \<ge> INFINITY then (if via_p then None else old)
         else (case old of
                 None \<Rightarrow> Some (mk 0 None)
               | Some ex \<Rightarrow>
                   if h < rt_hops ex then Some (mk 0 None)
                   else if via_p \<and> sq > rt_sequence ex then
                     (if rt_is_gateway ex then Some (mk (rt_gateway_load ex) (rt_rtt_ms ex))
                      else Some (mk 0 None))
                   else old))"

lemma apply_entry_get:
  "hm_get (tb_routes (fst (apply_entry B now sq p a st))) =
     (if re_destination a = tb_self_id (fst st) then hm_get (tb_routes (fst st))
      else (hm_get (tb_routes (fst st)))(re_destination a :=
              relax B now sq p (tb_ipv4_prefix (fst st)) a
                (hm_get (tb_routes (fst st)) (re_destination a))))"
  by (auto simp: apply_entry_def relax_def Let_def fun_eq_iff split: prod.split option.split)

lemma find_destination_None:
  "find (\<lambda>a. re_destination a = d) es = None \<longleftrightarrow> d \<notin> re_destination ` set es"
  by (auto simp: find_None_iff)

lemma apply_entries_get:
  assumes "distinct (map re_destination es)"
  shows "hm_get (tb_routes (fst (apply_entries B now sq p es st))) d =
     (case find (\<lambda>a. re_destination a = d) es of
        None \<Rightarrow> hm_get (tb_routes (fst st)) d
      | Some a \<Rightarrow> if d = tb_self_id (fst st) then hm_get (tb_routes (fst st)) d
                  else relax B now sq p (tb_ipv4_prefix (fst st)) a (hm_get (tb_routes (fst st)) d))"
  using assms unfolding apply_entries_def
proof (induction es arbitrary: st)
  case (Cons a es)
  have "find (\<lambda>a. re_destination a = d) es = None" if "re_destination a = d"
    using that Cons.prems by (simp add: find_destination_None)
  with Cons show ?case
    by (auto simp: apply_entry_get split: option.split)
qed simp

lemma apply_entries_frame:
  "tb_self_id (fst (apply_entries B now sq p es st)) = tb_self_id (fst st)"
  "tb_peer_max_seq (fst (apply_entries B now sq p es st)) = tb_peer_max_seq (fst st)"
  "tb_blacklisted_peers (fst (apply_entries B now sq p es st)) = tb_blacklisted_peers (fst st)"
  unfolding apply_entries_def by (induction es arbitrary: st) simp_all

lemma touch_peer_get:
  "d \<noteq> p \<Longrightarrow> hm_get (tb_routes (fst (touch_peer B now sq p tb))) d = hm_get (tb_routes tb) d"
  by (simp add: touch_peer_def split: option.split)

lemma apply_update_get:
  assumes "rt_inv tb" "p \<noteq> tb_self_id tb" "accepts_update u p tb" "d \<noteq> p" "d \<noteq> tb_self_id tb"
    and "distinct (map re_destination (ru_entries u))"
  shows "hm_get (tb_routes (snd (apply_update B now u p tb))) d =
     (case find (\<lambda>a. re_destination a = d) (ru_entries u) of
        None \<Rightarrow> (case hm_get (tb_routes tb) d of
                   Some e \<Rightarrow> if rt_next_hop e = p then None else Some e
                 | None \<Rightarrow> None)
      | Some a \<Rightarrow> relax B now (ru_sequence u) p (tb_ipv4_prefix tb) a (hm_get (tb_routes tb) d))"
proof -
  define t where "t = after_entries B now u p tb"
  have inv: "rt_inv t" using rt_inv_after_entries assms by (simp add: t_def)
  have g: "hm_get (tb_routes t) d =
     (case find (\<lambda>a. re_destination a = d) (ru_entries u) of
        None \<Rightarrow> hm_get (tb_routes tb) d
      | Some a \<Rightarrow> relax B now (ru_sequence u) p (tb_ipv4_prefix tb) a (hm_get (tb_routes tb) d))"
    unfolding t_def after_entries_def apply_entries_get [OF assms(6)]
    using assms(4,5) by (simp add: touch_peer_get cong: option.case_cong)
  have w: "d \<in> set (withdrawn_routes p (re_destination ` set (ru_entries u)) t) \<longleftrightarrow>
      (\<exists>e. hm_get (tb_routes t) d = Some e \<and> rt_next_hop e = p)
      \<and> find (\<lambda>a. re_destination a = d) (ru_entries u) = None"
    using rt_inv_entry [OF inv] assms(4)
    by (auto simp: withdrawn_routes_def find_destination_None rt_inv_mem [OF inv] image_iff entry_ok_def)
  show ?thesis
    using g w unfolding apply_update_accepted [OF assms(3)] Let_def t_def [symmetric]
    by (auto split: option.splits)
qed

section \<open>Properties\<close>


text \<open>A small network, used to show that the hypotheses of the properties can be met.\<close>

definition example_blake3 :: blake3 where
  "example_blake3 = \<lparr>b3_derive_key = (\<lambda>_ _. []), b3_keyed_hash = (\<lambda>_ bs. bs)\<rparr>"

definition example_node :: "u8 \<Rightarrow> node_id" where
  "example_node n = NodeId (replicate 16 n)"

definition example_table :: "u8 \<Rightarrow> u8 list \<Rightarrow> routing_table" where
  "example_table self peers =
     fold (\<lambda>p. add_peer example_blake3 0 (example_node p)) peers
       (RoutingTable_new (example_node self) False \<lparr>v4_network = 0x0A4D0000, v4_prefix_len = 16\<rparr>)"

definition example_update :: "u8 \<Rightarrow> u64 \<Rightarrow> (u8 \<times> u8 \<times> u8) list \<Rightarrow> route_update_frame" where
  "example_update origin sq es =
     \<lparr>ru_origin_id = example_node origin, ru_sequence = sq,
      ru_entries = map (\<lambda>(d, h, f). \<lparr>re_destination = example_node d, re_hops = h, re_flags = f,
                                     re_mesh_ip = [0, 0, 0, 0]\<rparr>) es,
      ru_signature = replicate 64 0\<rparr>"

lemma example_node_eq [simp]: "example_node a = example_node b \<longleftrightarrow> a = b"
  by (simp add: example_node_def)

lemma reachable_example_table:
  "self \<notin> set peers \<Longrightarrow> reachable rt_init (rt_step example_blake3) (example_table self peers)"
proof (induction peers rule: rev_induct)
  case Nil
  show ?case by (rule reachable_init) (auto simp: example_table_def rt_init_def)
next
  case (snoc p ps)
  have "tb_self_id (example_table self ps) = example_node self"
    by (induction ps rule: rev_induct) (simp_all add: example_table_def RoutingTable_new_def add_peer_def)
  with snoc have "rt_step example_blake3 (example_table self ps)
      (rt_exec example_blake3 (AddPeer 0 (example_node p)) (example_table self ps))"
    by (intro rt_step) auto
  with snoc have "reachable rt_init (rt_step example_blake3)
      (rt_exec example_blake3 (AddPeer 0 (example_node p)) (example_table self ps))"
    by (auto intro: reachable_step)
  then show ?case by (simp add: example_table_def)
qed


lemma relax_Some:
  assumes "relax B now sq p pfx a old = Some e"
  shows "(rt_next_hop e = p \<and> rt_hops e = advertised_hops_plus_one (re_hops a)
            \<and> advertised_hops_plus_one (re_hops a) < INFINITY)
       \<or> (old = Some e \<and> \<not> (rt_next_hop e = p \<and> rt_sequence e < sq)
            \<and> (advertised_hops_plus_one (re_hops a) < INFINITY \<longrightarrow>
                 rt_hops e \<le> advertised_hops_plus_one (re_hops a)))"
  using assms by (auto simp: relax_def Let_def not_le not_less split: option.splits if_splits)

lemma relax_None:
  assumes "relax B now sq p pfx a old = None"
  shows "INFINITY \<le> advertised_hops_plus_one (re_hops a)"
  using assms by (auto simp: relax_def Let_def split: option.splits if_splits)

lemma hops_plus_one_less:
  "advertised_hops_plus_one h < INFINITY \<longleftrightarrow> unat h + 1 < 16"
  "INFINITY \<le> advertised_hops_plus_one h \<longleftrightarrow> 16 \<le> unat h + 1"
  using hops_plus_one [of h] by (auto simp: word_less_nat_alt word_le_nat_alt INFINITY_def)

lemma relax_via:
  assumes "relax B now sq p pfx a old = Some e" "rt_next_hop e = p"
    and "\<And>ex. old = Some ex \<Longrightarrow> rt_next_hop ex = p \<Longrightarrow> rt_sequence ex < sq"
  shows "unat (rt_hops e) = unat (re_hops a) + 1 \<and> unat (re_hops a) + 1 < 16"
  using relax_Some [OF assms(1)] assms(2,3) hops_plus_one [of "re_hops a"]
  by (auto simp: hops_plus_one_less)

lemma relax_le:
  assumes "unat (re_hops a) + 1 < 16"
  shows "\<exists>e. relax B now sq p pfx a old = Some e \<and> unat (rt_hops e) \<le> unat (re_hops a) + 1"
proof (cases "relax B now sq p pfx a old")
  case None
  from relax_None [OF this] assms show ?thesis by (simp add: hops_plus_one_less)
next
  case (Some e)
  from relax_Some [OF this] assms hops_plus_one [of "re_hops a"] show ?thesis
    by (auto simp: Some hops_plus_one_less word_le_nat_alt)
qed

lemma advertisement_entries:
  "ru_entries (fst (generate_advertisement q tb)) =
     \<lparr>re_destination = tb_self_id tb, re_hops = 0, re_flags = (if tb_is_gateway tb then 1 else 0),
      re_mesh_ip = be32 (unwrap_ip (tb_self_mesh_ip tb))\<rparr>
     # map (advertise_entry q) (filter (\<lambda>(dst, _). dst \<noteq> q) (tb_routes tb))"
  by (simp add: generate_advertisement_def Let_def)

lemma advertise_entry_sel [simp]:
  "re_destination (advertise_entry q r) = fst r"
  "re_hops (advertise_entry q r) = (if rt_learned_from (snd r) = q then INFINITY else rt_hops (snd r))"
  by (simp_all add: advertise_entry_def split: prod.split)

lemma advertisement_distinct:
  assumes "rt_inv tb"
  shows "distinct (map re_destination (ru_entries (fst (generate_advertisement q tb))))"
proof -
  have "distinct (map fst (filter (\<lambda>(dst, _). dst \<noteq> q) (tb_routes tb)))"
    using assms by (simp add: rt_inv_def hm_wf_def distinct_map_filter)
  moreover have "tb_self_id tb \<notin> fst ` set (tb_routes tb)"
    using assms rt_inv_entry [OF assms] by (force simp: rt_inv_mem [OF assms] entry_ok_def)
  ultimately show ?thesis
    by (force simp: advertisement_entries comp_def)
qed

lemma advertisement_find:
  assumes "rt_inv tb" "d \<noteq> tb_self_id tb" "d \<noteq> q"
  shows "find (\<lambda>a. re_destination a = d) (ru_entries (fst (generate_advertisement q tb))) =
     map_option (\<lambda>e. advertise_entry q (d, e)) (hm_get (tb_routes tb) d)"
proof -
  have "find (\<lambda>a. re_destination a = d)
      (map (advertise_entry q) (filter (\<lambda>(dst, _). dst \<noteq> q) rs)) =
     map_option (\<lambda>e. advertise_entry q (d, e)) (hm_get rs d)" for rs
    using assms(3) by (induction rs) auto
  with assms(2) show ?thesis by (simp add: advertisement_entries)
qed

text \<open>The route \<open>b\<close> ends up with, from the two tables it had before.\<close>

lemma neighbour_get:
  assumes "rt_inv a" "rt_inv b" "tb_self_id a \<noteq> tb_self_id b"
    and "accepts_update (fst (generate_advertisement (tb_self_id b) a)) (tb_self_id a) b"
    and "dst \<noteq> tb_self_id a" "dst \<noteq> tb_self_id b"
  shows "hm_get (tb_routes (snd (apply_update B now (fst (generate_advertisement (tb_self_id b) a))
                 (tb_self_id a) b))) dst =
     (case hm_get (tb_routes a) dst of
        None \<Rightarrow> (case hm_get (tb_routes b) dst of
                   Some e \<Rightarrow> if rt_next_hop e = tb_self_id a then None else Some e
                 | None \<Rightarrow> None)
      | Some ea \<Rightarrow> relax B now (ru_sequence (fst (generate_advertisement (tb_self_id b) a)))
                    (tb_self_id a) (tb_ipv4_prefix b) (advertise_entry (tb_self_id b) (dst, ea))
                    (hm_get (tb_routes b) dst))"
  using apply_update_get [OF assms(2,3,4,5,6) advertisement_distinct [OF assms(1)]]
  unfolding advertisement_find [OF assms(1,5,6)] by (simp split: option.split)

text \<open>
  Claim C15: when node \<open>b\<close> accepts the advertisement that its neighbour \<open>a\<close> generates for it,
  \<open>b\<close>'s table is a Bellman-Ford relaxation of \<open>a\<close>'s. Every destination \<open>b\<close> then routes through
  \<open>a\<close> is one \<open>a\<close> has a route for that does not go back through \<open>b\<close> (so no two neighbours route a
  destination through each other), at exactly one hop more; and for every destination \<open>a\<close> reaches
  without \<open>b\<close> in fewer than 15 hops, \<open>b\<close> has a route at most one hop longer than \<open>a\<close>'s.
\<close>

theorem advertisement_relaxes_neighbour:
  assumes "rt_inv a" "rt_inv b" "tb_self_id a \<noteq> tb_self_id b"
    and "accepts_update (fst (generate_advertisement (tb_self_id b) a)) (tb_self_id a) b"
    and "b' = snd (apply_update B now (fst (generate_advertisement (tb_self_id b) a)) (tb_self_id a) b)"
    and "dst \<noteq> tb_self_id a" "dst \<noteq> tb_self_id b"
  shows "(\<forall>e. hm_get (tb_routes b') dst = Some e \<longrightarrow> rt_next_hop e = tb_self_id a \<longrightarrow>
           (\<exists>ea. hm_get (tb_routes a) dst = Some ea \<and> rt_next_hop ea \<noteq> tb_self_id b
                 \<and> unat (rt_hops e) = unat (rt_hops ea) + 1))
       \<and> (\<forall>ea. hm_get (tb_routes a) dst = Some ea \<longrightarrow> rt_next_hop ea \<noteq> tb_self_id b \<longrightarrow>
           unat (rt_hops ea) + 1 < 16 \<longrightarrow>
           (\<exists>e. hm_get (tb_routes b') dst = Some e \<and> unat (rt_hops e) \<le> unat (rt_hops ea) + 1))"
proof -
  let ?u = "fst (generate_advertisement (tb_self_id b) a)"
  let ?old = "hm_get (tb_routes b) dst"
  note get = neighbour_get [OF assms(1,2,3,4,6,7), of B now, folded assms(5)]
  have newer: "rt_sequence ex < ru_sequence ?u" if "?old = Some ex" "rt_next_hop ex = tb_self_id a" for ex
    using rt_inv_entry [OF assms(2) that(1)] assms(4) that(2)
    by (auto simp: entry_ok_def accepts_update_def intro: le_less_trans)
  have lf: "rt_learned_from ea = rt_next_hop ea" if "hm_get (tb_routes a) dst = Some ea" for ea
    using rt_inv_entry [OF assms(1) that] by (simp add: entry_ok_def)
  show ?thesis
  proof (cases "hm_get (tb_routes a) dst")
    case None
    with get show ?thesis by (auto split: option.splits if_splits)
  next
    case (Some ea)
    let ?a = "advertise_entry (tb_self_id b) (dst, ea)"
    have hops: "unat (re_hops ?a) = (if rt_next_hop ea = tb_self_id b then 16 else unat (rt_hops ea))"
      using lf [OF Some] by (simp add: INFINITY_def)
    show ?thesis
    proof (intro conjI allI impI)
      fix e assume "hm_get (tb_routes b') dst = Some e" and v: "rt_next_hop e = tb_self_id a"
      then have "relax B now (ru_sequence ?u) (tb_self_id a) (tb_ipv4_prefix b) ?a ?old = Some e"
        by (simp add: get Some)
      from relax_via [OF this v newer] hops Some
      show "\<exists>ea. hm_get (tb_routes a) dst = Some ea \<and> rt_next_hop ea \<noteq> tb_self_id b
                 \<and> unat (rt_hops e) = unat (rt_hops ea) + 1"
        by (auto split: if_splits)
    next
      fix ea' assume "hm_get (tb_routes a) dst = Some ea'" "rt_next_hop ea' \<noteq> tb_self_id b"
        "unat (rt_hops ea') + 1 < 16"
      with Some hops relax_le [of ?a B now "ru_sequence ?u" "tb_self_id a" "tb_ipv4_prefix b" ?old]
      show "\<exists>e. hm_get (tb_routes b') dst = Some e \<and> unat (rt_hops e) \<le> unat (rt_hops ea') + 1"
        by (simp add: get)
    qed
  qed
qed

theorem advertisement_relaxes_neighbour_witness:
  "let a = example_table 1 [2, 3]; b = example_table 2 [1];
       u = fst (generate_advertisement (example_node 2) a)
   in accepts_update u (example_node 1) b
      \<and> (\<exists>e. hm_get (tb_routes (snd (apply_update example_blake3 7 u (example_node 1) b)))
                (example_node 3) = Some e \<and> unat (rt_hops e) \<le> 2)"
proof -
  let ?a = "example_table 1 [2, 3]" and ?b = "example_table 2 [1]"
  have inv: "rt_inv ?a" "rt_inv ?b"
    by (rule routing.inv_reachable [OF reachable_example_table], simp)+
  have id: "tb_self_id ?a = example_node 1" "tb_self_id ?b = example_node 2" by code_simp+
  have acc: "accepts_update (fst (generate_advertisement (tb_self_id ?b) ?a)) (tb_self_id ?a) ?b"
    by code_simp
  obtain ea where ea: "hm_get (tb_routes ?a) (example_node 3) = Some ea"
    "rt_next_hop ea = example_node 3" "rt_hops ea = 1"
    by (simp add: example_table_def RoutingTable_new_def add_peer_def)
  from advertisement_relaxes_neighbour [OF inv _ acc refl, of "example_node 3" example_blake3 7] ea id
  have "\<exists>e. hm_get (tb_routes (snd (apply_update example_blake3 7
      (fst (generate_advertisement (example_node 2) ?a)) (example_node 1) ?b))) (example_node 3) = Some e
      \<and> unat (rt_hops e) \<le> 2"
    by (auto simp: numeral_2_eq_2)
  with acc show ?thesis by (simp add: id Let_def)
qed

lemma last_seq_exec:
  assumes "ev \<noteq> RemovePeer p"
  shows "last_seq tb p \<le> last_seq (rt_exec B ev tb) p"
proof (cases ev)
  case (ApplyUpdate now u q)
  have "tb_peer_max_seq (snd (apply_update B now u q tb)) =
      (if ru_origin_id u = q \<and> last_seq tb q < ru_sequence u
       then hm_insert q (ru_sequence u) (tb_peer_max_seq tb) else tb_peer_max_seq tb)"
  proof (cases "accepts_update u q tb")
    case True
    have "tb_peer_max_seq (after_entries B now u q tb) =
        hm_insert q (ru_sequence u) (tb_peer_max_seq tb)"
      by (simp add: after_entries_def apply_entries_frame)
    with True show ?thesis by (simp add: apply_update_accepted Let_def) (simp add: accepts_update_def)
  qed (simp add: apply_update_not_accepted)
  then show ?thesis by (auto simp: ApplyUpdate last_seq_def)
next
  case (RemovePeer q)
  with assms show ?thesis by (simp add: remove_peer_def Let_def last_seq_def)
qed (simp_all add: last_seq_def add_peer_def blacklist_peer_def generate_advertisement_snd
    generate_all_advertisements_def advertise_to_all_snd unblacklist_peer_def update_gateway_load_def
    update_gateway_rtt_def expire_stale_def Let_def set_ipv4_prefix_def set_self_mesh_ip_def
    split: option.split)

lemma last_seq_execs:
  "RemovePeer p \<notin> set evs \<Longrightarrow> last_seq tb p \<le> last_seq (fold (rt_exec B) evs tb) p"
proof (induction evs arbitrary: tb)
  case (Cons ev evs)
  then have "last_seq tb p \<le> last_seq (rt_exec B ev tb) p"
    "last_seq (rt_exec B ev tb) p \<le> last_seq (fold (rt_exec B) evs (rt_exec B ev tb)) p"
    using last_seq_exec by auto
  then show ?case by simp
qed simp

text \<open>
  A route update is applied at most once. After an update from a peer has been accepted,
  and as long as the peer is not removed, every update from it with the same or a lower sequence
  number is ignored and leaves the table untouched, whatever happened in between.
\<close>

theorem update_not_replayed:
  assumes "accepts_update u p tb" "RemovePeer p \<notin> set evs" "ru_sequence u' \<le> ru_sequence u"
    and "tb' = fold (rt_exec B) evs (snd (apply_update B now u p tb))"
  shows "apply_update B now' u' p tb' = (Unchanged, tb')"
proof -
  have "tb_peer_max_seq (snd (apply_update B now u p tb)) =
      hm_insert p (ru_sequence u) (tb_peer_max_seq tb)"
    using assms(1) by (simp add: apply_update_accepted Let_def after_entries_def apply_entries_frame)
  then have "ru_sequence u \<le> last_seq (snd (apply_update B now u p tb)) p"
    by (simp add: last_seq_def)
  also have "\<dots> \<le> last_seq tb' p"
    using last_seq_execs [OF assms(2)] by (simp add: assms(4))
  finally have "ru_sequence u' \<le> last_seq tb' p" using assms(3) by simp
  then show ?thesis by (auto simp: apply_update_def last_seq_def)
qed

theorem update_not_replayed_witness:
  "let tb = example_table 1 [2]; u = example_update 2 5 [(2, 0, 0), (4, 3, 1)];
       tb' = rt_exec example_blake3 AdvertiseAll
               (snd (apply_update example_blake3 1 u (example_node 2) tb))
   in apply_update example_blake3 9 u (example_node 2) tb' = (Unchanged, tb')"
proof -
  have "accepts_update (example_update 2 5 [(2, 0, 0), (4, 3, 1)]) (example_node 2) (example_table 1 [2])"
    by code_simp
  from update_not_replayed [OF this, of "[AdvertiseAll]" _ _ example_blake3 1, OF _ order_refl refl]
  show ?thesis by (simp add: Let_def)
qed

end
