(* ===== verification/Routing_Lookup.thy ===== *)
theory Routing_Lookup
  imports Routing_Steps
begin

text \<open>
  What the routing table answers: blacklisted peers are never used again until they are pardoned,
  address lookups agree with identifier lookups, and the selected gateway has the lowest score.
  Also the limits of the implementation that the model exposes: a blacklisted peer can still hide a
  route through another peer, and a table of a thousand routes produces advertisements that no peer
  accepts.
\<close>

section \<open>Blacklisting\<close>

lemma blacklisted_exec:
  assumes "ev \<noteq> UnblacklistPeer p" "p \<in> tb_blacklisted_peers tb"
  shows "p \<in> tb_blacklisted_peers (rt_exec B ev tb)"
proof (cases ev)
  case (ApplyUpdate now u q)
  have "tb_blacklisted_peers (snd (apply_update B now u q tb)) = tb_blacklisted_peers tb"
    by (cases "accepts_update u q tb")
      (simp_all add: apply_update_accepted apply_update_not_accepted Let_def after_entries_def
        apply_entries_frame)
  with assms ApplyUpdate show ?thesis by simp
qed (use assms in \<open>auto simp: add_peer_def blacklist_peer_def remove_peer_def
    generate_advertisement_snd generate_all_advertisements_def advertise_to_all_snd
    unblacklist_peer_def update_gateway_load_def update_gateway_rtt_def expire_stale_def Let_def
    set_ipv4_prefix_def set_self_mesh_ip_def split: option.split\<close>)

lemma blacklisted_execs:
  "UnblacklistPeer p \<notin> set evs \<Longrightarrow> p \<in> tb_blacklisted_peers tb \<Longrightarrow>
   p \<in> tb_blacklisted_peers (fold (rt_exec B) evs tb)"
  by (induction evs arbitrary: tb) (auto simp: blacklisted_exec)

lemma min_by_key_None: "min_by_key f xs = None \<longleftrightarrow> xs = []"
  by (cases xs) (auto split: option.split)

lemma min_by_key_Some:
  "min_by_key f xs = Some x \<Longrightarrow> x \<in> set xs \<and> (\<forall>y\<in>set xs. f x \<le> f y)"
proof (induction xs arbitrary: x)
  case (Cons a xs)
  show ?case
  proof (cases "min_by_key f xs")
    case None
    with Cons.prems show ?thesis by (simp add: min_by_key_None)
  next
    case (Some y)
    from Cons.IH [OF this] Cons.prems Some show ?thesis
      by (auto split: if_splits intro: order_trans)
  qed
qed simp

lemma best_gateway_entry_Some:
  assumes "best_gateway_entry tb = Some (g, e)"
  shows "(g, e) \<in> set (tb_routes tb) \<and> usable_gateway tb e
    \<and> (\<forall>(g', e')\<in>set (tb_routes tb). usable_gateway tb e' \<longrightarrow> entry_score e \<le> entry_score e')"
  using min_by_key_Some [OF assms [unfolded best_gateway_entry_def]] by auto

text \<open>
  Claim C19: once a peer is blacklisted, no lookup by node, by mesh address, or for a gateway ever
  returns it as next hop, whatever updates and other events follow, until it is pardoned; and right
  after blacklisting no route through it is left.
\<close>

theorem blacklisted_never_used:
  assumes "hm_wf (tb_routes tb)" "UnblacklistPeer p \<notin> set evs"
    and "tb' = fold (rt_exec B) evs (snd (blacklist_peer p tb))"
  shows "lookup dst tb' \<noteq> Some p \<and> lookup_mesh_ip ip tb' \<noteq> Some (dst, p)
    \<and> nearest_gateway_route tb' \<noteq> Some (dst, p) \<and> nearest_gateway tb' \<noteq> Some (p, h)
    \<and> (\<forall>d e. hm_get (tb_routes (snd (blacklist_peer p tb))) d = Some e \<longrightarrow> rt_next_hop e \<noteq> p)"
proof -
  have "p \<in> tb_blacklisted_peers (snd (blacklist_peer p tb))"
    by (simp add: blacklist_peer_def Let_def)
  then have bl: "p \<in> tb_blacklisted_peers tb'"
    using blacklisted_execs [OF assms(2)] by (simp add: assms(3))
  have gw: "rt_next_hop e \<noteq> p" if "best_gateway_entry tb' = Some (g, e)" for g e
    using best_gateway_entry_Some [OF that] bl by (auto simp: usable_gateway_def)
  have "rt_next_hop e \<noteq> p" if "hm_get (tb_routes (snd (blacklist_peer p tb))) d = Some e" for d e
    using that assms(1)
      remove_routes_via_get [of "tb\<lparr>tb_blacklisted_peers := insert p (tb_blacklisted_peers tb)\<rparr>" p d]
    by (auto simp: blacklist_peer_def Let_def split: option.splits if_splits)
  with bl gw show ?thesis
    by (auto simp: lookup_def lookup_mesh_ip_def nearest_gateway_route_def nearest_gateway_def
        split: option.splits if_splits)
qed

theorem blacklisted_never_used_witness:
  "let tb = example_table 1 [2, 3];
       u = example_update 2 5 [(2, 0, 0), (3, 0, 1)];
       tb' = fold (rt_exec example_blake3) [ApplyUpdate 1 u (example_node 2)]
               (snd (blacklist_peer (example_node 2) tb))
   in hm_wf (tb_routes tb) \<and> lookup (example_node 2) tb' \<noteq> Some (example_node 2)"
proof -
  have wf: "hm_wf (tb_routes (example_table 1 [2, 3]))" by code_simp
  from blacklisted_never_used [OF wf _ refl, of "example_node 2"
      "[ApplyUpdate 1 (example_update 2 5 [(2, 0, 0), (3, 0, 1)]) (example_node 2)]"
      "example_node 2" example_blake3] wf
  show ?thesis by (simp add: Let_def)
qed

section \<open>Lookups\<close>

lemma lookup_mesh_ip_Some:
  "lookup_mesh_ip ip tb = Some (dst, nh) \<longleftrightarrow>
     hm_get (tb_mesh_ip_index tb) ip = Some dst \<and>
     (\<exists>e. hm_get (tb_routes tb) dst = Some e \<and> rt_next_hop e \<notin> tb_blacklisted_peers tb
          \<and> rt_next_hop e = nh)"
  by (auto simp: lookup_mesh_ip_def split: option.splits if_splits)



section \<open>Gateway selection\<close>

lemma gateway_score_exact:
  "unat (gateway_score h l r) =
     100 * unat h + unat l div 2 + (case r of None \<Rightarrow> 0 | Some ms \<Rightarrow> unat ms) div 10"
proof -
  have "unat (case r of None \<Rightarrow> 0 | Some ms \<Rightarrow> ms) = (case r of None \<Rightarrow> 0 | Some ms \<Rightarrow> unat ms)"
    by (simp split: option.split)
  moreover have "(case r of None \<Rightarrow> 0 | Some ms \<Rightarrow> unat ms) < 4294967296"
    using unat_less(3) by (simp split: option.split)
  ultimately show ?thesis
    using unat_less(1) [of h] unat_less(1) [of l]
    by (simp add: gateway_score_def unat_word_ariths unat_div)
qed

text \<open>
  Claim C20: a node that is not a gateway selects a gateway whenever it knows a usable one, and then
  one with the lowest score among all usable gateway routes, where the score is exactly a hundred
  points per hop, half the load and a tenth of the round-trip time (it never overflows).
\<close>

theorem nearest_gateway_optimal:
  assumes "\<not> tb_is_gateway tb" "hm_wf (tb_routes tb)"
  defines "score \<equiv> \<lambda>e. 100 * unat (rt_hops e) + unat (rt_gateway_load e) div 2
                      + (case rt_rtt_ms e of None \<Rightarrow> 0 | Some ms \<Rightarrow> unat ms) div 10"
  shows "(nearest_gateway_route tb = None \<longleftrightarrow>
            (\<forall>g e. hm_get (tb_routes tb) g = Some e \<longrightarrow> \<not> usable_gateway tb e))
    \<and> (\<forall>g nh. nearest_gateway_route tb = Some (g, nh) \<longrightarrow>
         (\<exists>e. hm_get (tb_routes tb) g = Some e \<and> usable_gateway tb e \<and> rt_next_hop e = nh
           \<and> (\<forall>g' e'. hm_get (tb_routes tb) g' = Some e' \<longrightarrow> usable_gateway tb e' \<longrightarrow>
                 score e \<le> score e')))"
proof -
  note mem = hm_get_mem [OF assms(2)]
  have "best_gateway_entry tb = None \<longleftrightarrow>
      (\<forall>g e. hm_get (tb_routes tb) g = Some e \<longrightarrow> \<not> usable_gateway tb e)"
    by (auto simp: best_gateway_entry_def min_by_key_None filter_empty_conv mem)
  moreover have "score e \<le> score e' \<longleftrightarrow> entry_score e \<le> entry_score e'" for e e'
    by (simp add: score_def entry_score_def word_le_nat_alt gateway_score_exact)
  ultimately show ?thesis
    using assms(1) best_gateway_entry_Some
    by (fastforce simp: nearest_gateway_route_def mem)
qed

theorem nearest_gateway_optimal_witness:
  "let tb = snd (apply_update example_blake3 1 (example_update 2 5 [(2, 0, 1), (4, 2, 1)])
                   (example_node 2) (example_table 1 [2, 3]))
   in nearest_gateway_route tb = Some (example_node 2, example_node 2)
      \<and> (\<exists>e. hm_get (tb_routes tb) (example_node 2) = Some e \<and> usable_gateway tb e)"
proof -
  let ?tb = "snd (apply_update example_blake3 1 (example_update 2 5 [(2, 0, 1), (4, 2, 1)])
                   (example_node 2) (example_table 1 [2, 3]))"
  have h: "\<not> tb_is_gateway ?tb" "hm_wf (tb_routes ?tb)"
    "nearest_gateway_route ?tb = Some (example_node 2, example_node 2)" by code_simp+
  from nearest_gateway_optimal [OF h(1,2)] h(3) show ?thesis by (auto simp: Let_def)
qed

section \<open>Limits\<close>

text \<open>
  A blacklisted peer still updates the table: a shorter path it advertises replaces a route through
  another peer, and the destination can then not be looked up at all.
\<close>

lemma find_destination_unique:
  "distinct (map re_destination es) \<Longrightarrow> a \<in> set es \<Longrightarrow>
   find (\<lambda>x. re_destination x = re_destination a) es = Some a"
  by (induction es) (auto simp: rev_image_eqI)

lemma apply_update_blacklist:
  "tb_blacklisted_peers (snd (apply_update B now u p tb)) = tb_blacklisted_peers tb"
  "tb_self_id (snd (apply_update B now u p tb)) = tb_self_id tb"
  by (cases "accepts_update u p tb";
      simp add: apply_update_accepted apply_update_not_accepted Let_def after_entries_def
        apply_entries_frame)+

lemma blacklisted_update_hides_route:
  assumes "rt_inv tb" "p \<noteq> tb_self_id tb" "accepts_update u p tb" "p \<in> tb_blacklisted_peers tb"
    and "distinct (map re_destination (ru_entries u))" "a \<in> set (ru_entries u)"
    and "re_destination a = d" "d \<noteq> p" "hm_get (tb_routes tb) d = Some e"
    and "unat (re_hops a) + 1 < unat (rt_hops e)"
  shows "lookup d (snd (apply_update B now u p tb)) = None"
proof -
  have d: "d \<noteq> tb_self_id tb" "unat (rt_hops e) < 16"
    using rt_inv_entry [OF assms(1,9)] by (auto simp: entry_ok_def INFINITY_def word_less_nat_alt)
  have f: "find (\<lambda>a. re_destination a = d) (ru_entries u) = Some a"
    using find_destination_unique [OF assms(5,6)] assms(7) by simp
  have "relax B now (ru_sequence u) p (tb_ipv4_prefix tb) a (Some e) = None \<or>
      (\<exists>e'. relax B now (ru_sequence u) p (tb_ipv4_prefix tb) a (Some e) = Some e' \<and> rt_next_hop e' = p)"
    using assms(10) d(2) hops_plus_one [of "re_hops a"]
    by (auto simp: relax_def Let_def hops_plus_one_less word_less_nat_alt)
  with assms(4,9) show ?thesis
    unfolding lookup_def apply_update_get [OF assms(1,2,3,8) d(1) assms(5)] f
    by (auto simp: apply_update_blacklist split: option.split)
qed

text \<open>
  The advertisement has one entry per route and one for the node itself, but a receiver rejects more
  than a thousand entries: a table with a thousand routes can no longer be advertised.
\<close>

lemma large_table_rejected:
  assumes "wf_node_id (tb_self_id tb)"
    and "q \<notin> fst ` set (tb_routes tb)" "1000 \<le> route_count tb" "route_count tb < 65535"
  shows "RouteUpdateFrame_decode (RouteUpdateFrame_encode (fst (generate_advertisement q tb))) =
     Err (Protocol (TooManyRouteEntries (of_nat (route_count tb + 1))))"
proof -
  let ?f = "fst (generate_advertisement q tb)"
  have "filter (\<lambda>(dst, _). dst \<noteq> q) (tb_routes tb) = tb_routes tb"
    using assms(2) by (force simp: filter_id_conv)
  then have n: "length (ru_entries ?f) = route_count tb + 1"
    by (simp add: advertisement_entries route_count_def)
  have "wf_node_id (ru_origin_id ?f)"
    using assms(1) by (simp add: generate_advertisement_def Let_def)
  from RouteUpdateFrame_decode_too_many [OF this, of "[]"] assms(3,4) show ?thesis
    by (simp add: n)
qed

end
