(* ===== verification/Session_Cipher.thy ===== *)
theory Session_Cipher
  imports Wire_Frames
begin

text \<open>
  Session encryption: the cipher with its nonce counter and replay window
  (\<^verbatim>\<open>pim-crypto/src/session.rs\<close>) and the per-peer session of the daemon
  (\<^verbatim>\<open>pim-daemon/src/session.rs\<close>). AES-256-GCM is a parameter: a sealing and an opening function
  whose only assumed law is that opening undoes sealing.
\<close>

section \<open>Authenticated encryption\<close>

text \<open>
  Sealing takes the key, the nonce, the associated data and the plaintext, and gives the ciphertext
  and the tag, or fails; opening takes the ciphertext and the tag.
\<close>

record aead =
  ae_seal :: "bytes \<Rightarrow> bytes \<Rightarrow> bytes \<Rightarrow> bytes \<Rightarrow> (bytes \<times> bytes) option"
  ae_open :: "bytes \<Rightarrow> bytes \<Rightarrow> bytes \<Rightarrow> bytes \<Rightarrow> bytes \<Rightarrow> bytes option"

definition aead_correct :: "aead \<Rightarrow> bool" where
  "aead_correct A \<longleftrightarrow>
     (\<forall>k n ad p c t. ae_seal A k n ad p = Some (c, t) \<longrightarrow>
        ae_open A k n ad c t = Some p \<and> length c = length p \<and> length t = 16)"

text \<open>A concrete instance of the law, for witnesses: the identity with a constant tag.\<close>

definition example_aead :: aead where
  "example_aead =
     \<lparr>ae_seal = (\<lambda>k n ad p. Some (p, replicate 16 0)),
      ae_open = (\<lambda>k n ad c t. if t = replicate 16 0 then Some c else None)\<rparr>"

lemma example_aead_correct: "aead_correct example_aead"
  by (simp add: aead_correct_def example_aead_def)

section \<open>The session cipher\<close>

datatype session_error =
  InvalidNonce | NonceExhausted | EncryptionFailed | DecryptionFailed | ReplayedNonce

record encrypted_frame =
  ef_nonce :: bytes
  ef_ciphertext :: bytes

record session_cipher =
  sc_key :: bytes
  sc_nonce_prefix :: bytes
  sc_counter :: u32
  sc_last_recv_counter :: u64

definition MAX_NONCE_COUNTER :: u32 where "MAX_NONCE_COUNTER = - 1 - 1"

definition SessionCipher_new :: "bytes \<Rightarrow> bytes \<Rightarrow> session_cipher" where
  "SessionCipher_new key nonce_prefix =
     \<lparr>sc_key = key, sc_nonce_prefix = nonce_prefix, sc_counter = 0, sc_last_recv_counter = - 1\<rparr>"

definition build_nonce :: "session_cipher \<Rightarrow> u32 \<Rightarrow> bytes" where
  "build_nonce c counter = sc_nonce_prefix c @ be32 counter"

text \<open>
  \<^verbatim>\<open>fetch_add\<close> returns the old value and wraps around; it happens before the limit is checked.
\<close>

definition encrypt_in_place_detached ::
  "aead \<Rightarrow> bytes \<Rightarrow> session_cipher
     \<Rightarrow> (session_error, bytes \<times> bytes \<times> bytes) outcome \<times> session_cipher" where
  "encrypt_in_place_detached A payload c =
     (let count = sc_counter c; c' = c\<lparr>sc_counter := count + 1\<rparr>
      in if count \<ge> MAX_NONCE_COUNTER then (Err NonceExhausted, c')
         else
           let nonce_bytes = build_nonce c count
           in case ae_seal A (sc_key c) nonce_bytes [] payload of
                None \<Rightarrow> (Err EncryptionFailed, c')
              | Some (payload, tag) \<Rightarrow> (Ok (nonce_bytes, payload, tag), c'))"

definition SessionCipher_encrypt ::
  "aead \<Rightarrow> bytes \<Rightarrow> session_cipher \<Rightarrow> (session_error, encrypted_frame) outcome \<times> session_cipher" where
  "SessionCipher_encrypt A plaintext c =
     (let count = sc_counter c; c' = c\<lparr>sc_counter := count + 1\<rparr>
      in if count \<ge> MAX_NONCE_COUNTER then (Err NonceExhausted, c')
         else
           let nonce_bytes = build_nonce c count
           in case ae_seal A (sc_key c) nonce_bytes [] plaintext of
                None \<Rightarrow> (Err EncryptionFailed, c')
              | Some (ct, tag) \<Rightarrow>
                  (Ok \<lparr>ef_nonce = nonce_bytes, ef_ciphertext = ct @ tag\<rparr>, c'))"

text \<open>The counter in bytes 8 to 12 of a nonce; \<open>InvalidNonce\<close> when they are not there.\<close>

definition nonce_counter :: "bytes \<Rightarrow> (session_error, u64) outcome" where
  "nonce_counter nonce =
     (if 12 \<le> length nonce then Ok (ucast (of_be32 (take 4 (drop 8 nonce)))) else Err InvalidNonce)"

definition decrypt_in_place_detached ::
  "aead \<Rightarrow> bytes \<Rightarrow> bytes \<Rightarrow> bytes \<Rightarrow> session_cipher
     \<Rightarrow> (session_error, bytes) outcome \<times> session_cipher" where
  "decrypt_in_place_detached A nonce_bytes payload tag c =
     (case nonce_counter nonce_bytes of
        Ok counter \<Rightarrow>
          let last = sc_last_recv_counter c
          in if last \<noteq> - 1 \<and> counter \<le> last then (Err ReplayedNonce, c)
             else (case ae_open A (sc_key c) nonce_bytes [] payload tag of
                     None \<Rightarrow> (Err DecryptionFailed, c)
                   | Some plaintext \<Rightarrow> (Ok plaintext, c\<lparr>sc_last_recv_counter := counter\<rparr>))
      | Err e \<Rightarrow> (Err e, c)
      | Panic \<Rightarrow> (Panic, c))"

definition SessionCipher_decrypt ::
  "aead \<Rightarrow> encrypted_frame \<Rightarrow> session_cipher \<Rightarrow> (session_error, bytes) outcome \<times> session_cipher" where
  "SessionCipher_decrypt A frame c =
     (let ct = ef_ciphertext frame in
      if length ct < 16 then
        (case nonce_counter (ef_nonce frame) of
           Ok counter \<Rightarrow>
             if sc_last_recv_counter c \<noteq> - 1 \<and> counter \<le> sc_last_recv_counter c
             then (Err ReplayedNonce, c) else (Err DecryptionFailed, c)
         | Err e \<Rightarrow> (Err e, c)
         | Panic \<Rightarrow> (Panic, c))
      else decrypt_in_place_detached A (ef_nonce frame) (take (length ct - 16) ct)
             (drop (length ct - 16) ct) c)"

section \<open>Sessions of the daemon\<close>

record session =
  se_peer_id :: node_id
  se_send :: session_cipher
  se_recv :: session_cipher

definition Session_encrypt_frame ::
  "aead \<Rightarrow> bytes \<Rightarrow> session \<Rightarrow> (session_error, transport_frame) outcome \<times> session" where
  "Session_encrypt_frame A plaintext s =
     (case encrypt_in_place_detached A plaintext (se_send s) of
        (Ok (nonce, payload, tag), c) \<Rightarrow>
          (Ok \<lparr>tf_frame_type = Data, tf_nonce = nonce, tf_payload = payload, tf_tag = tag\<rparr>,
           s\<lparr>se_send := c\<rparr>)
      | (Err e, c) \<Rightarrow> (Err e, s\<lparr>se_send := c\<rparr>)
      | (Panic, c) \<Rightarrow> (Panic, s\<lparr>se_send := c\<rparr>))"

definition Session_decrypt_frame ::
  "aead \<Rightarrow> transport_frame \<Rightarrow> session \<Rightarrow> (session_error, transport_frame) outcome \<times> session" where
  "Session_decrypt_frame A frame s =
     (case decrypt_in_place_detached A (tf_nonce frame) (tf_payload frame) (tf_tag frame) (se_recv s) of
        (Ok payload, c) \<Rightarrow> (Ok (frame\<lparr>tf_payload := payload\<rparr>), s\<lparr>se_recv := c\<rparr>)
      | (Err e, c) \<Rightarrow> (Err e, s\<lparr>se_recv := c\<rparr>)
      | (Panic, c) \<Rightarrow> (Panic, s\<lparr>se_recv := c\<rparr>))"

definition nonce_prefix :: "bytes \<Rightarrow> bool \<Rightarrow> bytes" where
  "nonce_prefix session_key is_initiator =
     (if is_initiator then take 8 session_key else take 8 (drop 8 session_key))"

text \<open>The two ends of a session, as both handshake roles construct them.\<close>

definition session_for :: "bytes \<Rightarrow> bool \<Rightarrow> node_id \<Rightarrow> session" where
  "session_for key is_initiator peer =
     \<lparr>se_peer_id = peer, se_send = SessionCipher_new key (nonce_prefix key is_initiator),
      se_recv = SessionCipher_new key (nonce_prefix key (\<not> is_initiator))\<rparr>"

section \<open>Sending and receiving sequences of frames\<close>

fun send_all ::
  "aead \<Rightarrow> bytes list \<Rightarrow> session \<Rightarrow> (session_error, transport_frame) outcome list \<times> session" where
  "send_all A [] s = ([], s)"
| "send_all A (p # ps) s =
     (let (r, s) = Session_encrypt_frame A p s; (rs, s) = send_all A ps s in (r # rs, s))"

fun recv_all ::
  "aead \<Rightarrow> transport_frame list \<Rightarrow> session \<Rightarrow> (session_error, transport_frame) outcome list \<times> session" where
  "recv_all A [] s = ([], s)"
| "recv_all A (f # fs) s =
     (let (r, s) = Session_decrypt_frame A f s; (rs, s) = recv_all A fs s in (r # rs, s))"

lemma encrypt_key_prefix [simp]:
  "sc_key (snd (encrypt_in_place_detached A p c)) = sc_key c"
  "sc_nonce_prefix (snd (encrypt_in_place_detached A p c)) = sc_nonce_prefix c"
  "sc_counter (snd (encrypt_in_place_detached A p c)) = sc_counter c + 1"
  by (auto simp: encrypt_in_place_detached_def Let_def split: option.split prod.split)

lemma Session_encrypt_frame_send:
  "se_send (snd (Session_encrypt_frame A p s)) = snd (encrypt_in_place_detached A p (se_send s))"
  by (simp add: Session_encrypt_frame_def split: prod.split outcome.split)

text \<open>The outcome of the i-th send, in terms of the wrapped counter.\<close>

lemma send_all_nth:
  "i < length ps \<Longrightarrow>
   fst (send_all A ps s) ! i =
     fst (Session_encrypt_frame A (ps ! i)
       (s\<lparr>se_send := (se_send s)\<lparr>sc_counter := sc_counter (se_send s) + of_nat i\<rparr>\<rparr>))"
proof (induction ps arbitrary: s i)
  case (Cons p ps)
  have upd: "snd (encrypt_in_place_detached A p c) = c\<lparr>sc_counter := sc_counter c + 1\<rparr>" for c
    by (auto simp: encrypt_in_place_detached_def Let_def split: option.split prod.split)
  have st: "snd (Session_encrypt_frame A p s) =
      s\<lparr>se_send := (se_send s)\<lparr>sc_counter := sc_counter (se_send s) + 1\<rparr>\<rparr>"
    using upd [of "se_send s"]
    by (auto simp: Session_encrypt_frame_def split: prod.split outcome.split)
  show ?case
  proof (cases i)
    case 0
    then show ?thesis by (simp add: Let_def split_def)
  next
    case (Suc j)
    with Cons show ?thesis by (simp add: Let_def split_def st ac_simps)
  qed
qed simp

lemma length_send_all: "length (fst (send_all A ps s)) = length ps"
  by (induction ps arbitrary: s) (simp_all add: Let_def split_def)

lemma Session_encrypt_frame_Ok:
  assumes "fst (Session_encrypt_frame A p s) = Ok f"
  shows "tf_nonce f = build_nonce (se_send s) (sc_counter (se_send s))
    \<and> sc_counter (se_send s) < MAX_NONCE_COUNTER
    \<and> ae_seal A (sc_key (se_send s)) (tf_nonce f) [] p = Some (tf_payload f, tf_tag f)"
  using assms
  by (auto simp: Session_encrypt_frame_def encrypt_in_place_detached_def Let_def not_le
      split: prod.splits outcome.splits option.splits if_splits)

lemma send_all_Ok:
  assumes "i < length ps" "fst (send_all A ps s) ! i = Ok f"
  shows "tf_nonce f = build_nonce (se_send s) (sc_counter (se_send s) + of_nat i)
    \<and> sc_counter (se_send s) + of_nat i < MAX_NONCE_COUNTER
    \<and> ae_seal A (sc_key (se_send s)) (tf_nonce f) [] (ps ! i) = Some (tf_payload f, tf_tag f)"
  using Session_encrypt_frame_Ok [OF assms(2) [unfolded send_all_nth [OF assms(1)]]]
  by (auto simp: build_nonce_def)

section \<open>Nonces\<close>

lemma be32_inject [simp]: "be32 a = be32 b \<longleftrightarrow> a = b"
  by (metis of_be32_be32)

lemma of_nat_u32_eq:
  assumes "i < 4294967296" "j < 4294967296" "of_nat i = (of_nat j :: u32)"
  shows "i = j"
proof -
  have "unat (of_nat i :: u32) = i" "unat (of_nat j :: u32) = j"
    using assms(1,2) by (simp_all add: unat_of_nat)
  then show ?thesis using assms(3) by metis
qed

text \<open>
  Claim C17: among the frames a session produces in at most \<open>2 ^ 32\<close> calls, no two carry the same nonce.
\<close>

theorem nonces_unique:
  assumes "i < j" "j < length ps" "length ps \<le> 2 ^ 32"
    and "fst (send_all A ps s) ! i = Ok f" "fst (send_all A ps s) ! j = Ok g"
  shows "tf_nonce f \<noteq> tf_nonce g"
proof
  assume eq: "tf_nonce f = tf_nonce g"
  have "tf_nonce f = build_nonce (se_send s) (sc_counter (se_send s) + of_nat i)"
    "tf_nonce g = build_nonce (se_send s) (sc_counter (se_send s) + of_nat j)"
    using send_all_Ok [OF _ assms(4)] send_all_Ok [OF assms(2,5)] assms(1,2) by simp_all
  with eq have "of_nat i = (of_nat j :: u32)" by (simp add: build_nonce_def)
  with of_nat_u32_eq [of i j] assms show False by simp
qed

theorem nonces_unique_witness:
  "let s = session_for (replicate 32 7) True (NodeId (replicate 16 1));
       rs = fst (send_all example_aead [[1], [2]] s)
   in \<exists>f g. rs ! 0 = Ok f \<and> rs ! 1 = Ok g \<and> tf_nonce f \<noteq> tf_nonce g"
proof -
  let ?s = "session_for (replicate 32 7) True (NodeId (replicate 16 1))"
  have "is_ok (fst (send_all example_aead [[1], [2]] ?s) ! 0)"
    "is_ok (fst (send_all example_aead [[1], [2]] ?s) ! 1)" by code_simp+
  then obtain f g where "fst (send_all example_aead [[1], [2]] ?s) ! 0 = Ok f"
    "fst (send_all example_aead [[1], [2]] ?s) ! 1 = Ok g"
    by (elim is_okE)
  with nonces_unique [of 0 1 "[[1], [2]]" example_aead ?s f g] show ?thesis
    by (auto simp: Let_def)
qed



section \<open>Replay protection\<close>

definition frame_counter :: "transport_frame \<Rightarrow> u32" where
  "frame_counter f = of_be32 (take 4 (drop 8 (tf_nonce f)))"

lemma ucast_u32_not_max [simp]: "(ucast (w :: u32) :: u64) \<noteq> - 1"
proof
  assume "(ucast w :: u64) = - 1"
  then have "unat w = unat (- 1 :: u64)" by (metis unat_ucast_up(4))
  with unat_less(3) [of w] show False by (simp add: unsigned_minus_1_eq_mask mask_eq_exp_minus_1)
qed

lemma ucast_u32_less: "(ucast (v :: u32) :: u64) < ucast (w :: u32) \<longleftrightarrow> v < w"
  by (simp add: word_less_nat_alt)

lemma Session_decrypt_frame_Ok:
  assumes "fst (Session_decrypt_frame A f s) = Ok g"
  shows "(sc_last_recv_counter (se_recv s) = - 1
           \<or> sc_last_recv_counter (se_recv s) < ucast (frame_counter f))
    \<and> snd (Session_decrypt_frame A f s) =
        s\<lparr>se_recv := (se_recv s)\<lparr>sc_last_recv_counter := ucast (frame_counter f)\<rparr>\<rparr>"
  using assms
  by (auto simp: Session_decrypt_frame_def decrypt_in_place_detached_def nonce_counter_def Let_def
      frame_counter_def not_le split: prod.splits outcome.splits option.splits if_splits)

lemma Session_decrypt_frame_not_Ok:
  assumes "\<not> is_ok (fst (Session_decrypt_frame A f s))"
  shows "snd (Session_decrypt_frame A f s) = s"
  using assms
  by (auto simp: Session_decrypt_frame_def decrypt_in_place_detached_def nonce_counter_def Let_def
      split: prod.splits outcome.splits option.splits if_splits)

lemma recv_all_above:
  "sc_last_recv_counter (se_recv s) \<noteq> - 1 \<Longrightarrow> j < length fs \<Longrightarrow> fst (recv_all A fs s) ! j = Ok g \<Longrightarrow>
   sc_last_recv_counter (se_recv s) < ucast (frame_counter (fs ! j))"
proof (induction fs arbitrary: s j)
  case (Cons f fs)
  let ?s = "snd (Session_decrypt_frame A f s)"
  have ge: "sc_last_recv_counter (se_recv s) \<le> sc_last_recv_counter (se_recv ?s)
      \<and> sc_last_recv_counter (se_recv ?s) \<noteq> - 1"
  proof (cases "is_ok (fst (Session_decrypt_frame A f s))")
    case True
    then show ?thesis using Session_decrypt_frame_Ok [of A f s] Cons.prems(1) by (elim is_okE) auto
  next
    case False
    then show ?thesis using Session_decrypt_frame_not_Ok [of A f s] Cons.prems(1) by auto
  qed
  show ?case
  proof (cases j)
    case 0
    then show ?thesis
      using Cons.prems Session_decrypt_frame_Ok [of A f s g] by (auto simp: Let_def split_def)
  next
    case (Suc k)
    with Cons.prems have "fst (recv_all A fs ?s) ! k = Ok g" "k < length fs"
      by (simp_all add: Let_def split_def)
    from Cons.IH [OF _ this(2) this(1)] ge Suc show ?thesis by (auto intro: le_less_trans)
  qed
qed simp

text \<open>
  Claim C18: the frames a session accepts have strictly increasing counters, whatever the network
  delivers: in particular no frame is ever accepted twice.
\<close>

theorem accepted_counters_increase:
  assumes "i < j" "j < length fs"
    and "fst (recv_all A fs s) ! i = Ok f" "fst (recv_all A fs s) ! j = Ok g"
  shows "frame_counter (fs ! i) < frame_counter (fs ! j)"
  using assms
proof (induction fs arbitrary: s i j)
  case (Cons h fs)
  let ?s = "snd (Session_decrypt_frame A h s)"
  obtain k where j: "j = Suc k" using Cons.prems(1) by (cases j) auto
  show ?case
  proof (cases i)
    case 0
    then have "?s = s\<lparr>se_recv := (se_recv s)\<lparr>sc_last_recv_counter := ucast (frame_counter h)\<rparr>\<rparr>"
      using Cons.prems Session_decrypt_frame_Ok [of A h s f] by (simp add: Let_def split_def)
    with recv_all_above [of ?s k fs A g] Cons.prems 0 j show ?thesis
      by (simp add: Let_def split_def ucast_u32_less)
  next
    case (Suc m)
    with Cons.prems Cons.IH [of m k ?s] j show ?thesis by (simp add: Let_def split_def)
  qed
qed simp

theorem accepted_counters_increase_witness:
  "let key = replicate 32 7; n = NodeId (replicate 16 1);
       a = session_for key True n; b = session_for key False n;
       fs = map (\<lambda>r. case r of Ok f \<Rightarrow> f) (fst (send_all example_aead [[1], [2], [3]] a));
       rs = fst (recv_all example_aead [fs ! 0, fs ! 0, fs ! 2, fs ! 1] b)
   in is_ok (rs ! 0) \<and> is_ok (rs ! 2) \<and> frame_counter (fs ! 0) < frame_counter (fs ! 2)"
proof -
  let ?a = "session_for (replicate 32 7) True (NodeId (replicate 16 1))"
  let ?b = "session_for (replicate 32 7) False (NodeId (replicate 16 1))"
  let ?fs = "map (\<lambda>r. case r of Ok f \<Rightarrow> f) (fst (send_all example_aead [[1], [2], [3]] ?a))"
  let ?in = "[?fs ! 0, ?fs ! 0, ?fs ! 2, ?fs ! 1]"
  have ok: "is_ok (fst (recv_all example_aead ?in ?b) ! 0)" "is_ok (fst (recv_all example_aead ?in ?b) ! 2)"
    by code_simp+
  then obtain f g where "fst (recv_all example_aead ?in ?b) ! 0 = Ok f"
    "fst (recv_all example_aead ?in ?b) ! 2 = Ok g" by (elim is_okE)
  from accepted_counters_increase [OF _ _ this] ok show ?thesis by (simp add: Let_def)
qed

section \<open>Delivery\<close>

lemma decrypt_sent:
  assumes "aead_correct A" "sc_key (se_recv r) = sc_key (se_send s)"
    and "length (sc_nonce_prefix (se_send s)) = 8" "sc_counter (se_send s) = 0"
    and "i < length ps" "length ps \<le> 2 ^ 32" "fst (send_all A ps s) ! i = Ok f"
    and "sc_last_recv_counter (se_recv r) = - 1 \<or> unat (sc_last_recv_counter (se_recv r)) < i"
  shows "Session_decrypt_frame A f r =
    (Ok (f\<lparr>tf_payload := ps ! i\<rparr>),
     r\<lparr>se_recv := (se_recv r)\<lparr>sc_last_recv_counter := ucast (of_nat i :: u32)\<rparr>\<rparr>)"
proof -
  have f: "tf_nonce f = sc_nonce_prefix (se_send s) @ be32 (of_nat i)"
    "ae_seal A (sc_key (se_send s)) (tf_nonce f) [] (ps ! i) = Some (tf_payload f, tf_tag f)"
    using send_all_Ok [OF assms(5,7)] assms(4) by (auto simp: build_nonce_def)
  have "nonce_counter (tf_nonce f) = Ok (ucast (of_nat i :: u32))"
    using assms(3) by (simp add: f(1) nonce_counter_def)
  moreover have "ae_open A (sc_key (se_recv r)) (tf_nonce f) [] (tf_payload f) (tf_tag f) = Some (ps ! i)"
    using assms(1,2) f(2) by (auto simp: aead_correct_def)
  moreover have "unat (of_nat i :: u32) = i" using assms(5,6) by (simp add: unat_of_nat)
  ultimately show ?thesis
    using assms(8)
    by (auto simp: Session_decrypt_frame_def decrypt_in_place_detached_def Let_def word_le_nat_alt)
qed

text \<open>
  What one end of a session sends, the other end receives. If the frames sent are delivered
  in order, with any of them lost, every delivered frame is accepted and decrypts to the plaintext
  that was sent, for any correct authenticated cipher.
\<close>

theorem session_delivers:
  assumes "aead_correct A" "16 \<le> length key" "length ps \<le> 2 ^ 32"
    and "fst (send_all A ps (session_for key role peer)) = map Ok fs"
    and "sorted_wrt (<) is" "\<forall>i\<in>set is. i < length ps"
  shows "fst (recv_all A (map (\<lambda>i. fs ! i) is) (session_for key (\<not> role) peer'))
           = map (\<lambda>i. Ok ((fs ! i)\<lparr>tf_payload := ps ! i\<rparr>)) is"
proof -
  let ?s = "session_for key role peer"
  have len: "length fs = length ps"
    using assms(4) length_send_all [of A ps ?s] by simp
  have sent: "fst (send_all A ps ?s) ! i = Ok (fs ! i)" if "i < length ps" for i
    using that len by (simp add: assms(4))
  have s: "sc_counter (se_send ?s) = 0" "length (sc_nonce_prefix (se_send ?s)) = 8" "sc_key (se_send ?s) = key"
    using assms(2) by (simp_all add: session_for_def SessionCipher_new_def nonce_prefix_def)
  have "sc_key (se_recv r) = key \<Longrightarrow>
      (\<forall>i\<in>set is. sc_last_recv_counter (se_recv r) = - 1 \<or> unat (sc_last_recv_counter (se_recv r)) < i) \<Longrightarrow>
      fst (recv_all A (map (\<lambda>i. fs ! i) is) r) = map (\<lambda>i. Ok ((fs ! i)\<lparr>tf_payload := ps ! i\<rparr>)) is" for r
    using assms(5,6)
  proof (induction "is" arbitrary: r)
    case (Cons i "is")
    let ?r = "r\<lparr>se_recv := (se_recv r)\<lparr>sc_last_recv_counter := ucast (of_nat i :: u32)\<rparr>\<rparr>"
    have d: "Session_decrypt_frame A (fs ! i) r = (Ok ((fs ! i)\<lparr>tf_payload := ps ! i\<rparr>), ?r)"
      using Cons.prems s sent assms(1,3) by (intro decrypt_sent [where s = ?s]) auto
    have "unat (of_nat i :: u32) = i" using Cons.prems(4) assms(3) by (simp add: unat_of_nat)
    then have "fst (recv_all A (map (\<lambda>i. fs ! i) is) ?r) = map (\<lambda>i. Ok ((fs ! i)\<lparr>tf_payload := ps ! i\<rparr>)) is"
      using Cons.prems by (intro Cons.IH) auto
    with d show ?case by (simp add: Let_def split_def)
  qed simp
  then show ?thesis by (simp add: session_for_def SessionCipher_new_def)
qed

theorem session_delivers_witness:
  "let key = replicate 32 7; n = NodeId (replicate 16 1); ps = [[1], [2, 3], []];
       a = session_for key True n; b = session_for key False n;
       fs = map (\<lambda>r. case r of Ok f \<Rightarrow> f) (fst (send_all example_aead ps a))
   in fst (recv_all example_aead [fs ! 0, fs ! 2] b)
        = [Ok ((fs ! 0)\<lparr>tf_payload := [1]\<rparr>), Ok ((fs ! 2)\<lparr>tf_payload := []\<rparr>)]"
proof -
  let ?key = "replicate 32 7" and ?n = "NodeId (replicate 16 1)"
  let ?ps = "[[1], [2, 3], []]"
  let ?fs = "map (\<lambda>r. case r of Ok f \<Rightarrow> f) (fst (send_all example_aead ?ps (session_for ?key True ?n)))"
  have sent: "fst (send_all example_aead ?ps (session_for ?key True ?n)) = map Ok ?fs"
    by code_simp
  show ?thesis
    using session_delivers [OF example_aead_correct _ _ sent, of "[0, 2]" ?n]
    by (simp add: Let_def)
qed

text \<open>
  Half of the session key travels in the clear: the nonce prefixes of the two directions are the
  first sixteen bytes of the key, and a nonce is part of every frame.
\<close>

lemma nonces_reveal_key:
  assumes "16 \<le> length key"
    and "fst (Session_encrypt_frame A p (session_for key True n)) = Ok f"
    and "fst (Session_encrypt_frame A q (session_for key False m)) = Ok g"
  shows "take 8 (tf_nonce f) @ take 8 (tf_nonce g) = take 16 key"
  using Session_encrypt_frame_Ok [OF assms(2)] Session_encrypt_frame_Ok [OF assms(3)] assms(1)
    take_add [of 8 8 key]
  by (simp add: session_for_def SessionCipher_new_def nonce_prefix_def build_nonce_def)

end
