(* ===== verification/Key_Exchange.thy ===== *)
theory Key_Exchange
  imports Session_Cipher Control_Frames
begin

text \<open>
  Public-key parts of the program: end-to-end encryption to a gateway
  (\<^verbatim>\<open>pim-crypto/src/e2e.rs\<close>), the authenticated handshake (\<^verbatim>\<open>pim-crypto/src/handshake.rs\<close>)
  and the signatures on route updates (\<^verbatim>\<open>pim-routing/src/signing.rs\<close>). X25519, Ed25519, HKDF and
  HMAC are parameters; randomness is passed in where the code draws it.
\<close>

section \<open>Primitives\<close>

record x25519 =
  x_public :: "bytes \<Rightarrow> bytes"
  x_dh :: "bytes \<Rightarrow> bytes \<Rightarrow> bytes"

text \<open>Both parties compute the same shared secret; public keys are 32 bytes.\<close>

definition x25519_correct :: "x25519 \<Rightarrow> bool" where
  "x25519_correct X \<longleftrightarrow>
     (\<forall>a b. x_dh X a (x_public X b) = x_dh X b (x_public X a)) \<and> (\<forall>a. length (x_public X a) = 32)"

record kdf =
  hkdf :: "bytes option \<Rightarrow> bytes \<Rightarrow> bytes \<Rightarrow> nat \<Rightarrow> bytes"
  hmac :: "bytes \<Rightarrow> bytes \<Rightarrow> bytes"

text \<open>
  Ed25519: the public key of a seed, signing with a seed, whether 32 bytes are a public key, and
  verification.
\<close>

record ed25519 =
  ed_public :: "bytes \<Rightarrow> bytes"
  ed_sign :: "bytes \<Rightarrow> bytes \<Rightarrow> bytes"
  ed_valid_key :: "bytes \<Rightarrow> bool"
  ed_verify :: "bytes \<Rightarrow> bytes \<Rightarrow> bytes \<Rightarrow> bool"

definition ed25519_correct :: "ed25519 \<Rightarrow> bool" where
  "ed25519_correct E \<longleftrightarrow>
     (\<forall>sk m. ed_valid_key E (ed_public E sk) \<and> ed_verify E (ed_public E sk) m (ed_sign E sk m))
     \<and> (\<forall>sk. length (ed_public E sk) = 32)"

section \<open>End-to-end encryption\<close>

datatype e2e_error = E2eTooShort | E2eDecryptionFailed | E2eEncryptionFailed

definition E2E_HEADER_SIZE :: nat where "E2E_HEADER_SIZE = 32 + 12"
definition E2E_TAG_SIZE :: nat where "E2E_TAG_SIZE = 16"

definition derive_e2e_key :: "kdf \<Rightarrow> bytes \<Rightarrow> bytes" where
  "derive_e2e_key K shared_secret = hkdf K None shared_secret (ascii ''pim-e2e-v1'') 32"

definition x25519_from_seed :: "kdf \<Rightarrow> bytes \<Rightarrow> bytes" where
  "x25519_from_seed K seed = hkdf K None seed (ascii ''pim-x25519-identity-v1'') 32"

definition x25519_public_from_seed :: "x25519 \<Rightarrow> kdf \<Rightarrow> bytes \<Rightarrow> bytes" where
  "x25519_public_from_seed X K seed = x_public X (x25519_from_seed K seed)"

definition e2e_encrypt ::
  "aead \<Rightarrow> x25519 \<Rightarrow> kdf \<Rightarrow> bytes \<Rightarrow> bytes \<Rightarrow> bytes \<Rightarrow> bytes \<Rightarrow> (e2e_error, bytes) outcome" where
  "e2e_encrypt A X K ephemeral_secret nonce_bytes plaintext gateway_pub =
     (let ephemeral_pub = x_public X ephemeral_secret;
          shared_secret = x_dh X ephemeral_secret gateway_pub;
          key = derive_e2e_key K shared_secret
      in case ae_seal A key nonce_bytes [] plaintext of
           None \<Rightarrow> Err E2eEncryptionFailed
         | Some (ct, tag) \<Rightarrow> Ok (ephemeral_pub @ nonce_bytes @ ct @ tag))"

definition e2e_decrypt ::
  "aead \<Rightarrow> x25519 \<Rightarrow> kdf \<Rightarrow> bytes \<Rightarrow> bytes \<Rightarrow> (e2e_error, bytes) outcome" where
  "e2e_decrypt A X K ciphertext seed =
     (if length ciphertext < E2E_HEADER_SIZE + E2E_TAG_SIZE then Err E2eTooShort
      else and_then (subslice ciphertext 0 32) (\<lambda>ephemeral_pub.
        and_then (subslice ciphertext 32 44) (\<lambda>nonce.
          let gw_secret = x25519_from_seed K seed;
              shared_secret = x_dh X gw_secret ephemeral_pub;
              key = derive_e2e_key K shared_secret;
              tag_start = length ciphertext - E2E_TAG_SIZE
          in and_then (subslice ciphertext tag_start (length ciphertext)) (\<lambda>tag.
             and_then (subslice ciphertext E2E_HEADER_SIZE tag_start) (\<lambda>payload.
               case ae_open A key nonce [] payload tag of
                 None \<Rightarrow> Err E2eDecryptionFailed
               | Some plaintext \<Rightarrow> Ok plaintext)))))"

text \<open>
  The variant that works in the caller's buffer: the ciphertext is moved to the front, the buffer
  truncated, and decrypted where it is. It returns the buffer it leaves behind.
\<close>

definition e2e_decrypt_in_place ::
  "aead \<Rightarrow> x25519 \<Rightarrow> kdf \<Rightarrow> bytes \<Rightarrow> bytes \<Rightarrow> (e2e_error, unit) outcome \<times> bytes" where
  "e2e_decrypt_in_place A X K buffer seed =
     (if length buffer < E2E_HEADER_SIZE + E2E_TAG_SIZE then (Err E2eTooShort, buffer)
      else
        let ephemeral_pub = take 32 buffer;
            nonce = take 12 (drop 32 buffer);
            gw_secret = x25519_from_seed K seed;
            key = derive_e2e_key K (x_dh X gw_secret ephemeral_pub);
            ct_len = length buffer - E2E_HEADER_SIZE - E2E_TAG_SIZE;
            tag = drop (length buffer - E2E_TAG_SIZE) buffer;
            moved = take ct_len (drop E2E_HEADER_SIZE buffer) @ drop ct_len buffer;
            buffer = take ct_len moved
        in case ae_open A key nonce [] buffer tag of
             None \<Rightarrow> (Err E2eDecryptionFailed, buffer)
           | Some plaintext \<Rightarrow> (Ok (), plaintext))"

lemmas e2e_sizes = E2E_HEADER_SIZE_def E2E_TAG_SIZE_def

lemma e2e_decrypt_no_panic: "e2e_decrypt A X K ct seed \<noteq> Panic"
  by (simp add: e2e_decrypt_def e2e_sizes Let_def split: option.split)

lemma e2e_in_place_agrees:
  "e2e_decrypt A X K buf seed = Ok pt \<longleftrightarrow> e2e_decrypt_in_place A X K buf seed = (Ok (), pt)"
proof (cases "length buf < 60")
  case False
  moreover have "length buf - 16 - 44 = length buf - 60" by simp
  ultimately show ?thesis
    by (simp add: e2e_decrypt_def e2e_decrypt_in_place_def e2e_sizes Let_def split: option.split)
qed (simp add: e2e_decrypt_def e2e_decrypt_in_place_def e2e_sizes)

lemma e2e_opens:
  assumes "aead_correct A" "x25519_correct X" "length nonce = 12"
    and "e2e_encrypt A X K esk nonce pt (x25519_public_from_seed X K seed) = Ok ct"
  shows "e2e_decrypt A X K ct seed = Ok pt \<and> e2e_decrypt_in_place A X K ct seed = (Ok (), pt)
    \<and> length ct = length pt + 60"
proof -
  let ?pub = "x_public X esk"
  let ?key = "derive_e2e_key K (x_dh X esk (x25519_public_from_seed X K seed))"
  obtain c t where s: "ae_seal A ?key nonce [] pt = Some (c, t)" and ct: "ct = ?pub @ nonce @ c @ t"
    using assms(4) by (auto simp: e2e_encrypt_def Let_def split: option.splits)
  have o: "ae_open A ?key nonce [] c t = Some pt" "length t = 16" "length c = length pt"
    using assms(1) s by (auto simp: aead_correct_def)
  have l: "length ?pub = 32" using assms(2) by (simp add: x25519_correct_def)
  have dh: "x_dh X (x25519_from_seed K seed) ?pub = x_dh X esk (x25519_public_from_seed X K seed)"
    using assms(2) by (simp add: x25519_correct_def x25519_public_from_seed_def)
  have "e2e_decrypt A X K ct seed = Ok pt"
    using o l assms(3) by (simp add: ct e2e_decrypt_def e2e_sizes Let_def dh)
  then show ?thesis
    using o l assms(3) e2e_in_place_agrees [of A X K ct seed pt] by (simp add: ct)
qed


text \<open>Concrete instances of the laws, for witnesses.\<close>

definition example_x25519 :: x25519 where
  "example_x25519 = \<lparr>x_public = (\<lambda>a. replicate 32 9), x_dh = (\<lambda>a b. [1])\<rparr>"

definition example_kdf :: kdf where
  "example_kdf = \<lparr>hkdf = (\<lambda>salt ikm info n. replicate n (of_nat (length ikm))),
                  hmac = (\<lambda>k m. take 32 (k @ m))\<rparr>"

definition example_ed25519 :: ed25519 where
  "example_ed25519 =
     \<lparr>ed_public = (\<lambda>sk. take 32 (sk @ replicate 32 0)), ed_sign = (\<lambda>sk m. replicate 64 1),
      ed_valid_key = (\<lambda>pk. length pk = 32), ed_verify = (\<lambda>pk m sig. sig = replicate 64 1)\<rparr>"

lemma example_x25519_correct: "x25519_correct example_x25519"
  by (simp add: x25519_correct_def example_x25519_def)

lemma example_ed25519_correct: "ed25519_correct example_ed25519"
  by (simp add: ed25519_correct_def example_ed25519_def min_def)


section \<open>Handshake\<close>

datatype handshake_error =
  InvalidPublicKey | InvalidSignature | ConfirmMismatch | InvalidState

text \<open>\<^verbatim>\<open>HandshakeInit\<close> and \<^verbatim>\<open>HandshakeResponse\<close> have the same fields.\<close>

record handshake_hello =
  hh_sender_pub :: bytes
  hh_ephemeral_pub :: bytes
  hh_nonce :: bytes
  hh_signature :: bytes

record handshaker =
  hs_signing_key :: bytes
  hs_verifying_key :: bytes
  hs_ephemeral_secret :: "bytes option"
  hs_ephemeral_pub :: "bytes option"
  hs_session_key :: "bytes option"
  hs_transcript :: bytes
  hs_mesh_handshake_key :: "bytes option"

definition Handshaker_new :: "ed25519 \<Rightarrow> bytes \<Rightarrow> handshaker" where
  "Handshaker_new E seed =
     \<lparr>hs_signing_key = seed, hs_verifying_key = ed_public E seed, hs_ephemeral_secret = None,
      hs_ephemeral_pub = None, hs_session_key = None, hs_transcript = [],
      hs_mesh_handshake_key = None\<rparr>"

definition with_mesh_handshake_key :: "bytes \<Rightarrow> handshaker \<Rightarrow> handshaker" where
  "with_mesh_handshake_key key h = h\<lparr>hs_mesh_handshake_key := Some key\<rparr>"

definition ikm_with_mesh :: "handshaker \<Rightarrow> bytes \<Rightarrow> bytes" where
  "ikm_with_mesh h shared_secret =
     shared_secret @ (case hs_mesh_handshake_key h of Some k \<Rightarrow> k | None \<Rightarrow> [])"

definition initiate ::
  "ed25519 \<Rightarrow> x25519 \<Rightarrow> bytes \<Rightarrow> bytes \<Rightarrow> handshaker \<Rightarrow> handshake_hello \<times> handshaker" where
  "initiate E X ephemeral_secret nonce h =
     (let ephemeral_pub = x_public X ephemeral_secret;
          msg = ephemeral_pub @ nonce;
          signature = ed_sign E (hs_signing_key h) msg;
          init = \<lparr>hh_sender_pub = hs_verifying_key h, hh_ephemeral_pub = ephemeral_pub,
                  hh_nonce = nonce, hh_signature = signature\<rparr>
      in (init,
          h\<lparr>hs_ephemeral_secret := Some ephemeral_secret, hs_ephemeral_pub := Some ephemeral_pub,
            hs_transcript := hs_transcript h @ hh_sender_pub init @ hh_ephemeral_pub init
              @ hh_nonce init\<rparr>))"

definition verify_hello :: "ed25519 \<Rightarrow> handshake_hello \<Rightarrow> (handshake_error, unit) outcome" where
  "verify_hello E m =
     (if \<not> ed_valid_key E (hh_sender_pub m) then Err InvalidPublicKey
      else if \<not> ed_verify E (hh_sender_pub m) (hh_ephemeral_pub m @ hh_nonce m) (hh_signature m)
      then Err InvalidSignature
      else Ok ())"

definition derive_session_key :: "kdf \<Rightarrow> bytes \<Rightarrow> bytes \<Rightarrow> bytes" where
  "derive_session_key K salt ikm = hkdf K (Some salt) ikm (ascii ''pim-session-v1'') 32"

definition respond ::
  "ed25519 \<Rightarrow> x25519 \<Rightarrow> kdf \<Rightarrow> bytes \<Rightarrow> bytes \<Rightarrow> handshake_hello \<Rightarrow> handshaker
     \<Rightarrow> (handshake_error, handshake_hello \<times> handshaker) outcome" where
  "respond E X K ephemeral_secret nonce init h =
     and_then (verify_hello E init) (\<lambda>_.
       let ephemeral_pub = x_public X ephemeral_secret;
           signature = ed_sign E (hs_signing_key h) (ephemeral_pub @ nonce);
           shared_secret = x_dh X ephemeral_secret (hh_ephemeral_pub init);
           transcript = hs_transcript h @ hh_sender_pub init @ hh_ephemeral_pub init @ hh_nonce init
             @ hs_verifying_key h @ ephemeral_pub @ nonce;
           salt = hh_nonce init @ nonce;
           key = derive_session_key K salt (ikm_with_mesh h shared_secret)
       in Ok (\<lparr>hh_sender_pub = hs_verifying_key h, hh_ephemeral_pub = ephemeral_pub,
               hh_nonce = nonce, hh_signature = signature\<rparr>,
              h\<lparr>hs_transcript := transcript, hs_session_key := Some key,
                hs_ephemeral_pub := Some ephemeral_pub\<rparr>))"

definition finalize_initiator ::
  "ed25519 \<Rightarrow> x25519 \<Rightarrow> kdf \<Rightarrow> handshake_hello \<Rightarrow> handshaker
     \<Rightarrow> (handshake_error, handshaker) outcome" where
  "finalize_initiator E X K response h =
     and_then (verify_hello E response) (\<lambda>_.
       case hs_ephemeral_secret h of
         None \<Rightarrow> Err InvalidState
       | Some ephemeral_secret \<Rightarrow>
           let shared_secret = x_dh X ephemeral_secret (hh_ephemeral_pub response);
               transcript = hs_transcript h @ hh_sender_pub response @ hh_ephemeral_pub response
                 @ hh_nonce response
           in and_then (subslice transcript 64 96) (\<lambda>init_nonce.
                let salt = init_nonce @ hh_nonce response;
                    key = derive_session_key K salt (ikm_with_mesh h shared_secret)
                in Ok (h\<lparr>hs_ephemeral_secret := None, hs_transcript := transcript,
                          hs_session_key := Some key\<rparr>)))"

definition make_confirm :: "kdf \<Rightarrow> handshaker \<Rightarrow> (handshake_error, bytes) outcome" where
  "make_confirm K h =
     (case hs_session_key h of
        None \<Rightarrow> Err InvalidState
      | Some key \<Rightarrow> Ok (hmac K key (hs_transcript h)))"

definition verify_confirm :: "kdf \<Rightarrow> bytes \<Rightarrow> handshaker \<Rightarrow> (handshake_error, unit) outcome" where
  "verify_confirm K mac h =
     (case hs_session_key h of
        None \<Rightarrow> Err InvalidState
      | Some key \<Rightarrow> if mac = hmac K key (hs_transcript h) then Ok () else Err ConfirmMismatch)"

text \<open>
  A complete run between two honest ends, with their mesh keys and all randomness: the initiator's
  and the responder's final state and the verdict on the confirmation.
\<close>

definition handshake_run ::
  "ed25519 \<Rightarrow> x25519 \<Rightarrow> kdf \<Rightarrow> bytes \<Rightarrow> bytes \<Rightarrow> bytes \<Rightarrow> bytes option \<Rightarrow> bytes \<Rightarrow> bytes \<Rightarrow> bytes
     \<Rightarrow> bytes option \<Rightarrow> (handshake_error, handshaker \<times> handshaker \<times> (handshake_error, unit) outcome) outcome"
  where
  "handshake_run E X K seed_i esk_i nonce_i mesh_i seed_r esk_r nonce_r mesh_r =
     (let mk = (\<lambda>seed mesh. case mesh of
                  None \<Rightarrow> Handshaker_new E seed
                | Some k \<Rightarrow> with_mesh_handshake_key k (Handshaker_new E seed));
          (init, hi) = initiate E X esk_i nonce_i (mk seed_i mesh_i)
      in and_then (respond E X K esk_r nonce_r init (mk seed_r mesh_r)) (\<lambda>(response, hr).
         and_then (finalize_initiator E X K response hi) (\<lambda>hi.
         and_then (make_confirm K hi) (\<lambda>mac. Ok (hi, hr, verify_confirm K mac hr)))))"

definition mesh_bytes :: "bytes option \<Rightarrow> bytes" where
  "mesh_bytes mesh = (case mesh of Some k \<Rightarrow> k | None \<Rightarrow> [])"

lemma handshake_run_result:
  fixes K :: kdf and seed_i esk_i seed_r esk_r nonce_r :: bytes
  assumes "ed25519_correct E" "x25519_correct X" "length nonce_i = 32"
  defines "shared \<equiv> x_dh X esk_i (x_public X esk_r)"
    and "T \<equiv> ed_public E seed_i @ x_public X esk_i @ nonce_i @ ed_public E seed_r @ x_public X esk_r @ nonce_r"
  defines "key \<equiv> \<lambda>mesh. derive_session_key K (nonce_i @ nonce_r) (shared @ mesh_bytes mesh)"
  shows "\<exists>hi hr. handshake_run E X K seed_i esk_i nonce_i mesh_i seed_r esk_r nonce_r mesh_r
           = Ok (hi, hr, if hmac K (key mesh_i) T = hmac K (key mesh_r) T then Ok () else Err ConfirmMismatch)
         \<and> hs_session_key hi = Some (key mesh_i) \<and> hs_session_key hr = Some (key mesh_r)"
proof -
  have len: "length (ed_public E sk) = 32" "length (x_public X a) = 32" for sk a
    using assms(1,2) by (simp_all add: ed25519_correct_def x25519_correct_def)
  have v: "verify_hello E \<lparr>hh_sender_pub = ed_public E sk, hh_ephemeral_pub = p, hh_nonce = n,
      hh_signature = ed_sign E sk (p @ n)\<rparr> = Ok ()" for sk p n
    using assms(1) by (simp add: verify_hello_def ed25519_correct_def)
  have dh: "x_dh X esk_r (x_public X esk_i) = shared"
    using assms(2) by (simp add: shared_def x25519_correct_def)
  show ?thesis
    using assms(3)
    by (auto simp: handshake_run_def Handshaker_new_def with_mesh_handshake_key_def initiate_def
        respond_def v finalize_initiator_def len Let_def dh shared_def [symmetric] ikm_with_mesh_def
        make_confirm_def verify_confirm_def key_def T_def mesh_bytes_def split: option.split)
qed

text \<open>
  A handshake between two honest nodes of the same mesh (or of none) succeeds: the
  responder accepts the confirmation and both ends hold the same session key.
\<close>

theorem handshake_agrees:
  assumes "ed25519_correct E" "x25519_correct X" "length nonce_i = 32"
  shows "\<exists>hi hr k. handshake_run E X K seed_i esk_i nonce_i mesh seed_r esk_r nonce_r mesh = Ok (hi, hr, Ok ())
           \<and> hs_session_key hi = Some k \<and> hs_session_key hr = Some k"
  using handshake_run_result [OF assms, of K seed_i esk_i mesh seed_r esk_r nonce_r mesh] by auto

theorem handshake_agrees_witness:
  "\<exists>hi hr k. handshake_run example_ed25519 example_x25519 example_kdf [1] [2] (replicate 32 3)
       (Some (replicate 32 4)) [5] [6] (replicate 32 7) (Some (replicate 32 4)) = Ok (hi, hr, Ok ())
     \<and> hs_session_key hi = Some k \<and> hs_session_key hr = Some k"
  by (rule handshake_agrees [OF example_ed25519_correct example_x25519_correct]) simp



section \<open>Route update signatures\<close>

definition signing_bytes :: "route_update_frame \<Rightarrow> bytes" where
  "signing_bytes f =
     as_bytes (ru_origin_id f) @ be64 (ru_sequence f) @ be16 (of_nat (length (ru_entries f)))
     @ concat (map (\<lambda>e. as_bytes (re_destination e) @ [re_hops e] @ [re_flags e] @ re_mesh_ip e)
                (ru_entries f))"

definition sign_route_update :: "ed25519 \<Rightarrow> bytes \<Rightarrow> route_update_frame \<Rightarrow> route_update_frame" where
  "sign_route_update E signing_key f = f\<lparr>ru_signature := ed_sign E signing_key (signing_bytes f)\<rparr>"

definition verify_route_update :: "ed25519 \<Rightarrow> bytes \<Rightarrow> route_update_frame \<Rightarrow> bool" where
  "verify_route_update E verifying_key f \<longleftrightarrow>
     ru_signature f \<noteq> replicate 64 0
     \<and> ed_verify E verifying_key (signing_bytes f) (ru_signature f)"

lemma encode_signing_bytes: "RouteUpdateFrame_encode f = signing_bytes f @ ru_signature f"
  by (simp add: RouteUpdateFrame_encode_def signing_bytes_def encode_entry_def [abs_def])

text \<open>
  Claim C24: the signature covers the whole update: two well-formed updates with the same signed bytes
  agree in every field except the signature, so a signature cannot be moved to another update; a
  signed update verifies under the signer's key unless its signature is all zeros, and an
  unsigned one (all zeros) is always rejected.
\<close>

theorem signature_covers_update:
  assumes "wf_route_update_frame f" "wf_route_update_frame g" "ed25519_correct E"
  shows "(signing_bytes f = signing_bytes g \<longleftrightarrow> f\<lparr>ru_signature := ru_signature g\<rparr> = g)
    \<and> (ed_sign E sk (signing_bytes f) \<noteq> replicate 64 0 \<longrightarrow>
         verify_route_update E (ed_public E sk) (sign_route_update E sk f))
    \<and> \<not> verify_route_update E pk (f\<lparr>ru_signature := replicate 64 0\<rparr>)"
proof -
  let ?f = "f\<lparr>ru_signature := ru_signature g\<rparr>"
  have sb: "signing_bytes (h\<lparr>ru_signature := x\<rparr>) = signing_bytes h" for h x
    by (simp add: signing_bytes_def)
  have "wf_route_update_frame ?f" using assms by (simp add: wf_route_update_frame_def)
  from route_codec.encode_inject [OF this assms(2)]
  have "signing_bytes f = signing_bytes g \<longleftrightarrow> ?f = g"
    by (simp add: encode_signing_bytes sb)
  then show ?thesis
    using assms(3)
    by (simp add: sign_route_update_def verify_route_update_def sb ed25519_correct_def)
qed

theorem signature_covers_update_witness:
  "let f = \<lparr>ru_origin_id = NodeId (replicate 16 1), ru_sequence = 7, ru_entries = [],
            ru_signature = replicate 64 0\<rparr>
   in wf_route_update_frame f
      \<and> verify_route_update example_ed25519 (ed_public example_ed25519 [9])
          (sign_route_update example_ed25519 [9] f)"
proof -
  let ?f = "\<lparr>ru_origin_id = NodeId (replicate 16 1), ru_sequence = 7, ru_entries = [],
            ru_signature = replicate 64 0\<rparr>"
  have wf: "wf_route_update_frame ?f" by (simp add: wf_route_update_frame_def wf_node_id_def)
  have "ed_sign example_ed25519 [9] (signing_bytes ?f) \<noteq> replicate 64 0"
    by (simp add: example_ed25519_def replicate_eq_replicate)
  with signature_covers_update [OF wf wf example_ed25519_correct, of "[9]"] wf show ?thesis
    by (simp add: Let_def)
qed

end
