(* ===== verification/Fragmentation.thy ===== *)
theory Fragmentation
  imports Core_Types
begin

text \<open>
  Packet fragmentation (\<^verbatim>\<open>fragment_frame.rs\<close>) and reassembly (\<^verbatim>\<open>reassembler.rs\<close>). The lemmas
  show that the fragments of a packet partition it, that a reassembly buffer is complete exactly
  when every byte is covered by a received chunk, and that the fragments of a packet, delivered in
  any order, with duplicates and mixed with other packets, give back exactly the packet, once.
\<close>

section \<open>Fragment frames\<close>

definition MAX_FRAGMENT_PAYLOAD :: nat where "MAX_FRAGMENT_PAYLOAD = 1200"
definition FRAGMENT_HEADER_SIZE :: nat where "FRAGMENT_HEADER_SIZE = 8"

record fragment_frame =
  ff_fragment_id :: u32
  ff_fragment_offset :: u16
  ff_total_length :: u16
  ff_payload :: bytes

definition FragmentFrame_serialize :: "fragment_frame \<Rightarrow> bytes" where
  "FragmentFrame_serialize f =
     be32 (ff_fragment_id f) @ be16 (ff_fragment_offset f) @ be16 (ff_total_length f) @ ff_payload f"

definition FragmentFrame_deserialize :: "bytes \<Rightarrow> fragment_frame option" where
  "FragmentFrame_deserialize buf =
     (if length buf < FRAGMENT_HEADER_SIZE then None
      else
        let fragment_id = of_be32 (take 4 buf);
            fragment_offset = of_be16 (take 2 (drop 4 buf));
            total_length = of_be16 (take 2 (drop 6 buf));
            payload = drop 8 buf;
            end = unat fragment_offset + length payload
        in if end > unat total_length then None
           else Some \<lparr>ff_fragment_id = fragment_id, ff_fragment_offset = fragment_offset,
                      ff_total_length = total_length, ff_payload = payload\<rparr>)"

definition FragmentFrame_is_last :: "fragment_frame \<Rightarrow> bool" where
  "FragmentFrame_is_last f \<longleftrightarrow>
     unat (ff_fragment_offset f) + length (ff_payload f) = unat (ff_total_length f)"

lemma FragmentFrame_deserialize_serialize:
  "unat (ff_fragment_offset f) + length (ff_payload f) \<le> unat (ff_total_length f) \<Longrightarrow>
   FragmentFrame_deserialize (FragmentFrame_serialize f) = Some f"
  by (simp add: FragmentFrame_deserialize_def FragmentFrame_serialize_def FRAGMENT_HEADER_SIZE_def)

text \<open>The loop of \<^verbatim>\<open>fragment_packet\<close>, from \<open>offset\<close> on.\<close>

function fragment_loop :: "bytes \<Rightarrow> u32 \<Rightarrow> u16 \<Rightarrow> nat \<Rightarrow> fragment_frame list" where
  "fragment_loop data fragment_id total_length offset =
     (if offset < length data then
        let end = min (offset + MAX_FRAGMENT_PAYLOAD) (length data)
        in \<lparr>ff_fragment_id = fragment_id, ff_fragment_offset = of_nat offset,
            ff_total_length = total_length, ff_payload = take (end - offset) (drop offset data)\<rparr>
           # fragment_loop data fragment_id total_length end
      else [])"
  by pat_completeness auto

termination fragment_loop
  by (relation "measure (\<lambda>(data, _, _, offset). length data - offset)")
    (auto simp: MAX_FRAGMENT_PAYLOAD_def)

declare fragment_loop.simps [simp del]

definition fragment_packet :: "bytes \<Rightarrow> u32 \<Rightarrow> fragment_frame list" where
  "fragment_packet data fragment_id =
     (if data = [] then []
      else
        let total_length = of_nat (length data)
        in fragment_loop data fragment_id total_length 0)"

section \<open>Reassembly\<close>

definition DEFAULT_REASSEMBLY_TIMEOUT :: duration where "DEFAULT_REASSEMBLY_TIMEOUT = 10"

text \<open>A \<^verbatim>\<open>BTreeMap\<close>, iterated by ascending key: a list of pairs strictly sorted by key.\<close>

type_synonym ('k, 'v) btree_map = "('k \<times> 'v) list"

fun bt_insert_vacant :: "'k::linorder \<Rightarrow> 'v \<Rightarrow> ('k, 'v) btree_map \<Rightarrow> ('k, 'v) btree_map" where
  "bt_insert_vacant k v [] = [(k, v)]"
| "bt_insert_vacant k v ((k', v') # m) =
     (if k < k' then (k, v) # (k', v') # m
      else if k = k' then (k', v') # m
      else (k', v') # bt_insert_vacant k v m)"

record reassembly_buffer =
  rb_total_length :: u16
  rb_chunks :: "(u16, bytes) btree_map"
  rb_created_at :: instant

definition ReassemblyBuffer_new :: "instant \<Rightarrow> u16 \<Rightarrow> reassembly_buffer" where
  "ReassemblyBuffer_new now total_length =
     \<lparr>rb_total_length = total_length, rb_chunks = [], rb_created_at = now\<rparr>"

definition ReassemblyBuffer_insert ::
  "u16 \<Rightarrow> bytes \<Rightarrow> reassembly_buffer \<Rightarrow> reassembly_buffer" where
  "ReassemblyBuffer_insert offset payload b =
     b\<lparr>rb_chunks := bt_insert_vacant offset payload (rb_chunks b)\<rparr>"

text \<open>The validation pass: how far \<open>[0, tot)\<close> is covered, unless there is a gap or an overrun.\<close>

fun scan_chunks :: "nat \<Rightarrow> nat \<Rightarrow> (u16 \<times> bytes) list \<Rightarrow> nat option" where
  "scan_chunks tot covered_up_to [] = Some covered_up_to"
| "scan_chunks tot covered_up_to ((offset, chunk) # cs) =
     (let start = unat offset in
      if start > covered_up_to then None
      else
        let end = start + length chunk in
        if end > tot then None
        else scan_chunks tot (if end > covered_up_to then end else covered_up_to) cs)"

text \<open>\<^verbatim>\<open>buf[start..end].copy_from_slice(chunk)\<close>, for a chunk the validation pass has accepted.\<close>

definition copy_chunk :: "u16 \<times> bytes \<Rightarrow> bytes \<Rightarrow> bytes" where
  "copy_chunk c buf =
     (case c of (offset, chunk) \<Rightarrow>
        let start = unat offset; end = start + length chunk
        in take start buf @ chunk @ drop end buf)"

definition ReassemblyBuffer_try_reassemble :: "reassembly_buffer \<Rightarrow> bytes option" where
  "ReassemblyBuffer_try_reassemble b =
     (let tot = unat (rb_total_length b) in
      case scan_chunks tot 0 (rb_chunks b) of
        None \<Rightarrow> None
      | Some covered_up_to \<Rightarrow>
          if covered_up_to \<noteq> tot then None
          else Some (fold copy_chunk (rb_chunks b) (replicate tot 0)))"

definition ReassemblyBuffer_is_expired :: "instant \<Rightarrow> duration \<Rightarrow> reassembly_buffer \<Rightarrow> bool" where
  "ReassemblyBuffer_is_expired now timeout b \<longleftrightarrow> now - rb_created_at b \<ge> timeout"

record reassembler =
  ra_timeout :: duration
  ra_buffers :: "(u32, reassembly_buffer) hash_map"

definition Reassembler_with_timeout :: "duration \<Rightarrow> reassembler" where
  "Reassembler_with_timeout timeout = \<lparr>ra_timeout = timeout, ra_buffers = []\<rparr>"

definition Reassembler_new :: reassembler where
  "Reassembler_new = \<lparr>ra_timeout = DEFAULT_REASSEMBLY_TIMEOUT, ra_buffers = []\<rparr>"

definition Reassembler_insert ::
  "instant \<Rightarrow> fragment_frame \<Rightarrow> reassembler \<Rightarrow> bytes option \<times> reassembler" where
  "Reassembler_insert now frame r =
     (let fid = ff_fragment_id frame;
          buf = (case hm_get (ra_buffers r) fid of
                   Some b \<Rightarrow> b
                 | None \<Rightarrow> ReassemblyBuffer_new now (ff_total_length frame))
      in if rb_total_length buf \<noteq> ff_total_length frame
         then (None, r\<lparr>ra_buffers := hm_insert fid buf (ra_buffers r)\<rparr>)
         else
           let buf = ReassemblyBuffer_insert (ff_fragment_offset frame) (ff_payload frame) buf
           in case ReassemblyBuffer_try_reassemble buf of
                Some packet \<Rightarrow> (Some packet, r\<lparr>ra_buffers := hm_remove fid (ra_buffers r)\<rparr>)
              | None \<Rightarrow> (None, r\<lparr>ra_buffers := hm_insert fid buf (ra_buffers r)\<rparr>))"

definition Reassembler_expire_stale :: "instant \<Rightarrow> reassembler \<Rightarrow> reassembler" where
  "Reassembler_expire_stale now r =
     r\<lparr>ra_buffers := hm_retain (\<lambda>_ b. \<not> ReassemblyBuffer_is_expired now (ra_timeout r) b)
                       (ra_buffers r)\<rparr>"

definition Reassembler_buffer_count :: "reassembler \<Rightarrow> nat" where
  "Reassembler_buffer_count r = length (ra_buffers r)"

section \<open>The fragments of a packet\<close>

text \<open>
  Fragment \<open>f\<close> covers byte \<open>i\<close>; it is a slice of \<open>data\<close>.
\<close>

definition covers :: "u16 \<times> bytes \<Rightarrow> nat \<Rightarrow> bool" where
  "covers c i \<longleftrightarrow> unat (fst c) \<le> i \<and> i < unat (fst c) + length (snd c)"

definition slice_of :: "bytes \<Rightarrow> u16 \<times> bytes \<Rightarrow> bool" where
  "slice_of data c \<longleftrightarrow>
     unat (fst c) + length (snd c) \<le> length data
     \<and> snd c = take (length (snd c)) (drop (unat (fst c)) data)"

definition chunk_of :: "fragment_frame \<Rightarrow> u16 \<times> bytes" where
  "chunk_of f = (ff_fragment_offset f, ff_payload f)"

lemma fragment_loop_induct [case_names finished step]:
  fixes P :: "nat \<Rightarrow> bool"
  assumes "\<And>offset. length data \<le> offset \<Longrightarrow> P offset"
    and "\<And>offset. offset < length data \<Longrightarrow> P (min (offset + 1200) (length data)) \<Longrightarrow> P offset"
  shows "P offset"
proof (induction "length data - offset" arbitrary: offset rule: less_induct)
  case less
  show ?case
  proof (cases "offset < length data")
    case True
    then have "P (min (offset + 1200) (length data))" by (intro less) auto
    with True show ?thesis by (rule assms(2))
  qed (simp add: assms(1))
qed

lemma fragment_loop_step:
  "offset < length data \<Longrightarrow>
   fragment_loop data fid tlen offset =
     \<lparr>ff_fragment_id = fid, ff_fragment_offset = of_nat offset, ff_total_length = tlen,
      ff_payload = take 1200 (drop offset data)\<rparr>
     # fragment_loop data fid tlen (min (offset + 1200) (length data))"
  by (subst fragment_loop.simps) (simp add: MAX_FRAGMENT_PAYLOAD_def Let_def min_def)

lemma fragment_loop_end: "length data \<le> offset \<Longrightarrow> fragment_loop data fid tlen offset = []"
  by (subst fragment_loop.simps) simp

lemma fragment_loop_concat:
  "concat (map ff_payload (fragment_loop data fid tlen offset)) = drop offset data"
proof (induction offset rule: fragment_loop_induct [of data])
  case (step offset)
  have "take 1200 (drop offset data) @ drop (min (offset + 1200) (length data)) data = drop offset data"
    by (cases "offset + 1200 \<le> length data")
      (simp_all add: min_def, metis append_take_drop_id drop_drop add.commute)
  with step show ?case by (simp add: fragment_loop_step)
qed (simp add: fragment_loop_end)

definition fragment_at :: "bytes \<Rightarrow> u32 \<Rightarrow> u16 \<Rightarrow> nat \<Rightarrow> fragment_frame" where
  "fragment_at data fid tlen offset =
     \<lparr>ff_fragment_id = fid, ff_fragment_offset = of_nat offset, ff_total_length = tlen,
      ff_payload = take 1200 (drop offset data)\<rparr>"

lemma set_fragment_loop_step:
  "offset < length data \<Longrightarrow>
   set (fragment_loop data fid tlen offset) =
     insert (fragment_at data fid tlen offset)
       (set (fragment_loop data fid tlen (min (offset + 1200) (length data))))"
  by (simp add: fragment_loop_step fragment_at_def)

lemma fragment_at_facts:
  assumes "length data < 65536" "offset < length data"
  shows "ff_fragment_id (fragment_at data fid tlen offset) = fid"
    and "ff_total_length (fragment_at data fid tlen offset) = tlen"
    and "unat (ff_fragment_offset (fragment_at data fid tlen offset)) = offset"
    and "0 < length (ff_payload (fragment_at data fid tlen offset))"
    and "length (ff_payload (fragment_at data fid tlen offset)) \<le> 1200"
    and "slice_of data (chunk_of (fragment_at data fid tlen offset))"
    and "covers (chunk_of (fragment_at data fid tlen offset)) i \<longleftrightarrow>
         offset \<le> i \<and> i < min (offset + 1200) (length data)"
  using assms
  by (simp_all add: fragment_at_def unat_of_nat slice_of_def chunk_of_def covers_def min_def)
    arith+

lemma fragment_loop_at:
  assumes "f \<in> set (fragment_loop data fid tlen offset)"
  shows "\<exists>k\<ge>offset. k < length data \<and> f = fragment_at data fid tlen k"
  using assms
proof (induction offset rule: fragment_loop_induct [of data])
  case (step offset)
  then consider "f = fragment_at data fid tlen offset"
    | "f \<in> set (fragment_loop data fid tlen (min (offset + 1200) (length data)))"
    by (auto simp: set_fragment_loop_step)
  then show ?case
  proof cases
    case 2
    with step.IH obtain k where "min (offset + 1200) (length data) \<le> k" "k < length data"
      "f = fragment_at data fid tlen k" by blast
    then show ?thesis by (intro exI [of _ k]) simp
  qed (use step in auto)
qed (simp add: fragment_loop_end)

lemma fragment_loop_disjoint:
  assumes "length data < 65536"
    "f \<in> set (fragment_loop data fid tlen offset)" "g \<in> set (fragment_loop data fid tlen offset)"
    "covers (chunk_of f) i" "covers (chunk_of g) i"
  shows "f = g"
  using assms(2,3)
proof (induction offset rule: fragment_loop_induct [of data])
  case (step offset)
  let ?e = "min (offset + 1200) (length data)"
  have rest: "?e \<le> i" if "h \<in> set (fragment_loop data fid tlen ?e)" "covers (chunk_of h) i" for h
    using fragment_loop_at [OF that(1)] that(2) assms(1)
    by (auto simp: fragment_at_facts)
  have hd: "i < ?e" if "covers (chunk_of (fragment_at data fid tlen offset)) i"
    using that step.hyps assms(1) by (simp add: fragment_at_facts)
  from step.prems step.hyps consider
      "f = fragment_at data fid tlen offset" "g = fragment_at data fid tlen offset"
    | "f = fragment_at data fid tlen offset" "g \<in> set (fragment_loop data fid tlen ?e)"
    | "f \<in> set (fragment_loop data fid tlen ?e)" "g = fragment_at data fid tlen offset"
    | "f \<in> set (fragment_loop data fid tlen ?e)" "g \<in> set (fragment_loop data fid tlen ?e)"
    by (auto simp: set_fragment_loop_step)
  then show ?case
    by cases (use rest [of f] rest [of g] hd assms(4,5) step.IH in \<open>auto simp del: min_less_iff_conj min_le_iff_disj\<close>)
qed (simp add: fragment_loop_end)

lemma fragment_loop_covers:
  assumes "length data < 65536" "offset \<le> i" "i < length data"
  shows "\<exists>f\<in>set (fragment_loop data fid tlen offset). covers (chunk_of f) i"
  using assms(2)
proof (induction offset rule: fragment_loop_induct [of data])
  case (finished offset)
  then show ?case using assms by simp
next
  case (step offset)
  show ?case
  proof (cases "i < offset + 1200")
    case True
    with step assms have "covers (chunk_of (fragment_at data fid tlen offset)) i"
      by (simp add: fragment_at_facts)
    with step show ?thesis by (simp add: set_fragment_loop_step)
  next
    case False
    with step have "\<exists>f\<in>set (fragment_loop data fid tlen (min (offset + 1200) (length data))).
        covers (chunk_of f) i" by simp
    with step show ?thesis by (auto simp: set_fragment_loop_step)
  qed
qed

lemma fragment_packet_loop:
  "fragment_packet data fid = fragment_loop data fid (of_nat (length data)) 0"
  by (simp add: fragment_packet_def Let_def fragment_loop_end)

section \<open>Completeness of a buffer\<close>

lemma scan_chunks_complete:
  assumes "sorted (map fst cs)" "cov \<le> tot"
  shows "scan_chunks tot cov cs = Some tot \<longleftrightarrow>
         (\<forall>c\<in>set cs. unat (fst c) + length (snd c) \<le> tot)
         \<and> (\<forall>i. cov \<le> i \<and> i < tot \<longrightarrow> (\<exists>c\<in>set cs. covers c i))"
  using assms
proof (induction cs arbitrary: cov)
  case Nil
  then show ?case by (auto intro: antisym)
next
  case (Cons c cs)
  obtain offset chunk where c: "c = (offset, chunk)" by (cases c)
  have later: "unat offset \<le> unat (fst d)" if "d \<in> set cs" for d
    using Cons.prems that by (auto simp: c word_le_nat_alt)
  consider (gap) "cov < unat offset" | (over) "unat offset \<le> cov" "tot < unat offset + length chunk"
    | (ok) "unat offset \<le> cov" "unat offset + length chunk \<le> tot" by linarith
  then show ?case
  proof cases
    case gap
    have "\<not> covers d cov" if "d \<in> set (c # cs)" for d
      using that gap later [of d] by (auto simp: c covers_def)
    moreover have "scan_chunks tot cov (c # cs) = None" using gap by (simp add: c)
    moreover have "tot < unat (fst c) + length (snd c)" if "\<not> cov < tot"
      using gap Cons.prems(2) that by (simp add: c)
    ultimately show ?thesis by (metis list.set_intros(1) not_le option.distinct(1) order_refl)
  next
    case ok
    define cov' where "cov' = (if unat offset + length chunk > cov then unat offset + length chunk else cov)"
    have ge: "cov \<le> cov'" "cov' \<le> tot" using ok Cons.prems by (auto simp: cov'_def)
    have cov: "covers c i \<longleftrightarrow> i < cov'" if "cov \<le> i" for i
      using ok that by (auto simp: c covers_def cov'_def)
    have "scan_chunks tot cov (c # cs) = scan_chunks tot cov' cs"
      using ok by (simp add: c cov'_def)
    also have "\<dots> = Some tot \<longleftrightarrow> (\<forall>c\<in>set cs. unat (fst c) + length (snd c) \<le> tot)
         \<and> (\<forall>i. cov' \<le> i \<and> i < tot \<longrightarrow> (\<exists>c\<in>set cs. covers c i))"
      using Cons.prems ge by (intro Cons.IH) auto
    also have "(\<forall>i. cov' \<le> i \<and> i < tot \<longrightarrow> (\<exists>c\<in>set cs. covers c i)) \<longleftrightarrow>
        (\<forall>i. cov \<le> i \<and> i < tot \<longrightarrow> (\<exists>d\<in>set (c # cs). covers d i))" (is "?L \<longleftrightarrow> ?R")
    proof
      show "?L \<Longrightarrow> ?R" using cov by (meson list.set_intros not_le)
      show "?R \<Longrightarrow> ?L" using cov ge(1) by (metis le_trans not_le set_ConsD)
    qed
    finally show ?thesis using ok by (simp add: c)
  qed (auto simp: c)
qed

lemma copy_chunk_slice:
  assumes "slice_of data c" "length buf = length data"
  shows "length (copy_chunk c buf) = length data"
    and "i < length data \<Longrightarrow> copy_chunk c buf ! i = (if covers c i then data ! i else buf ! i)"
proof -
  obtain offset chunk where c: "c = (offset, chunk)" by (cases c)
  have fits: "unat offset + length chunk \<le> length data"
    and slice: "chunk = take (length chunk) (drop (unat offset) data)"
    using assms by (simp_all add: c slice_of_def)
  from fits assms(2) show "length (copy_chunk c buf) = length data"
    by (simp add: c copy_chunk_def Let_def)
  have "chunk ! (i - unat offset) = data ! i" if "unat offset \<le> i" "i < unat offset + length chunk"
    using that fits by (subst slice) simp
  then show "copy_chunk c buf ! i = (if covers c i then data ! i else buf ! i)" if "i < length data"
    using fits assms(2) that by (auto simp: c copy_chunk_def Let_def covers_def nth_append)
qed

lemma copy_chunks_slices:
  assumes "\<forall>c\<in>set cs. slice_of data c" "length buf = length data"
  shows "length (fold copy_chunk cs buf) = length data \<and>
    (\<forall>i<length data. fold copy_chunk cs buf ! i =
        (if \<exists>c\<in>set cs. covers c i then data ! i else buf ! i))"
  using assms
proof (induction cs arbitrary: buf)
  case (Cons c cs)
  then have "length (copy_chunk c buf) = length data"
    "\<And>i. i < length data \<Longrightarrow> copy_chunk c buf ! i = (if covers c i then data ! i else buf ! i)"
    using copy_chunk_slice [of data c buf] by auto
  with Cons.IH [of "copy_chunk c buf"] Cons.prems show ?case by auto
qed simp

lemma try_reassemble_slices:
  assumes "sorted (map fst (rb_chunks b))" "unat (rb_total_length b) = length data"
    and "\<forall>c\<in>set (rb_chunks b). slice_of data c"
  shows "ReassemblyBuffer_try_reassemble b =
    (if \<forall>i<length data. \<exists>c\<in>set (rb_chunks b). covers c i then Some data else None)"
proof -
  have complete: "scan_chunks (length data) 0 (rb_chunks b) = Some (length data) \<longleftrightarrow>
      (\<forall>i<length data. \<exists>c\<in>set (rb_chunks b). covers c i)"
    using scan_chunks_complete [OF assms(1), of 0 "length data"] assms(3)
    by (auto simp: slice_of_def)
  show ?thesis
  proof (cases "\<forall>i<length data. \<exists>c\<in>set (rb_chunks b). covers c i")
    case True
    then have "fold copy_chunk (rb_chunks b) (replicate (length data) 0) = data"
      using copy_chunks_slices [OF assms(3), of "replicate (length data) 0"]
      by (intro nth_equalityI) auto
    with True complete show ?thesis
      by (simp add: ReassemblyBuffer_try_reassemble_def assms(2))
  next
    case False
    with complete show ?thesis
      by (auto simp: ReassemblyBuffer_try_reassemble_def assms(2) Let_def split: option.splits)
  qed
qed

section \<open>Reassembling a packet\<close>

lemma bt_insert_vacant_set:
  "sorted (map fst m) \<Longrightarrow> distinct (map fst m) \<Longrightarrow>
   set (bt_insert_vacant k v m) = (if k \<in> fst ` set m then set m else insert (k, v) (set m))"
  by (induction m) (auto simp: rev_image_eqI split: if_splits)

lemma bt_insert_vacant_sorted:
  "sorted (map fst m) \<Longrightarrow> distinct (map fst m) \<Longrightarrow>
   sorted (map fst (bt_insert_vacant k v m)) \<and> distinct (map fst (bt_insert_vacant k v m))"
proof (induction m)
  case (Cons p m)
  then show ?case
    by (cases p) (force simp: bt_insert_vacant_set not_less_iff_gr_or_eq split: if_splits)
qed simp

abbreviation fragments :: "bytes \<Rightarrow> u32 \<Rightarrow> fragment_frame set" where
  "fragments data fid \<equiv> set (fragment_packet data fid)"

text \<open>The reassembler holds exactly the fragments \<open>S\<close> of the packet \<open>data\<close> sent with id \<open>fid\<close>.\<close>

definition holds_fragments :: "bytes \<Rightarrow> u32 \<Rightarrow> fragment_frame set \<Rightarrow> reassembler \<Rightarrow> bool" where
  "holds_fragments data fid S r \<longleftrightarrow>
     (case hm_get (ra_buffers r) fid of
        None \<Rightarrow> S = {}
      | Some b \<Rightarrow> sorted (map fst (rb_chunks b)) \<and> distinct (map fst (rb_chunks b))
          \<and> rb_total_length b = of_nat (length data) \<and> set (rb_chunks b) = chunk_of ` S)"

lemma fragment_eqI:
  assumes len: "length data < 65536" and fg: "f \<in> fragments data fid" "g \<in> fragments data fid"
    and off: "ff_fragment_offset f = ff_fragment_offset g"
  shows "f = g"
proof (rule fragment_loop_disjoint [OF len])
  show "f \<in> set (fragment_loop data fid (of_nat (length data)) 0)"
    "g \<in> set (fragment_loop data fid (of_nat (length data)) 0)"
    using fg by (simp_all add: fragment_packet_loop)
  with fragment_loop_at fragment_at_facts(4) [OF len]
  have "0 < length (ff_payload f)" "0 < length (ff_payload g)" by blast+
  then show "covers (chunk_of f) (unat (ff_fragment_offset f))"
    "covers (chunk_of g) (unat (ff_fragment_offset f))"
    using off by (simp_all add: covers_def chunk_of_def)
qed

lemma fragments_facts:
  assumes len: "length data < 65536" and f: "f \<in> fragments data fid"
  shows "ff_fragment_id f = fid" "ff_total_length f = of_nat (length data)"
    "slice_of data (chunk_of f)"
  using fragment_loop_at [of f data fid "of_nat (length data)" 0] f len
  by (auto simp: fragment_packet_loop fragment_at_facts)

lemma fragments_cover_iff:
  assumes len: "length data < 65536" and S: "S \<subseteq> fragments data fid"
  shows "(\<forall>i<length data. \<exists>c\<in>chunk_of ` S. covers c i) \<longleftrightarrow> S = fragments data fid"
proof
  assume cov: "\<forall>i<length data. \<exists>c\<in>chunk_of ` S. covers c i"
  have "g \<in> S" if g: "g \<in> fragments data fid" for g
  proof -
    obtain k where k: "k < length data" "g = fragment_at data fid (of_nat (length data)) k"
      using fragment_loop_at [OF g [unfolded fragment_packet_loop]] by blast
    then have "covers (chunk_of g) k" by (simp add: fragment_at_facts [OF len])
    moreover obtain h where h: "h \<in> S" "covers (chunk_of h) k" using cov k(1) by auto
    ultimately show ?thesis
      using fragment_loop_disjoint [OF len] g S by (metis fragment_packet_loop subsetD)
  qed
  with S show "S = fragments data fid" by blast
next
  assume "S = fragments data fid"
  then show "\<forall>i<length data. \<exists>c\<in>chunk_of ` S. covers c i"
    using fragment_loop_covers [OF len, of 0] by (fastforce simp: fragment_packet_loop)
qed

lemma insert_fragment:
  assumes len: "length data < 65536"
    and S: "S \<subseteq> fragments data fid" and f: "f \<in> fragments data fid"
    and h: "holds_fragments data fid S r"
  shows "if insert f S = fragments data fid
         then fst (Reassembler_insert now f r) = Some data
         else fst (Reassembler_insert now f r) = None
              \<and> holds_fragments data fid (insert f S) (snd (Reassembler_insert now f r))"
proof -
  define b where "b = (case hm_get (ra_buffers r) fid of Some b \<Rightarrow> b
                      | None \<Rightarrow> ReassemblyBuffer_new now (ff_total_length f))"
  define b' where "b' = ReassemblyBuffer_insert (ff_fragment_offset f) (ff_payload f) b"
  note ff = fragments_facts [OF len f]
  have b: "sorted (map fst (rb_chunks b))" "distinct (map fst (rb_chunks b))"
    "rb_total_length b = of_nat (length data)" "set (rb_chunks b) = chunk_of ` S"
    using h ff by (auto simp: b_def holds_fragments_def ReassemblyBuffer_new_def split: option.splits)
  have old: "f \<in> S" if "ff_fragment_offset f \<in> fst ` set (rb_chunks b)"
    using that fragment_eqI [OF len f] S by (auto simp: b(4) chunk_of_def)
  have b': "sorted (map fst (rb_chunks b'))" "distinct (map fst (rb_chunks b'))"
    "rb_total_length b' = of_nat (length data)" "set (rb_chunks b') = chunk_of ` insert f S"
    using b bt_insert_vacant_sorted [OF b(1,2)] old
    by (auto simp: b'_def ReassemblyBuffer_insert_def bt_insert_vacant_set [OF b(1,2)] chunk_of_def)
  have sl: "\<forall>c\<in>set (rb_chunks b'). slice_of data c"
    using fragments_facts(3) [OF len] S f by (auto simp: b'(4))
  have t: "ReassemblyBuffer_try_reassemble b' =
      (if insert f S = fragments data fid then Some data else None)"
    using try_reassemble_slices [OF b'(1) _ sl] b'(3,4) fragments_cover_iff [OF len, of "insert f S" fid] S f len
    by (simp add: unat_of_nat del: image_insert)
  show ?thesis
    using b(3) b' t ff
    by (auto simp: Reassembler_insert_def b_def [symmetric] b'_def [symmetric] Let_def
        holds_fragments_def)
qed

lemma insert_other_id:
  "ff_fragment_id f \<noteq> fid \<Longrightarrow>
   holds_fragments data fid S (snd (Reassembler_insert now f r)) = holds_fragments data fid S r"
  by (simp add: Reassembler_insert_def holds_fragments_def Let_def split: option.splits)

text \<open>The results of feeding a sequence of fragments, with their arrival times.\<close>

fun deliver ::
  "reassembler \<Rightarrow> (instant \<times> fragment_frame) list \<Rightarrow> (fragment_frame \<times> bytes option) list" where
  "deliver r [] = []"
| "deliver r ((now, f) # arr) =
     (f, fst (Reassembler_insert now f r)) # deliver (snd (Reassembler_insert now f r)) arr"

definition results_for :: "u32 \<Rightarrow> (fragment_frame \<times> bytes option) list \<Rightarrow> bytes option list" where
  "results_for fid trace = map snd (filter (\<lambda>(f, _). ff_fragment_id f = fid) trace)"

definition arrivals_for :: "u32 \<Rightarrow> (instant \<times> fragment_frame) list \<Rightarrow> fragment_frame list" where
  "arrivals_for fid arr = filter (\<lambda>f. ff_fragment_id f = fid) (map snd arr)"

lemma results_for_simps [simp]:
  "results_for fid [] = []"
  "results_for fid ((f, res) # trace) =
     (if ff_fragment_id f = fid then res # results_for fid trace else results_for fid trace)"
  by (simp_all add: results_for_def)

lemma results_for_no_arrivals: "arrivals_for fid arr = [] \<Longrightarrow> results_for fid (deliver r arr) = []"
  by (induction r arr rule: deliver.induct) (auto simp: arrivals_for_def split: if_splits)

lemma deliver_from:
  assumes len: "length data < 65536"
  shows "arrivals_for fid arr = pre @ [x] \<Longrightarrow> holds_fragments data fid S r \<Longrightarrow>
    x \<notin> S \<union> set pre \<Longrightarrow> S \<union> set pre \<union> {x} = fragments data fid \<Longrightarrow>
    results_for fid (deliver r arr) = replicate (length pre) None @ [Some data]"
proof (induction r arr arbitrary: S pre rule: deliver.induct)
  case (2 r now f arr)
  show ?case
  proof (cases "ff_fragment_id f = fid")
    case False
    with 2 show ?thesis by (simp add: arrivals_for_def insert_other_id)
  next
    case True
    show ?thesis
    proof (cases pre)
      case Nil
      with 2 True have "f = x" "arrivals_for fid arr = []" by (simp_all add: arrivals_for_def)
      with 2 Nil True insert_fragment [OF len, of S fid f r now] show ?thesis
        by (auto simp: results_for_no_arrivals)
    next
      case (Cons g pre')
      with 2 True have g: "g = f" "arrivals_for fid arr = pre' @ [x]"
        by (simp_all add: arrivals_for_def)
      have sub: "S \<subseteq> fragments data fid" "f \<in> fragments data fid" "insert f S \<noteq> fragments data fid"
        using 2(4,5) Cons g by auto
      have "fst (Reassembler_insert now f r) = None"
        "holds_fragments data fid (insert f S) (snd (Reassembler_insert now f r))"
        using insert_fragment [OF len sub(1,2) 2(3), of now] sub(3) by simp_all
      with 2(1) [OF g(2)] 2(4,5) Cons g True show ?thesis by auto
    qed
  qed
qed (simp add: arrivals_for_def)

text \<open>
  Claim C12: the fragments of a packet of at most 65535 bytes, arriving in any order, with
  duplicates, and interleaved with any fragments of other packets, give exactly the packet: every
  fragment before the last missing one yields nothing, and that one yields the original bytes.
\<close>

theorem reassembly_exact:
  assumes "data \<noteq> []" "length data < 65536" "hm_get (ra_buffers r) fid = None"
    and "arrivals_for fid arr = pre @ [x]" "x \<notin> set pre"
    and "set (pre @ [x]) = set (fragment_packet data fid)"
  shows "results_for fid (deliver r arr) = replicate (length pre) None @ [Some data]"
  using assms by (intro deliver_from [where S = "{}"]) (auto simp: holds_fragments_def)

text \<open>
  A packet of 65536 bytes is not refused: its total length wraps to zero in the 16-bit field and the
  receiver rejects every fragment.
\<close>

lemma fragment_packet_wraps:
  assumes "length data = 65536" "f \<in> set (fragment_packet data fid)"
  shows "FragmentFrame_deserialize (FragmentFrame_serialize f) = None"
  using fragment_loop_at assms
  by (fastforce simp: fragment_packet_loop fragment_at_def FragmentFrame_deserialize_def
      FragmentFrame_serialize_def FRAGMENT_HEADER_SIZE_def)

text \<open>
  The fragments of a packet carry at most 1200 bytes each, put one after the other they
  are the packet, and each passes the receiver's checks unchanged.
\<close>

theorem fragment_packet_partition:
  assumes "length data < 65536"
  shows "concat (map ff_payload (fragment_packet data fid)) = data
    \<and> (\<forall>f\<in>set (fragment_packet data fid).
          0 < length (ff_payload f) \<and> length (ff_payload f) \<le> MAX_FRAGMENT_PAYLOAD
          \<and> FragmentFrame_deserialize (FragmentFrame_serialize f) = Some f)"
proof (intro conjI ballI)
  show "concat (map ff_payload (fragment_packet data fid)) = data"
    by (simp add: fragment_packet_loop fragment_loop_concat)
  fix f assume "f \<in> set (fragment_packet data fid)"
  then obtain k where k: "k < length data" "f = fragment_at data fid (of_nat (length data)) k"
    using fragment_loop_at by (metis fragment_packet_loop)
  show "0 < length (ff_payload f)" "length (ff_payload f) \<le> MAX_FRAGMENT_PAYLOAD"
    using fragment_at_facts(4,5) [OF assms k(1)] k(2) by (simp_all add: MAX_FRAGMENT_PAYLOAD_def)
  show "FragmentFrame_deserialize (FragmentFrame_serialize f) = Some f"
    using fragment_at_facts(2,6) [OF assms k(1)] k(2) assms
    by (intro FragmentFrame_deserialize_serialize)
      (simp add: slice_of_def chunk_of_def unat_of_nat)
qed

lemma fragment_packet_1300:
  "fragment_packet (replicate 1300 5) 7 =
     [\<lparr>ff_fragment_id = 7, ff_fragment_offset = 0, ff_total_length = 1300,
       ff_payload = replicate 1200 5\<rparr>,
      \<lparr>ff_fragment_id = 7, ff_fragment_offset = 1200, ff_total_length = 1300,
       ff_payload = replicate 100 5\<rparr>]"
  by (simp add: fragment_packet_loop fragment_loop_step fragment_loop_end)

theorem reassembly_exact_witness:
  "let a = \<lparr>ff_fragment_id = 7, ff_fragment_offset = 0, ff_total_length = 1300,
            ff_payload = replicate 1200 5\<rparr>;
       b = \<lparr>ff_fragment_id = 7, ff_fragment_offset = 1200, ff_total_length = 1300,
            ff_payload = replicate 100 5\<rparr>;
       other = \<lparr>ff_fragment_id = 8, ff_fragment_offset = 0, ff_total_length = 9,
                ff_payload = [1]\<rparr>
   in results_for 7 (deliver Reassembler_new [(0, b), (1, other), (2, b), (3, a)])
        = [None, None, Some (replicate 1300 5)]"
proof -
  let ?a = "\<lparr>ff_fragment_id = 7, ff_fragment_offset = 0, ff_total_length = 1300,
            ff_payload = replicate 1200 5\<rparr>"
  let ?b = "\<lparr>ff_fragment_id = 7, ff_fragment_offset = 1200, ff_total_length = 1300,
            ff_payload = replicate 100 5\<rparr>"
  let ?other = "\<lparr>ff_fragment_id = 8, ff_fragment_offset = 0, ff_total_length = 9,
            ff_payload = [1]\<rparr>"
  have "results_for 7 (deliver Reassembler_new [(0, ?b), (1, ?other), (2, ?b), (3, ?a)])
        = replicate (length [?b, ?b]) None @ [Some (replicate 1300 5)]"
  proof (rule reassembly_exact)
    show "set ([?b, ?b] @ [?a]) = set (fragment_packet (replicate 1300 5) 7)"
      unfolding fragment_packet_1300 by auto
  qed (simp_all add: Reassembler_new_def arrivals_for_def)
  then show ?thesis by (simp only: Let_def) (simp add: numeral_2_eq_2)
qed

theorem fragment_packet_partition_witness:
  "length (replicate 1300 5 :: bytes) < 65536
   \<and> concat (map ff_payload (fragment_packet (replicate 1300 5) 7)) = replicate 1300 5"
  using fragment_packet_partition [of "replicate 1300 5" 7] by simp

end
