(* ===== verification/Nat_Ports.thy ===== *)
theory Nat_Ports
  imports Mesh_Prelude
begin

text \<open>
  The external port pools of the two NAT engines (\<^verbatim>\<open>PortPool\<close> of
  \<^verbatim>\<open>pim-gateway/src/engine.rs\<close> and \<^verbatim>\<open>PortPoolV6\<close> of \<^verbatim>\<open>pim-gateway/src/ipv6.rs\<close>). The first
  searches with a loop that has no bound of its own, modelled as a partial function; both return a
  free port of the range 30000 to 59999 whenever there is one.
\<close>

definition PORT_MIN :: u16 where "PORT_MIN = 30000"
definition PORT_MAX :: u16 where "PORT_MAX = 59999"

record port_pool =
  pp_next :: u16
  pp_in_use :: "u16 set"

definition PortPool_new :: port_pool where
  "PortPool_new = \<lparr>pp_next = PORT_MIN, pp_in_use = {}\<rparr>"

definition advance_next :: "u16 \<Rightarrow> u16" where
  "advance_next n = (if n \<ge> PORT_MAX then PORT_MIN else n + 1)"

text \<open>\<open>None\<close>: the loop never ends. \<open>Some (None, _)\<close>: the pool is exhausted.\<close>

partial_function (option) allocate_loop ::
  "u16 \<Rightarrow> port_pool \<Rightarrow> (u16 option \<times> port_pool) option" where
  [code]: "allocate_loop start p =
     (let port = pp_next p;
          p = p\<lparr>pp_next := advance_next (pp_next p)\<rparr>
      in if port \<notin> pp_in_use p then Some (Some port, p\<lparr>pp_in_use := insert port (pp_in_use p)\<rparr>)
         else if pp_next p = start then Some (None, p)
         else allocate_loop start p)"

definition PortPool_allocate :: "port_pool \<Rightarrow> (u16 option \<times> port_pool) option" where
  "PortPool_allocate p = allocate_loop (pp_next p) p"

definition PortPool_release :: "u16 \<Rightarrow> port_pool \<Rightarrow> port_pool" where
  "PortPool_release port p = p\<lparr>pp_in_use := pp_in_use p - {port}\<rparr>"

text \<open>The IPv6 pool bounds its search by the size of the range.\<close>

fun allocate_loop_v6 :: "nat \<Rightarrow> port_pool \<Rightarrow> u16 option \<times> port_pool" where
  "allocate_loop_v6 0 p = (None, p)"
| "allocate_loop_v6 (Suc n) p =
     (let port = pp_next p;
          p = p\<lparr>pp_next := advance_next (pp_next p)\<rparr>
      in if port \<notin> pp_in_use p then (Some port, p\<lparr>pp_in_use := insert port (pp_in_use p)\<rparr>)
         else allocate_loop_v6 n p)"

definition PortPoolV6_allocate :: "port_pool \<Rightarrow> u16 option \<times> port_pool" where
  "PortPoolV6_allocate p = allocate_loop_v6 (unat (PORT_MAX - PORT_MIN + 1)) p"

section \<open>The ring of ports\<close>

definition port_range :: "u16 set" where
  "port_range = {PORT_MIN..PORT_MAX}"

definition pool_inv :: "port_pool \<Rightarrow> bool" where
  "pool_inv p \<longleftrightarrow> pp_next p \<in> port_range \<and> pp_in_use p \<subseteq> port_range"

text \<open>The port at a position of the ring.\<close>

definition ring :: "nat \<Rightarrow> u16" where
  "ring i = of_nat (30000 + i mod 30000)"

lemma unat_ring: "unat (ring i) = 30000 + i mod 30000"
proof -
  have "30000 + i mod 30000 < 65536" using mod_less_divisor [of 30000 i] by linarith
  then show ?thesis unfolding ring_def unat_of_nat by simp
qed

lemma port_range_unat: "w \<in> port_range \<longleftrightarrow> 30000 \<le> unat w \<and> unat w < 60000"
  by (auto simp: port_range_def PORT_MIN_def PORT_MAX_def word_le_nat_alt)

lemma ring_in_range [simp]: "ring i \<in> port_range"
proof -
  have "i mod 30000 < 30000" by simp
  then show ?thesis unfolding port_range_unat unat_ring by linarith
qed

lemma ring_onto:
  assumes "w \<in> port_range"
  shows "w = ring (unat w - 30000)"
proof -
  have "30000 \<le> unat w" "unat w - 30000 < 30000"
    using assms unfolding port_range_unat by linarith+
  then have "unat (ring (unat w - 30000)) = unat w" by (simp add: unat_ring)
  then show ?thesis by (metis word_unat_eq_iff)
qed

lemma ring_eq_iff: "ring i = ring j \<longleftrightarrow> i mod 30000 = j mod 30000"
  by (metis add_left_imp_eq unat_ring ring_def)

lemma advance_next_ring: "advance_next (ring i) = ring (Suc i)"
proof (cases "i mod 30000 = 29999")
  case True
  then have "Suc i mod 30000 = 0" by (simp add: mod_Suc)
  with True show ?thesis
    by (simp add: advance_next_def ring_def PORT_MAX_def PORT_MIN_def)
next
  case False
  then have s: "Suc i mod 30000 = i mod 30000 + 1" by (simp add: mod_Suc)
  have "unat (ring i) < 59999"
    using False mod_less_divisor [of 30000 i] unfolding unat_ring by linarith
  then have "\<not> PORT_MAX \<le> ring i"
    by (simp add: PORT_MAX_def word_le_nat_alt)
  then show ?thesis by (simp add: advance_next_def ring_def s)
qed

section \<open>Both allocators are correct\<close>

text \<open>
  What an allocation may return: a free port of the range, now in use, or nothing when every port of
  the range is in use.
\<close>

definition allocates :: "port_pool \<Rightarrow> u16 option \<times> port_pool \<Rightarrow> bool" where
  "allocates p r \<longleftrightarrow>
     (case r of
        (Some port, p') \<Rightarrow> port \<in> port_range \<and> port \<notin> pp_in_use p
           \<and> pp_in_use p' = insert port (pp_in_use p) \<and> pp_next p' \<in> port_range
      | (None, p') \<Rightarrow> port_range \<subseteq> pp_in_use p \<and> pp_in_use p' = pp_in_use p
           \<and> pp_next p' \<in> port_range)"

lemma allocates_next [simp]: "allocates (p\<lparr>pp_next := x\<rparr>) r = allocates p r"
  by (simp add: allocates_def cong: option.case_cong)

lemma shift_mod:
  fixes s a m :: nat
  assumes "0 < m"
  shows "(s + (a + (m - s mod m)) mod m) mod m = a mod m"
proof -
  have "m * (s div m) + s mod m = s" "s mod m < m" using assms by simp_all
  then have e: "s + (a + (m - s mod m)) = a + m * (s div m) + m" by linarith
  have "(s + (a + (m - s mod m)) mod m) mod m = (s + (a + (m - s mod m))) mod m"
    by (rule mod_add_right_eq)
  also have "\<dots> = a mod m" unfolding e by simp
  finally show ?thesis .
qed

lemma range_covered:
  assumes "\<And>j. j < 30000 \<Longrightarrow> ring (s + j) \<in> U"
  shows "port_range \<subseteq> U"
proof
  fix w assume "w \<in> port_range"
  then have w: "w = ring (unat w - 30000)" by (rule ring_onto)
  let ?a = "unat w - 30000" and ?d = "(unat w - 30000 + (30000 - s mod 30000)) mod 30000"
  have "(s + ?d) mod 30000 = ?a mod 30000" by (rule shift_mod) simp
  then have "ring (s + ?d) = ring ?a" by (simp only: ring_eq_iff)
  moreover have "ring (s + ?d) \<in> U" by (rule assms) simp
  ultimately have "ring ?a \<in> U" by (rule subst)
  then show "w \<in> U" using w by argo
qed

lemma allocate_loop_finds:
  assumes "k < 30000" "pp_next p = ring (s + k)" "\<And>j. j < k \<Longrightarrow> ring (s + j) \<in> pp_in_use p"
  shows "\<exists>r. allocate_loop (ring s) p = Some r \<and> allocates p r"
  using assms
proof (induction "30000 - k" arbitrary: k p)
  case (Suc n)
  let ?p = "p\<lparr>pp_next := advance_next (pp_next p)\<rparr>"
  have next': "pp_next ?p = ring (s + Suc k)" by (simp add: Suc.prems advance_next_ring)
  show ?case
  proof (cases "ring (s + k) \<in> pp_in_use p")
    case False
    then show ?thesis
      using Suc.prems next' by (subst allocate_loop.simps) (simp add: allocates_def Let_def)
  next
    case True
    with Suc.prems have used: "ring (s + j) \<in> pp_in_use ?p" if "j < Suc k" for j
      using that by (cases "j = k") auto
    show ?thesis
    proof (cases "Suc k = 30000")
      case True
      then have "pp_next ?p = ring s" using next' by (simp add: ring_eq_iff)
      moreover have "port_range \<subseteq> pp_in_use p"
        using used True by (intro range_covered [of s]) simp
      ultimately show ?thesis
        using \<open>ring (s + k) \<in> pp_in_use p\<close> Suc.prems
        by (subst allocate_loop.simps) (simp add: allocates_def Let_def)
    next
      case False
      with Suc.prems have k: "Suc k < 30000" by simp
      have "ring (s + Suc k) \<noteq> ring s"
      proof
        assume "ring (s + Suc k) = ring s"
        then have "(s + Suc k) mod 30000 = (s + 0) mod 30000" by (simp only: ring_eq_iff add_0_right)
        then have "Suc k mod 30000 = 0 mod 30000" by (simp only: nat_mod_eq_iff) auto
        with k show False by simp
      qed
      then have "allocate_loop (ring s) p = allocate_loop (ring s) ?p"
        using \<open>ring (s + k) \<in> pp_in_use p\<close> Suc.prems next'
        by (subst allocate_loop.simps) (simp add: Let_def)
      moreover have "n = 30000 - Suc k" using Suc.hyps(2) by simp
      then obtain r where "allocate_loop (ring s) ?p = Some r" "allocates ?p r"
        using Suc.hyps(1) [OF _ k next' used] by blast
      ultimately show ?thesis by simp
    qed
  qed
qed simp

lemma PortPool_allocate_correct:
  assumes "pool_inv p"
  shows "\<exists>r. PortPool_allocate p = Some r \<and> allocates p r"
proof -
  have "pp_next p = ring (unat (pp_next p) - 30000)"
    using assms by (intro ring_onto) (simp add: pool_inv_def)
  then show ?thesis
    using allocate_loop_finds [of 0 p "unat (pp_next p) - 30000"]
    by (simp add: PortPool_allocate_def)
qed

lemma PortPool_allocate_next:
  "pp_next p \<notin> pp_in_use p \<Longrightarrow>
   PortPool_allocate p = Some (Some (pp_next p),
     p\<lparr>pp_next := advance_next (pp_next p), pp_in_use := insert (pp_next p) (pp_in_use p)\<rparr>)"
  unfolding PortPool_allocate_def by (subst allocate_loop.simps) (simp add: Let_def)

lemma allocate_loop_v6_finds:
  assumes "pp_next p = ring (s + k)" "\<And>j. j < k \<Longrightarrow> ring (s + j) \<in> pp_in_use p" "n + k = 30000"
  shows "allocates p (allocate_loop_v6 n p)"
  using assms
proof (induction n arbitrary: k p)
  case 0
  then have "port_range \<subseteq> pp_in_use p" by (intro range_covered [of s]) simp
  with 0 show ?case by (simp add: allocates_def)
next
  case (Suc n)
  let ?p = "p\<lparr>pp_next := advance_next (pp_next p)\<rparr>"
  show ?case
  proof (cases "ring (s + k) \<in> pp_in_use p")
    case True
    with Suc.prems have "allocates ?p (allocate_loop_v6 n ?p)"
      by (intro Suc.IH [of _ "Suc k"]) (auto simp: advance_next_ring less_Suc_eq)
    with True Suc.prems show ?thesis by (simp add: Let_def)
  next
    case False
    with Suc.prems show ?thesis by (simp add: allocates_def Let_def advance_next_ring)
  qed
qed

lemma PortPoolV6_allocate_next:
  assumes "pp_next p \<notin> pp_in_use p"
  shows "PortPoolV6_allocate p = (Some (pp_next p),
     p\<lparr>pp_next := advance_next (pp_next p), pp_in_use := insert (pp_next p) (pp_in_use p)\<rparr>)"
proof -
  obtain n where "unat (PORT_MAX - PORT_MIN + 1) = Suc n" by (auto simp: PORT_MAX_def PORT_MIN_def)
  then show ?thesis using assms by (simp add: PortPoolV6_allocate_def Let_def)
qed

lemma PortPoolV6_allocate_correct:
  assumes "pool_inv p"
  shows "allocates p (PortPoolV6_allocate p)"
proof -
  have "unat (PORT_MAX - PORT_MIN + 1) = 30000" by (simp add: PORT_MAX_def PORT_MIN_def)
  moreover have "pp_next p = ring (unat (pp_next p) - 30000)"
    using assms by (intro ring_onto) (simp add: pool_inv_def)
  ultimately show ?thesis
    unfolding PortPoolV6_allocate_def
    using allocate_loop_v6_finds [of p "unat (pp_next p) - 30000" 0 30000] by simp
qed

text \<open>
  Claim C22: port allocation always terminates, and returns a port of the range 30000 to 59999 that
  was free and is now in use; it reports exhaustion exactly when all 30000 ports are in use. This
  holds of the IPv4 pool, whose loop has no bound, and of the bounded IPv6 one.
\<close>

theorem port_allocation_total:
  assumes "pp_next p \<in> port_range" "pp_in_use p \<subseteq> port_range"
  shows "(\<exists>r. PortPool_allocate p = Some r \<and> allocates p r)
       \<and> allocates p (PortPoolV6_allocate p)
       \<and> (fst (PortPoolV6_allocate p) = None \<longleftrightarrow> pp_in_use p = port_range)"
proof -
  have v6: "allocates p (PortPoolV6_allocate p)"
    using assms by (intro PortPoolV6_allocate_correct) (simp add: pool_inv_def)
  have "fst (PortPoolV6_allocate p) = None \<longleftrightarrow> pp_in_use p = port_range"
    using v6 assms(2) by (auto simp: allocates_def split: prod.splits option.splits)
  with v6 PortPool_allocate_correct [of p] assms show ?thesis by (simp add: pool_inv_def)
qed

theorem port_allocation_total_witness:
  "pp_next PortPool_new \<in> port_range
   \<and> (\<exists>r. PortPool_allocate PortPool_new = Some r \<and> allocates PortPool_new r)"
proof -
  have h: "pp_next PortPool_new \<in> port_range" "pp_in_use PortPool_new \<subseteq> port_range"
    by (simp_all add: PortPool_new_def port_range_unat PORT_MIN_def)
  from port_allocation_total [OF h] h show ?thesis by simp
qed

lemma pool_inv_new: "pool_inv PortPool_new"
  by (simp add: pool_inv_def PortPool_new_def port_range_unat PORT_MIN_def)

lemma pool_inv_allocates: "pool_inv p \<Longrightarrow> allocates p (x, p') \<Longrightarrow> pool_inv p'"
  by (auto simp: pool_inv_def allocates_def split: option.splits)

lemma pool_inv_release: "pool_inv p \<Longrightarrow> pool_inv (PortPool_release x p)"
  by (auto simp: pool_inv_def PortPool_release_def)

end
