(* ===== verification/Conntrack.thy ===== *)
theory Conntrack
  imports Nat_Ports Core_Types Ip_Packets
begin

text \<open>
  The connection tracking table the two NAT engines share in shape (\<^verbatim>\<open>Inner\<close> of
  \<^verbatim>\<open>pim-gateway/src/engine.rs\<close>, \<^verbatim>\<open>InnerV6\<close> of \<^verbatim>\<open>pim-gateway/src/ipv6.rs\<close>): a forward map from
  flows to entries, a reverse map from protocol and external port to flows, and a port pool. The
  operations are stated once over extensible records; the engines instantiate them with their
  address type, their allocator and their timeouts. The contract the engines rely on is the locale
  \<open>flow_table\<close>.
\<close>

record 'a conntrack_key =
  ck_proto :: u8
  ck_orig_src :: 'a
  ck_orig_port :: u16

record 'a conntrack_entry =
  ce_ext_port :: u16
  ce_last_seen :: instant
  ce_orig_src :: 'a
  ce_orig_port :: u16
  ce_proto :: u8

record ('k, 'e) nat_inner =
  ni_forward :: "('k, 'e) hash_map"
  ni_reverse :: "(u8 \<times> u16, 'k) hash_map"
  ni_ports :: port_pool

definition Inner_new :: "('k, 'e) nat_inner" where
  "Inner_new = \<lparr>ni_forward = [], ni_reverse = [], ni_ports = PortPool_new\<rparr>"

text \<open>
  Looking up or creating the entry of a flow. \<open>alloc\<close> is the engine's port allocator (\<open>None\<close>: it
  does not return), \<open>fresh\<close> the entry for a new flow at an external port.
\<close>

definition ct_track ::
  "(port_pool \<Rightarrow> (u16 option \<times> port_pool) option)
   \<Rightarrow> (u16 \<Rightarrow> ('a, 'e) conntrack_entry_scheme) \<Rightarrow> instant \<Rightarrow> ('a, 'k) conntrack_key_scheme
   \<Rightarrow> (('a, 'k) conntrack_key_scheme, ('a, 'e) conntrack_entry_scheme) nat_inner
   \<Rightarrow> (u16 option \<times> (('a, 'k) conntrack_key_scheme, ('a, 'e) conntrack_entry_scheme) nat_inner) option"
where
  "ct_track alloc fresh now key inner =
     (case hm_get (ni_forward inner) key of
        Some entry \<Rightarrow>
          Some (Some (ce_ext_port entry),
            inner\<lparr>ni_forward := hm_insert key (entry\<lparr>ce_last_seen := now\<rparr>) (ni_forward inner)\<rparr>)
      | None \<Rightarrow>
          (case alloc (ni_ports inner) of
             None \<Rightarrow> None
           | Some (None, ports) \<Rightarrow> Some (None, inner\<lparr>ni_ports := ports\<rparr>)
           | Some (Some ext_port, ports) \<Rightarrow>
               Some (Some ext_port,
                 inner\<lparr>ni_ports := ports,
                       ni_reverse := hm_insert (ck_proto key, ext_port) key (ni_reverse inner),
                       ni_forward := hm_insert key (fresh ext_port) (ni_forward inner)\<rparr>)))"

text \<open>The entry a reply belongs to; finding it refreshes it.\<close>

definition ct_find ::
  "instant \<Rightarrow> u8 \<Rightarrow> u16 \<Rightarrow> ('k, ('a, 'e) conntrack_entry_scheme) nat_inner
   \<Rightarrow> ('a, 'e) conntrack_entry_scheme option \<times> ('k, ('a, 'e) conntrack_entry_scheme) nat_inner" where
  "ct_find now proto port inner =
     (case hm_get (ni_reverse inner) (proto, port) of
        None \<Rightarrow> (None, inner)
      | Some key \<Rightarrow>
          (case hm_get (ni_forward inner) key of
             None \<Rightarrow> (None, inner)
           | Some entry \<Rightarrow>
               let entry = entry\<lparr>ce_last_seen := now\<rparr>
               in (Some entry, inner\<lparr>ni_forward := hm_insert key entry (ni_forward inner)\<rparr>)))"

text \<open>Idle timeouts; only the number of the ICMP protocol differs between the engines.\<close>

definition idle_timeout :: "u8 \<Rightarrow> u8 \<Rightarrow> duration" where
  "idle_timeout icmp proto =
     (if proto = PROTO_TCP then 300 else if proto = PROTO_UDP then 30
      else if proto = icmp then 10 else 30)"

definition ct_is_expired :: "u8 \<Rightarrow> instant \<Rightarrow> ('a, 'e) conntrack_entry_scheme \<Rightarrow> bool" where
  "ct_is_expired icmp now e \<longleftrightarrow> now - ce_last_seen e > idle_timeout icmp (ce_proto e)"

definition ct_remove ::
  "'k \<Rightarrow> ('k, ('a, 'e) conntrack_entry_scheme) nat_inner \<Rightarrow> ('k, ('a, 'e) conntrack_entry_scheme) nat_inner" where
  "ct_remove key inner =
     (case hm_get (ni_forward inner) key of
        None \<Rightarrow> inner
      | Some entry \<Rightarrow>
          inner\<lparr>ni_forward := hm_remove key (ni_forward inner),
                ni_reverse := hm_remove (ce_proto entry, ce_ext_port entry) (ni_reverse inner),
                ni_ports := PortPool_release (ce_ext_port entry) (ni_ports inner)\<rparr>)"

definition ct_cleanup ::
  "u8 \<Rightarrow> instant \<Rightarrow> ('k, ('a, 'e) conntrack_entry_scheme) nat_inner
   \<Rightarrow> ('k, ('a, 'e) conntrack_entry_scheme) nat_inner" where
  "ct_cleanup icmp now inner =
     fold ct_remove (map fst (filter (\<lambda>(_, e). ct_is_expired icmp now e) (ni_forward inner))) inner"

section \<open>The table is consistent\<close>

text \<open>The abstract content of a table: the external port of every flow.\<close>

definition ct_ports :: "('k, ('a, 'e) conntrack_entry_scheme) nat_inner \<Rightarrow> 'k \<rightharpoonup> u16" where
  "ct_ports inner = (\<lambda>k. map_option ce_ext_port (hm_get (ni_forward inner) k))"

text \<open>
  Different flows have different ports, the ports in use are theirs, the reverse map is the inverse of
  the assignment, and entries agree with their keys (\<open>matches\<close>).
\<close>

definition ct_inv ::
  "(('a, 'k) conntrack_key_scheme \<Rightarrow> ('a, 'e) conntrack_entry_scheme \<Rightarrow> bool)
   \<Rightarrow> (('a, 'k) conntrack_key_scheme, ('a, 'e) conntrack_entry_scheme) nat_inner \<Rightarrow> bool" where
  "ct_inv matches inner \<longleftrightarrow>
     hm_wf (ni_forward inner) \<and> pool_inv (ni_ports inner)
     \<and> pp_in_use (ni_ports inner) = ran (ct_ports inner)
     \<and> inj_on (ct_ports inner) (dom (ct_ports inner))
     \<and> (\<forall>p q k. hm_get (ni_reverse inner) (p, q) = Some k \<longleftrightarrow> ct_ports inner k = Some q \<and> ck_proto k = p)
     \<and> (\<forall>k e. hm_get (ni_forward inner) k = Some e \<longrightarrow> matches k e \<and> ce_proto e = ck_proto k)"

lemma ct_invD:
  assumes "ct_inv matches inner"
  shows "hm_wf (ni_forward inner)" "pool_inv (ni_ports inner)"
    "pp_in_use (ni_ports inner) = ran (ct_ports inner)"
    "inj_on (ct_ports inner) (dom (ct_ports inner))"
    "hm_get (ni_reverse inner) (p, q) = Some k \<longleftrightarrow> ct_ports inner k = Some q \<and> ck_proto k = p"
    "hm_get (ni_forward inner) k = Some e \<Longrightarrow> matches k e \<and> ce_proto e = ck_proto k"
  using assms unfolding ct_inv_def by simp_all

lemma ct_ports_inj:
  "ct_inv matches inner \<Longrightarrow> ct_ports inner k = Some q \<Longrightarrow> ct_ports inner k' = Some q \<Longrightarrow> k = k'"
  by (rule inj_onD [OF ct_invD(4)]) auto

lemma ct_inv_new [simp]: "ct_inv matches Inner_new"
  by (simp add: ct_inv_def Inner_new_def pool_inv_new ct_ports_def) (simp add: PortPool_new_def)

lemma ct_ports_touch:
  "hm_get (ni_forward inner) k = Some e \<Longrightarrow>
   ct_ports (inner\<lparr>ni_forward := hm_insert k (e\<lparr>ce_last_seen := now\<rparr>) (ni_forward inner)\<rparr>) = ct_ports inner"
  by (auto simp: ct_ports_def)

lemma ct_ports_add:
  "ce_ext_port e = q \<Longrightarrow>
   ct_ports (inner\<lparr>ni_ports := ps, ni_reverse := r, ni_forward := hm_insert k e (ni_forward inner)\<rparr>)
     = (ct_ports inner)(k \<mapsto> q)"
  by (auto simp: ct_ports_def)

lemma ct_ports_remove: "ct_ports (ct_remove k inner) = (ct_ports inner)(k := None)"
  by (auto simp: ct_ports_def ct_remove_def split: option.split)

lemma ct_inv_touch:
  assumes inv: "ct_inv matches inner" and e: "hm_get (ni_forward inner) k = Some e"
    and m: "matches k (e\<lparr>ce_last_seen := now\<rparr>) = matches k e"
  shows "ct_inv matches (inner\<lparr>ni_forward := hm_insert k (e\<lparr>ce_last_seen := now\<rparr>) (ni_forward inner)\<rparr>)"
  using assms by (simp add: ct_inv_def ct_ports_touch)

lemma inj_on_dom_upd:
  assumes "inj_on m (dom m)" "q \<notin> ran m"
  shows "inj_on (m(k \<mapsto> q)) (dom (m(k \<mapsto> q)))"
  using assms by (auto simp: inj_on_def ran_def)

lemma ct_inv_add:
  assumes inv: "ct_inv matches inner" and new: "hm_get (ni_forward inner) k = None"
    and alloc: "allocates (ni_ports inner) (Some q, ports)"
    and e: "ce_ext_port e = q" "ce_proto e = ck_proto k" "matches k e"
  shows "ct_inv matches (inner\<lparr>ni_ports := ports,
      ni_reverse := hm_insert (ck_proto k, q) k (ni_reverse inner), ni_forward := hm_insert k e (ni_forward inner)\<rparr>)"
proof -
  let ?E = "ct_ports inner"
  have q: "q \<notin> ran ?E" "pp_in_use ports = insert q (ran ?E)"
    using alloc ct_invD(3) [OF inv] by (auto simp: allocates_def)
  have k: "?E k = None" using new by (simp add: ct_ports_def)
  have fresh: "?E k' \<noteq> Some q" for k' using q(1) by (auto simp: ran_def)
  have "inj_on (?E(k \<mapsto> q)) (dom (?E(k \<mapsto> q)))"
    using ct_invD(4) [OF inv] q(1) by (intro inj_on_dom_upd)
  moreover have "pool_inv ports" using pool_inv_allocates [OF ct_invD(2) [OF inv] alloc] .
  ultimately show ?thesis
    unfolding ct_inv_def ct_ports_add [OF e(1)]
    using ct_invD(1,6) [OF inv] e q k new fresh by (simp add: ct_invD(5) [OF inv])
qed

lemma ct_inv_remove:
  assumes inv: "ct_inv matches inner"
  shows "ct_inv matches (ct_remove k inner)"
proof (cases "hm_get (ni_forward inner) k")
  case None
  then show ?thesis using inv by (simp add: ct_remove_def)
next
  case (Some e)
  let ?E = "ct_ports inner"
  have k: "?E k = Some (ce_ext_port e)" "ce_proto e = ck_proto k"
    using Some ct_invD(6) [OF inv Some] by (simp_all add: ct_ports_def)
  have same: "?E k' = Some (ce_ext_port e) \<longleftrightarrow> k' = k" for k'
    using ct_ports_inj [OF inv _ k(1), of k'] k(1) by auto
  have "ran (?E(k := None)) = ran ?E - {ce_ext_port e}"
    unfolding ran_def using same by auto (metis option.inject)
  moreover have "inj_on (?E(k := None)) (dom (?E(k := None)))"
    using ct_invD(4) [OF inv] by (auto simp: inj_on_def split: if_splits)
  moreover have "pool_inv (PortPool_release (ce_ext_port e) (ni_ports inner))"
    using ct_invD(2) [OF inv] by (rule pool_inv_release)
  ultimately show ?thesis
    unfolding ct_inv_def ct_ports_remove
    using ct_invD(1,3,6) [OF inv] Some k same
    by (auto simp: ct_remove_def PortPool_release_def ct_invD(5) [OF inv]) (use k(1) in simp)
qed

section \<open>Operations\<close>

text \<open>What the engines provide: an allocator that returns and a new entry that describes its flow.\<close>

definition allocator :: "(port_pool \<Rightarrow> (u16 option \<times> port_pool) option) \<Rightarrow> bool" where
  "allocator alloc \<longleftrightarrow> (\<forall>p. pool_inv p \<longrightarrow> (\<exists>r. alloc p = Some r \<and> allocates p r))"

definition describes ::
  "(('a, 'k) conntrack_key_scheme \<Rightarrow> ('a, 'e) conntrack_entry_scheme \<Rightarrow> bool)
   \<Rightarrow> ('a, 'k) conntrack_key_scheme \<Rightarrow> (u16 \<Rightarrow> ('a, 'e) conntrack_entry_scheme) \<Rightarrow> bool" where
  "describes matches key fresh \<longleftrightarrow>
     (\<forall>q. ce_ext_port (fresh q) = q \<and> ce_proto (fresh q) = ck_proto key \<and> matches key (fresh q))"

definition ignores_time ::
  "(('a, 'k) conntrack_key_scheme \<Rightarrow> ('a, 'e) conntrack_entry_scheme \<Rightarrow> bool) \<Rightarrow> bool" where
  "ignores_time matches \<longleftrightarrow> (\<forall>k e now. matches k (e\<lparr>ce_last_seen := now\<rparr>) = matches k e)"

lemma ct_track_correct:
  assumes inv: "ct_inv matches inner" and "allocator alloc" "describes matches key fresh" "ignores_time matches"
  shows "\<exists>r inner'. ct_track alloc fresh now key inner = Some (r, inner') \<and> ct_inv matches inner' \<and>
    (case r of
       Some q \<Rightarrow> ct_ports inner' = (ct_ports inner)(key \<mapsto> q) \<and> ct_ports inner key \<in> {None, Some q}
     | None \<Rightarrow> ct_ports inner' = ct_ports inner \<and> ct_ports inner key = None \<and> ran (ct_ports inner) = port_range)"
proof (cases "hm_get (ni_forward inner) key")
  case (Some e)
  moreover have "ct_ports inner key = Some (ce_ext_port e)" using Some by (simp add: ct_ports_def)
  ultimately show ?thesis
    using ct_inv_touch [OF inv Some] assms(4) ct_ports_touch [OF Some]
    by (auto simp: ct_track_def ignores_time_def)
next
  case None
  then have none: "ct_ports inner key = None" by (simp add: ct_ports_def)
  obtain x ports where a: "alloc (ni_ports inner) = Some (x, ports)" "allocates (ni_ports inner) (x, ports)"
    using assms(2) ct_invD(2) [OF inv] unfolding allocator_def by (metis prod.exhaust)
  have pool: "pool_inv ports" by (rule pool_inv_allocates [OF ct_invD(2) [OF inv] a(2)])
  show ?thesis
  proof (cases x)
    case None
    then have "pp_in_use ports = ran (ct_ports inner)" "ran (ct_ports inner) = port_range"
      using a(2) ct_invD(2,3) [OF inv] by (auto simp: allocates_def pool_inv_def)
    moreover have "ct_ports (inner\<lparr>ni_ports := ports\<rparr>) = ct_ports inner" by (simp add: ct_ports_def)
    ultimately show ?thesis
      using None a(1) \<open>hm_get (ni_forward inner) key = None\<close> none inv pool
      by (simp add: ct_track_def ct_inv_def)
  next
    case (Some q)
    then show ?thesis
      using a \<open>hm_get (ni_forward inner) key = None\<close> none assms(3)
        ct_inv_add [OF inv _ a(2) [unfolded Some], of key "fresh q"]
      by (simp add: ct_track_def describes_def ct_ports_add)
  qed
qed

lemma ct_find_correct:
  assumes inv: "ct_inv matches inner" and "ignores_time matches"
  shows "\<exists>r inner'. ct_find now proto port inner = (r, inner') \<and> ct_inv matches inner'
    \<and> ct_ports inner' = ct_ports inner \<and>
    (case r of
       Some e \<Rightarrow> \<exists>k. matches k e \<and> ck_proto k = proto \<and> ct_ports inner k = Some port
     | None \<Rightarrow> \<forall>k. ck_proto k = proto \<longrightarrow> ct_ports inner k \<noteq> Some port)"
proof (cases "hm_get (ni_reverse inner) (proto, port)")
  case None
  then show ?thesis
    using inv ct_invD(5) [OF inv, of proto port] by (auto simp: ct_find_def)
next
  case (Some k)
  then have k: "ct_ports inner k = Some port" "ck_proto k = proto"
    using ct_invD(5) [OF inv] by auto
  then obtain e where e: "hm_get (ni_forward inner) k = Some e" by (auto simp: ct_ports_def)
  then show ?thesis
    using k Some ct_inv_touch [OF inv e] ct_ports_touch [OF e] ct_invD(6) [OF inv e] assms(2)
    by (auto simp: ct_find_def ignores_time_def Let_def)
qed

lemma ct_inv_fold_remove: "ct_inv matches inner \<Longrightarrow> ct_inv matches (fold ct_remove ks inner)"
  by (induction ks arbitrary: inner) (auto intro: ct_inv_remove)

lemma forward_fold_remove:
  "hm_get (ni_forward (fold ct_remove ks inner)) k = (if k \<in> set ks then None else hm_get (ni_forward inner) k)"
proof (induction ks arbitrary: inner)
  case (Cons k' ks)
  have "hm_get (ni_forward (ct_remove k' inner)) k = (if k = k' then None else hm_get (ni_forward inner) k)"
    by (auto simp: ct_remove_def split: option.split)
  with Cons show ?case by auto
qed simp

text \<open>Cleaning up removes exactly the expired flows.\<close>

lemma ct_cleanup_correct:
  assumes inv: "ct_inv matches inner"
  shows "ct_inv matches (ct_cleanup icmp now inner)"
    and "hm_get (ni_forward (ct_cleanup icmp now inner)) k =
       (case hm_get (ni_forward inner) k of
          Some e \<Rightarrow> if ct_is_expired icmp now e then None else Some e
        | None \<Rightarrow> None)"
proof -
  show "ct_inv matches (ct_cleanup icmp now inner)"
    unfolding ct_cleanup_def by (rule ct_inv_fold_remove [OF inv])
  have "k \<in> set (map fst (filter (\<lambda>(_, e). ct_is_expired icmp now e) (ni_forward inner))) \<longleftrightarrow>
      (\<exists>e. hm_get (ni_forward inner) k = Some e \<and> ct_is_expired icmp now e)"
    using hm_get_mem [OF ct_invD(1) [OF inv]] by force
  then show "hm_get (ni_forward (ct_cleanup icmp now inner)) k =
       (case hm_get (ni_forward inner) k of
          Some e \<Rightarrow> if ct_is_expired icmp now e then None else Some e
        | None \<Rightarrow> None)"
    unfolding ct_cleanup_def forward_fold_remove by (auto split: option.split)
qed

text \<open>A flow that was used since \<open>t\<close> keeps its port until its idle timeout has passed.\<close>

definition used_since ::
  "instant \<Rightarrow> ('a, 'k) conntrack_key_scheme \<Rightarrow> u16
   \<Rightarrow> (('a, 'k) conntrack_key_scheme, ('a, 'e) conntrack_entry_scheme) nat_inner \<Rightarrow> bool" where
  "used_since t k q inner \<longleftrightarrow>
     (\<exists>e. hm_get (ni_forward inner) k = Some e \<and> ce_ext_port e = q \<and> t \<le> ce_last_seen e)"

lemma used_since_ports: "used_since t k q inner \<Longrightarrow> ct_ports inner k = Some q"
  by (auto simp: used_since_def ct_ports_def)

lemma used_since_track:
  "used_since t k q inner \<Longrightarrow> t \<le> now \<Longrightarrow> ct_track alloc fresh now key inner = Some (r, inner') \<Longrightarrow>
   used_since t k q inner'"
  by (auto simp: used_since_def ct_track_def split: option.splits)

lemma used_since_tracked:
  "ct_track alloc fresh now key inner = Some (Some q, inner') \<Longrightarrow>
   ce_ext_port (fresh q) = q \<Longrightarrow> now \<le> ce_last_seen (fresh q) \<Longrightarrow> used_since now key q inner'"
  by (auto simp: used_since_def ct_track_def split: option.splits)

lemma used_since_find:
  "used_since t k q inner \<Longrightarrow> t \<le> now \<Longrightarrow> ct_find now p x inner = (r, inner') \<Longrightarrow> used_since t k q inner'"
  by (auto simp: used_since_def ct_find_def Let_def split: option.splits)

lemma used_since_cleanup:
  assumes "ct_inv matches inner" "used_since t k q inner" "now \<le> t + idle_timeout icmp (ck_proto k)"
  shows "used_since t k q (ct_cleanup icmp now inner)"
proof -
  obtain e where e: "hm_get (ni_forward inner) k = Some e" "ce_ext_port e = q" "t \<le> ce_last_seen e"
    using assms(2) by (auto simp: used_since_def)
  have "\<not> ct_is_expired icmp now e"
    using assms(3) e(3) ct_invD(6) [OF assms(1) e(1)] by (simp add: ct_is_expired_def)
  with e ct_cleanup_correct(2) [OF assms(1), of icmp now k] show ?thesis
    by (simp add: used_since_def)
qed

section \<open>The contract of a flow table\<close>

text \<open>
  What an engine relies on: tracking a flow returns and assigns it a port of its own, or fails when all
  ports are taken; a lookup by protocol and port finds an entry of exactly the flow that has the port;
  neither changes another flow's port.
\<close>

locale flow_table =
  fixes inv :: "'s \<Rightarrow> bool"
    and ports :: "'s \<Rightarrow> 'k \<rightharpoonup> u16"
    and proto :: "'k \<Rightarrow> u8"
    and belongs :: "'k \<Rightarrow> 'e \<Rightarrow> bool"
    and track :: "instant \<Rightarrow> 'k \<Rightarrow> 's \<Rightarrow> (u16 option \<times> 's) option"
    and find :: "instant \<Rightarrow> u8 \<Rightarrow> u16 \<Rightarrow> 's \<Rightarrow> 'e option \<times> 's"
  assumes track: "inv s \<Longrightarrow> \<exists>r s'. track now k s = Some (r, s') \<and> inv s' \<and>
      (case r of
         Some q \<Rightarrow> ports s' = (ports s)(k \<mapsto> q) \<and> ports s k \<in> {None, Some q}
       | None \<Rightarrow> ports s' = ports s \<and> ports s k = None \<and> ran (ports s) = port_range)"
    and find: "inv s \<Longrightarrow> \<exists>r s'. find now p q s = (r, s') \<and> inv s' \<and> ports s' = ports s \<and>
      (case r of
         Some e \<Rightarrow> \<exists>k. belongs k e \<and> proto k = p \<and> ports s k = Some q
       | None \<Rightarrow> \<forall>k. proto k = p \<longrightarrow> ports s k \<noteq> Some q)"
    and ports_inj: "inv s \<Longrightarrow> ports s k = Some q \<Longrightarrow> ports s k' = Some q \<Longrightarrow> k = k'"
begin

lemma track_returns: "inv s \<Longrightarrow> track now k s \<noteq> None"
  using track [of s now k] by auto

lemma track_inv: "inv s \<Longrightarrow> track now k s = Some (r, s') \<Longrightarrow> inv s'"
  using track [of s now k] by auto

lemma track_assigns: "inv s \<Longrightarrow> track now k s = Some (Some q, s') \<Longrightarrow> inv s' \<and> ports s' k = Some q"
  using track [of s now k] by auto

lemma track_exhausted: "inv s \<Longrightarrow> track now k s = Some (None, s') \<Longrightarrow> ran (ports s) = port_range"
  using track [of s now k] by auto

lemma track_keeps:
  "inv s \<Longrightarrow> track now k s = Some (r, s') \<Longrightarrow> ports s k' = Some q \<Longrightarrow> inv s' \<and> ports s' k' = Some q"
  using track [of s now k] by (auto split: option.splits)

lemma find_inv: "inv s \<Longrightarrow> find now p q s = (r, s') \<Longrightarrow> inv s'"
  using find [of s now p q] by auto

lemma find_keeps: "inv s \<Longrightarrow> find now p q s = (r, s') \<Longrightarrow> inv s' \<and> ports s' = ports s"
  using find [of s now p q] by auto

lemma find_owner:
  assumes "inv s" "ports s k = Some q"
  shows "\<exists>e s'. find now (proto k) q s = (Some e, s') \<and> inv s' \<and> ports s' = ports s \<and> belongs k e"
proof -
  obtain r s' where r: "find now (proto k) q s = (r, s')" "inv s'" "ports s' = ports s"
    "case r of Some e \<Rightarrow> \<exists>k'. belongs k' e \<and> proto k' = proto k \<and> ports s k' = Some q
     | None \<Rightarrow> \<forall>k'. proto k' = proto k \<longrightarrow> ports s k' \<noteq> Some q"
    using find [OF assms(1), of now "proto k" q] by auto
  with assms(2) obtain e k' where "r = Some e" "belongs k' e" "ports s k' = Some q"
    by (cases r) auto
  with ports_inj [OF assms, of k'] r show ?thesis by auto
qed

lemma find_unknown:
  "inv s \<Longrightarrow> (\<And>k. proto k = p \<Longrightarrow> ports s k \<noteq> Some q) \<Longrightarrow> \<exists>s'. find now p q s = (None, s')"
  using find [of s now p q] by (cases "fst (find now p q s)") auto

text \<open>Two flows that have ports have different ones.\<close>

lemma ports_differ: "inv s \<Longrightarrow> k \<noteq> k' \<Longrightarrow> ports s k = Some q \<Longrightarrow> ports s k' = Some q' \<Longrightarrow> q \<noteq> q'"
  using ports_inj by blast

end

end
