(* ===== verification/Ip_Views.thy ===== *)
theory Ip_Views
  imports Ip_Packets
begin

text \<open>
  TCP and UDP packets as records of their fields. The byte-level rewrites of
  \<^verbatim>\<open>engine/packet.rs\<close> refine updates of such a record, and they keep the checksums valid.
\<close>

record ip_view =
  iv_head :: bytes
  iv_checksum :: u16
  iv_src :: u32
  iv_dst :: u32
  iv_options :: bytes
  iv_src_port :: u16
  iv_dst_port :: u16
  iv_middle :: bytes
  iv_transport_checksum :: u16
  iv_rest :: bytes

definition ip_bytes :: "ip_view \<Rightarrow> bytes" where
  "ip_bytes v = iv_head v @ be16 (iv_checksum v) @ be32 (iv_src v) @ be32 (iv_dst v) @ iv_options v
     @ be16 (iv_src_port v) @ be16 (iv_dst_port v) @ iv_middle v @ be16 (iv_transport_checksum v)
     @ iv_rest v"

abbreviation iv_proto :: "ip_view \<Rightarrow> u8" where
  "iv_proto v \<equiv> iv_head v ! 9"

definition wf_ip_view :: "ip_view \<Rightarrow> bool" where
  "wf_ip_view v \<longleftrightarrow> length (iv_head v) = 10 \<and> drop_bit 4 (iv_head v ! 0) = 4
     \<and> unat (iv_head v ! 0 AND 0x0f) * 4 = 20 + length (iv_options v)
     \<and> (iv_proto v = PROTO_TCP \<and> length (iv_middle v) = 12
        \<or> iv_proto v = PROTO_UDP \<and> length (iv_middle v) = 2)"

section \<open>Checksums of a packet\<close>

definition header_bytes :: "ip_view \<Rightarrow> bytes" where
  "header_bytes v = iv_head v @ be16 (iv_checksum v) @ be32 (iv_src v) @ be32 (iv_dst v) @ iv_options v"

definition segment_bytes :: "ip_view \<Rightarrow> bytes" where
  "segment_bytes v = be16 (iv_src_port v) @ be16 (iv_dst_port v) @ iv_middle v
     @ be16 (iv_transport_checksum v) @ iv_rest v"

text \<open>RFC 791 and RFC 793: the words covered by a checksum, itself included, add up to -0.\<close>

definition ip_checksum_ok :: "ip_view \<Rightarrow> bool" where
  "ip_checksum_ok v \<longleftrightarrow> word_sum (header_bytes v) mod 65535 = 0"

definition transport_sum :: "ip_view \<Rightarrow> nat" where
  "transport_sum v = word_sum (be32 (iv_src v)) + word_sum (be32 (iv_dst v)) + unat (iv_proto v)
     + length (segment_bytes v) + word_sum (segment_bytes v)"

definition transport_checksum_ok :: "ip_view \<Rightarrow> bool" where
  "transport_checksum_ok v \<longleftrightarrow>
     iv_proto v = PROTO_UDP \<and> iv_transport_checksum v = 0 \<or> transport_sum v mod 65535 = 0"

section \<open>Reading and writing fields\<close>

lemma wf_ip_viewD:
  assumes "wf_ip_view v"
  shows "length (iv_head v) = 10" "20 \<le> length (ip_bytes v)" "ip_bytes v ! 0 = iv_head v ! 0"
    "ip_bytes v ! 9 = iv_proto v" "iv_proto v = PROTO_TCP \<or> iv_proto v = PROTO_UDP"
    "even (length (iv_options v))" "even (length (iv_middle v))"
    "unat (iv_head v ! 0 AND 0x0f) * 4 = 20 + length (iv_options v)"
proof -
  have "even (20 + length (iv_options v))"
    using assms unfolding wf_ip_view_def by (metis dvd_mult even_numeral)
  then show "even (length (iv_options v))" by simp
qed (use assms in \<open>auto simp: wf_ip_view_def ip_bytes_def nth_append\<close>)

lemma ip_protocol_view: "wf_ip_view v \<Longrightarrow> ip_protocol (ip_bytes v) = Ok (iv_proto v)"
  by (auto simp: ip_protocol_Ok wf_ip_viewD) (simp add: wf_ip_view_def)

lemma ip_ihl_view:
  "wf_ip_view v \<Longrightarrow> ip_ihl (ip_bytes v) = Ok (20 + length (iv_options v))"
  by (simp add: wf_ip_viewD)

lemma read_ip_view:
  assumes "wf_ip_view v"
  shows "read_ip (ip_bytes v) 12 = Ok (iv_src v)" "read_ip (ip_bytes v) 16 = Ok (iv_dst v)"
  using assms by (simp_all add: wf_ip_viewD) (simp_all add: ip_bytes_def wf_ip_viewD)

lemma flow_port_view:
  assumes "wf_ip_view v"
  shows "flow_port 0 (ip_bytes v) (iv_proto v) (20 + length (iv_options v)) = Ok (iv_src_port v)"
    "flow_port 2 (ip_bytes v) (iv_proto v) (20 + length (iv_options v)) = Ok (iv_dst_port v)"
  using assms by (auto simp: flow_port_def ip_bytes_def wf_ip_viewD dest: wf_ip_viewD(5))

lemma parse_flow_view:
  "wf_ip_view v \<Longrightarrow> parse_flow (ip_bytes v) = Ok (iv_proto v, iv_src v, iv_src_port v)"
  by (simp add: parse_flow_def ip_protocol_view ip_ihl_view read_ip_view flow_port_view
      del: read_ip_in ip_ihl_in)

lemma transport_dst_port_view:
  "wf_ip_view v \<Longrightarrow> transport_dst_port (ip_bytes v) (iv_proto v) = Ok (iv_dst_port v)"
  by (simp add: transport_dst_port_def ip_ihl_view flow_port_view del: ip_ihl_in)

text \<open>A write at the position of a field updates that field.\<close>

lemma wf_ip_view_updates [simp]:
  "wf_ip_view (v\<lparr>iv_src := a\<rparr>) = wf_ip_view v" "wf_ip_view (v\<lparr>iv_dst := a\<rparr>) = wf_ip_view v"
  "wf_ip_view (v\<lparr>iv_src_port := q\<rparr>) = wf_ip_view v" "wf_ip_view (v\<lparr>iv_dst_port := q\<rparr>) = wf_ip_view v"
  "wf_ip_view (v\<lparr>iv_checksum := c\<rparr>) = wf_ip_view v"
  "wf_ip_view (v\<lparr>iv_transport_checksum := c\<rparr>) = wf_ip_view v"
  by (simp_all add: wf_ip_view_def)

lemma write_ip_view:
  assumes "wf_ip_view v"
  shows "write_at 12 (be32 a) (ip_bytes v) = Ok (ip_bytes (v\<lparr>iv_src := a\<rparr>))"
    "write_at 16 (be32 a) (ip_bytes v) = Ok (ip_bytes (v\<lparr>iv_dst := a\<rparr>))"
  using assms by (simp_all add: ip_bytes_def wf_ip_viewD)

lemma write_port_view:
  assumes "wf_ip_view v"
  shows "write_port 0 (iv_proto v) (20 + length (iv_options v)) q (ip_bytes v)
           = Ok (ip_bytes (v\<lparr>iv_src_port := q\<rparr>))"
    "write_port 2 (iv_proto v) (20 + length (iv_options v)) q (ip_bytes v)
           = Ok (ip_bytes (v\<lparr>iv_dst_port := q\<rparr>))"
  using assms by (auto simp: write_port_def ip_bytes_def wf_ip_viewD dest: wf_ip_viewD(5))

definition seal_header :: "ip_view \<Rightarrow> ip_view" where
  "seal_header v = v\<lparr>iv_checksum :=
     fold_checksum (ones_complement_sum (header_bytes (v\<lparr>iv_checksum := 0\<rparr>)))\<rparr>"

lemma be16_0: "be16 0 = [0, 0]"
  by (simp add: be16_def)

lemma recalc_ip_checksum_view:
  assumes "wf_ip_view v"
  shows "recalc_ip_checksum (ip_bytes v) = (Ok (ip_bytes (seal_header v)) :: ('e, bytes) outcome)"
proof -
  have first: "write_at 10 [0] (ip_bytes v) 
      = (Ok (take 10 (ip_bytes v) @ [0] @ drop 11 (ip_bytes v)) :: ('e, bytes) outcome)"
    using wf_ip_viewD(2) [OF assms] by simp
  have zero: "write_at 11 [0] (take 10 (ip_bytes v) @ [0] @ drop 11 (ip_bytes v))
      = (Ok (ip_bytes (v\<lparr>iv_checksum := 0\<rparr>)) :: ('e, bytes) outcome)"
    using assms by (simp add: ip_bytes_def wf_ip_viewD be16_def)
  have "subslice (ip_bytes (v\<lparr>iv_checksum := 0\<rparr>)) 0 (20 + length (iv_options v))
      = (Ok (header_bytes (v\<lparr>iv_checksum := 0\<rparr>)) :: ('e, bytes) outcome)"
    using assms by (simp add: ip_bytes_def header_bytes_def wf_ip_viewD)
  moreover have "write_at 10 (be16 c) (ip_bytes (v\<lparr>iv_checksum := 0\<rparr>))
      = (Ok (ip_bytes (v\<lparr>iv_checksum := c\<rparr>)) :: ('e, bytes) outcome)" for c
    using assms by (simp add: ip_bytes_def wf_ip_viewD)
  ultimately show ?thesis
    using assms first zero by (simp add: recalc_ip_checksum_def ip_ihl_view seal_header_def)
qed

definition adjust_transport :: "u32 \<Rightarrow> u32 \<Rightarrow> u16 \<Rightarrow> u16 \<Rightarrow> ip_view \<Rightarrow> ip_view" where
  "adjust_transport oa na op np v =
     (if iv_transport_checksum v = 0 \<and> iv_proto v = PROTO_UDP then v
      else v\<lparr>iv_transport_checksum :=
             fold_checksum (incremental_sum (iv_transport_checksum v) oa na op np)\<rparr>)"

lemma recalc_transport_checksum_view:
  assumes "wf_ip_view v"
  shows "recalc_transport_checksum (ip_bytes v) (iv_proto v) (20 + length (iv_options v)) oa na op np
     = Ok (ip_bytes (adjust_transport oa na op np v))"
  using assms wf_ip_viewD(5) [OF assms]
  by (auto simp: recalc_transport_checksum_def Let_def adjust_transport_def wf_ip_view_def
      ip_bytes_def proto_defs)

section \<open>Refinement of the rewrites\<close>

definition set_source :: "u32 \<Rightarrow> u16 \<Rightarrow> ip_view \<Rightarrow> ip_view" where
  "set_source ip port v =
     adjust_transport (iv_src v) ip (iv_src_port v) port
       (seal_header (v\<lparr>iv_src := ip, iv_src_port := port\<rparr>))"

definition set_destination :: "u32 \<Rightarrow> u16 \<Rightarrow> ip_view \<Rightarrow> ip_view" where
  "set_destination ip port v =
     adjust_transport (iv_dst v) ip (iv_dst_port v) port
       (seal_header (v\<lparr>iv_dst := ip, iv_dst_port := port\<rparr>))"

lemma wf_seal_header [simp]: "wf_ip_view (seal_header v) = wf_ip_view v"
  by (simp add: seal_header_def)

lemma seal_header_fields [simp]:
  "iv_head (seal_header v) = iv_head v" "iv_src (seal_header v) = iv_src v"
  "iv_dst (seal_header v) = iv_dst v" "iv_options (seal_header v) = iv_options v"
  "iv_src_port (seal_header v) = iv_src_port v" "iv_dst_port (seal_header v) = iv_dst_port v"
  "iv_middle (seal_header v) = iv_middle v" "iv_rest (seal_header v) = iv_rest v"
  "iv_transport_checksum (seal_header v) = iv_transport_checksum v"
  by (simp_all add: seal_header_def)

lemmas view_accesses = ip_protocol_view ip_ihl_view read_ip_view flow_port_view write_ip_view
  recalc_ip_checksum_view

lemma rewrite_src_refines:
  assumes "wf_ip_view v"
  shows "rewrite_src (ip_bytes v) ip port = Ok (ip_bytes (set_source ip port v))"
  using assms recalc_transport_checksum_view [of "seal_header (v\<lparr>iv_src := ip, iv_src_port := port\<rparr>)",
      where 'a = gateway_error]
  by (simp add: rewrite_src_def view_accesses set_source_def
      write_port_view [of "v\<lparr>iv_src := ip\<rparr>", simplified]
      del: read_ip_in ip_ihl_in write_at_in)

lemma rewrite_dst_refines:
  assumes "wf_ip_view v"
  shows "rewrite_dst (ip_bytes v) ip port = Ok (ip_bytes (set_destination ip port v))"
  using assms recalc_transport_checksum_view [of "seal_header (v\<lparr>iv_dst := ip, iv_dst_port := port\<rparr>)",
      where 'a = gateway_error]
  by (simp add: rewrite_dst_def view_accesses set_destination_def
      write_port_view [of "v\<lparr>iv_dst := ip\<rparr>", simplified]
      del: read_ip_in ip_ihl_in write_at_in)

section \<open>Checksums stay valid\<close>

lemma even_be [simp]: "even (length (be16 w))" "even (length (be32 a))"
  by simp_all

lemma header_sum:
  assumes "wf_ip_view v"
  shows "word_sum (header_bytes v) = unat (iv_checksum v) + word_sum (header_bytes (v\<lparr>iv_checksum := 0\<rparr>))"
  using assms by (simp add: header_bytes_def word_sum_append wf_ip_viewD)

lemma header_length:
  assumes "wf_ip_view v"
  shows "length (header_bytes v) \<le> 60"
proof -
  have "iv_head v ! 0 AND 15 = take_bit 4 (iv_head v ! 0)"
    by (simp add: take_bit_eq_mask mask_numeral)
  then have "unat (iv_head v ! 0 AND 15) < 16"
    using take_bit_nat_less_exp [of 4 "unat (iv_head v ! 0)"] by (simp add: unsigned_take_bit_eq)
  with wf_ip_viewD(8) [OF assms] wf_ip_viewD(1) [OF assms] show ?thesis
    by (simp add: header_bytes_def)
qed

lemma seal_header_ok:
  assumes "wf_ip_view v"
  shows "ip_checksum_ok (seal_header v)"
proof -
  let ?h = "header_bytes (v\<lparr>iv_checksum := 0\<rparr>)"
  have "unat (ones_complement_sum ?h) = word_sum ?h"
    using header_length [of "v\<lparr>iv_checksum := 0\<rparr>"] assms by (intro ones_complement_sum_exact) simp
  then show ?thesis
    using fold_checksum_completes [of "ones_complement_sum ?h"] header_sum [of "seal_header v"] assms
    by (simp add: ip_checksum_ok_def seal_header_def)
qed

text \<open>RFC 1624: replacing an address and a port and adjusting the checksum keeps the sum.\<close>

lemma incremental_update:
  assumes "(t + word_sum (be32 oa) + unat op + unat c) mod 65535 = 0"
  shows "(t + word_sum (be32 na) + unat np + unat (fold_checksum (incremental_sum c oa na op np))) mod 65535 = 0"
proof -
  let ?s = "unat (incremental_sum c oa na op np)" and ?c' = "unat (fold_checksum (incremental_sum c oa na op np))"
  have "?s + (unat c + word_sum (be32 oa) + unat op) = word_sum (be32 na) + unat np + 4 * 65535"
    using unat_le(2) [of c] unat_le(2) [of op] unat_le(2) [of "of_be16 (take 2 (be32 oa))"]
      unat_le(2) [of "of_be16 (drop 2 (be32 oa))"]
    unfolding incremental_sum_exact word_sum_be32 by linarith
  then have "t + word_sum (be32 na) + unat np + ?c' + 4 * 65535
      = (?c' + ?s) + (t + word_sum (be32 oa) + unat op + unat c)"
    by linarith
  moreover have "65535 dvd (?c' + ?s) + (t + word_sum (be32 oa) + unat op + unat c)"
    by (rule dvd_add) (use fold_checksum_completes assms in \<open>simp_all only: mod_eq_0_iff_dvd\<close>)
  ultimately have "65535 dvd t + word_sum (be32 na) + unat np + ?c' + 4 * 65535" by argo
  then show ?thesis
    unfolding mod_eq_0_iff_dvd by (rule iffD1 [OF dvd_add_left_iff, rotated]) (rule dvd_triv_right)
qed

definition rest_sum :: "ip_view \<Rightarrow> nat" where
  "rest_sum v = unat (iv_proto v) + length (segment_bytes v) + word_sum (iv_middle v) + word_sum (iv_rest v)"

lemma rest_sum_updates [simp]:
  "rest_sum (v\<lparr>iv_src := a\<rparr>) = rest_sum v" "rest_sum (v\<lparr>iv_dst := a\<rparr>) = rest_sum v"
  "rest_sum (v\<lparr>iv_src_port := q\<rparr>) = rest_sum v" "rest_sum (v\<lparr>iv_dst_port := q\<rparr>) = rest_sum v"
  "rest_sum (v\<lparr>iv_checksum := c\<rparr>) = rest_sum v" "rest_sum (v\<lparr>iv_transport_checksum := c\<rparr>) = rest_sum v"
  "rest_sum (seal_header v) = rest_sum v"
  by (simp_all add: rest_sum_def segment_bytes_def)

lemma transport_sum_split:
  assumes "wf_ip_view v"
  shows "transport_sum v =
      (rest_sum v + word_sum (be32 (iv_dst v)) + unat (iv_dst_port v))
        + word_sum (be32 (iv_src v)) + unat (iv_src_port v) + unat (iv_transport_checksum v)"
    and "transport_sum v =
      (rest_sum v + word_sum (be32 (iv_src v)) + unat (iv_src_port v))
        + word_sum (be32 (iv_dst v)) + unat (iv_dst_port v) + unat (iv_transport_checksum v)"
  using assms
  by (simp_all add: transport_sum_def rest_sum_def segment_bytes_def word_sum_append wf_ip_viewD)

lemma adjust_transport_ok:
  assumes "transport_sum v = t + word_sum (be32 oa) + unat op + unat (iv_transport_checksum v)"
    and "transport_sum (w\<lparr>iv_transport_checksum := c'\<rparr>) = t + word_sum (be32 na) + unat np + unat c'"
    and "c' = fold_checksum (incremental_sum (iv_transport_checksum v) oa na op np)"
    and "iv_transport_checksum w = iv_transport_checksum v" "iv_head w = iv_head v"
    and "transport_checksum_ok v"
  shows "transport_checksum_ok (adjust_transport oa na op np w)"
proof (cases "iv_transport_checksum v = 0 \<and> iv_proto v = PROTO_UDP")
  case True
  then show ?thesis using assms(4,5) by (simp add: transport_checksum_ok_def adjust_transport_def)
next
  case False
  then have "transport_sum v mod 65535 = 0" using assms(6) by (auto simp: transport_checksum_ok_def)
  with incremental_update [of t oa op "iv_transport_checksum v" na np] assms(1-3)
  have "transport_sum (w\<lparr>iv_transport_checksum := c'\<rparr>) mod 65535 = 0" by metis
  with False assms(3-5) show ?thesis by (simp add: transport_checksum_ok_def adjust_transport_def)
qed

lemma set_endpoint_transport_ok:
  assumes "wf_ip_view v" "transport_checksum_ok v"
  shows "transport_checksum_ok (set_source ip port v)" "transport_checksum_ok (set_destination ip port v)"
proof -
  show "transport_checksum_ok (set_source ip port v)" unfolding set_source_def
    by (rule adjust_transport_ok [OF transport_sum_split(1) [OF assms(1)]
          trans [OF transport_sum_split(1)] refl _ _ assms(2)]) (use assms(1) in simp_all)
  show "transport_checksum_ok (set_destination ip port v)" unfolding set_destination_def
    by (rule adjust_transport_ok [OF transport_sum_split(2) [OF assms(1)]
          trans [OF transport_sum_split(2)] refl _ _ assms(2)]) (use assms(1) in simp_all)
qed

lemma ip_view_eqI:
  "set_source ip port v = v\<lparr>iv_src := ip, iv_src_port := port,
     iv_checksum := iv_checksum (set_source ip port v),
     iv_transport_checksum := iv_transport_checksum (set_source ip port v)\<rparr>"
  "set_destination ip port v = v\<lparr>iv_dst := ip, iv_dst_port := port,
     iv_checksum := iv_checksum (set_destination ip port v),
     iv_transport_checksum := iv_transport_checksum (set_destination ip port v)\<rparr>"
  by (simp_all add: set_source_def set_destination_def adjust_transport_def seal_header_def)

lemma wf_set_endpoint [simp]:
  "wf_ip_view (set_source ip port v) = wf_ip_view v"
  "wf_ip_view (set_destination ip port v) = wf_ip_view v"
  by (simp_all add: set_source_def set_destination_def adjust_transport_def)

lemma adjust_transport_header [simp]:
  "header_bytes (adjust_transport oa na op np v) = header_bytes v"
  by (simp add: adjust_transport_def header_bytes_def)

lemma set_endpoint_header_ok:
  assumes "wf_ip_view v"
  shows "ip_checksum_ok (set_source ip port v)" "ip_checksum_ok (set_destination ip port v)"
  using assms seal_header_ok [of "v\<lparr>iv_src := ip, iv_src_port := port\<rparr>"]
    seal_header_ok [of "v\<lparr>iv_dst := ip, iv_dst_port := port\<rparr>"]
  by (simp_all add: set_source_def set_destination_def ip_checksum_ok_def)

text \<open>Every TCP or UDP packet that holds its transport checksum is such a record.\<close>

lemma ip_view_exists:
  assumes "20 \<le> length p" "drop_bit 4 (p ! 0) = 4" "5 \<le> unat (p ! 0 AND 0x0f)"
    and "unat (p ! 0 AND 0x0f) * 4 + n + 6 \<le> length p"
    and "p ! 9 = PROTO_TCP \<and> n = 12 \<or> p ! 9 = PROTO_UDP \<and> n = 2"
  shows "\<exists>v. wf_ip_view v \<and> ip_bytes v = p"
proof -
  define l where "l = unat (p ! 0 AND 0x0f) * 4"
  define v where "v = \<lparr>iv_head = take 10 p, iv_checksum = of_be16 (take 2 (drop 10 p)),
    iv_src = of_be32 (take 4 (drop 12 p)), iv_dst = of_be32 (take 4 (drop 16 p)),
    iv_options = take (l - 20) (drop 20 p), iv_src_port = of_be16 (take 2 (drop l p)),
    iv_dst_port = of_be16 (take 2 (drop (l + 2) p)), iv_middle = take n (drop (l + 4) p),
    iv_transport_checksum = of_be16 (take 2 (drop (l + 4 + n) p)), iv_rest = drop (l + 4 + n + 2) p\<rparr>"
  have l: "20 \<le> l" "l + n + 6 \<le> length p" using assms(3,4) by (simp_all add: l_def)
  have cat: "take (c - b) (drop b p) @ drop c p = drop b p" if "b \<le> c" for b c
    using that by (metis append_take_drop_id drop_drop le_add_diff_inverse2)
  have "ip_bytes v = take 10 p @ drop 10 p"
    using l cat [of "l + 4 + n" "l + 4 + n + 2"] cat [of "l + 4" "l + 4 + n"] cat [of "l + 2" "l + 4"]
      cat [of l "l + 2"] cat [of 20 l] cat [of 16 20] cat [of 12 16] cat [of 10 12]
    by (simp add: v_def ip_bytes_def del: add_2_eq_Suc add_2_eq_Suc')
  then have "ip_bytes v = p" by simp
  moreover have "wf_ip_view v"
    using assms(1,2,5) l by (auto simp: wf_ip_view_def v_def l_def [symmetric] nth_append)
  ultimately show ?thesis by blast
qed

text \<open>
  Claim C34: rewriting the source or the destination of a TCP or UDP packet changes the address, the
  port and the two checksums and nothing else; the header checksum is valid afterwards, and a
  transport checksum that was valid stays so under the incremental update.
\<close>

theorem rewrite_keeps_checksums:
  assumes "wf_ip_view v"
  shows "(\<exists>v'. rewrite_src (ip_bytes v) ip port = Ok (ip_bytes v')
           \<and> v' = v\<lparr>iv_src := ip, iv_src_port := port, iv_checksum := iv_checksum v',
                     iv_transport_checksum := iv_transport_checksum v'\<rparr>
           \<and> ip_checksum_ok v' \<and> (transport_checksum_ok v \<longrightarrow> transport_checksum_ok v'))
       \<and> (\<exists>v'. rewrite_dst (ip_bytes v) ip port = Ok (ip_bytes v')
           \<and> v' = v\<lparr>iv_dst := ip, iv_dst_port := port, iv_checksum := iv_checksum v',
                     iv_transport_checksum := iv_transport_checksum v'\<rparr>
           \<and> ip_checksum_ok v' \<and> (transport_checksum_ok v \<longrightarrow> transport_checksum_ok v'))"
  by (intro conjI exI impI, rule rewrite_src_refines [OF assms], rule ip_view_eqI(1),
      rule set_endpoint_header_ok [OF assms], erule set_endpoint_transport_ok [OF assms],
      rule rewrite_dst_refines [OF assms], rule ip_view_eqI(2),
      rule set_endpoint_header_ok [OF assms], erule set_endpoint_transport_ok [OF assms])

theorem rewrite_keeps_checksums_witness:
  "let v = \<lparr>iv_head = [0x45, 0, 0, 31, 0, 0, 0, 0, 64, 17], iv_checksum = 0, iv_src = 0x0A4D0001,
            iv_dst = 0x01020304, iv_options = [], iv_src_port = 4000, iv_dst_port = 53,
            iv_middle = [0, 11], iv_transport_checksum = 0xDDAD, iv_rest = [1, 2, 3]\<rparr>
   in transport_checksum_ok v
      \<and> (\<exists>v'. rewrite_src (ip_bytes v) 0xC0A80001 30000 = Ok (ip_bytes v') \<and> iv_src v' = 0xC0A80001
             \<and> ip_checksum_ok v' \<and> transport_checksum_ok v')"
proof -
  define v where "v = \<lparr>iv_head = [0x45, 0, 0, 31, 0, 0, 0, 0, 64, 17], iv_checksum = 0,
    iv_src = 0x0A4D0001, iv_dst = 0x01020304, iv_options = [], iv_src_port = 4000, iv_dst_port = 53,
    iv_middle = [0, 11], iv_transport_checksum = 0xDDAD, iv_rest = [1, 2, 3]\<rparr>"
  have "wf_ip_view v" by (simp add: v_def wf_ip_view_def proto_defs)
  moreover have "transport_checksum_ok v"
    by (simp add: v_def transport_checksum_ok_def transport_sum_def segment_bytes_def be16_def be32_def)
  ultimately obtain v' where "rewrite_src (ip_bytes v) 0xC0A80001 30000 = Ok (ip_bytes v')"
    "v' = v\<lparr>iv_src := 0xC0A80001, iv_src_port := 30000, iv_checksum := iv_checksum v',
            iv_transport_checksum := iv_transport_checksum v'\<rparr>"
    "ip_checksum_ok v'" "transport_checksum_ok v'"
    using rewrite_keeps_checksums [of v "0xC0A80001" 30000] by blast
  moreover from this(2) have "iv_src v' = 0xC0A80001" by (rule ssubst) simp
  ultimately show ?thesis
    using \<open>transport_checksum_ok v\<close> unfolding v_def [symmetric] Let_def by blast
qed

end
