(* ===== verification/Nat_Engine.thy ===== *)
theory Nat_Engine
  imports Conntrack Ip_Views
begin

text \<open>
  The IPv4 NAT engine (\<^verbatim>\<open>GatewayEngine\<close> of \<^verbatim>\<open>pim-gateway/src/engine.rs\<close>): translation of outbound
  packets and of the replies, and expiry of idle flows. \<open>None\<close> stands for a call that does not return
  (the port search of the pool has no bound of its own); it never happens in a reachable state. The
  setup of host firewall rules is not part of the state modelled here.
\<close>

type_synonym key4 = "ipv4 conntrack_key"
type_synonym entry4 = "ipv4 conntrack_entry"

record gateway_engine =
  ge_external_ip :: ipv4
  ge_inner :: "(key4, entry4) nat_inner"

definition GatewayEngine_new :: "ipv4 \<Rightarrow> gateway_engine" where
  "GatewayEngine_new external_ip = \<lparr>ge_external_ip = external_ip, ge_inner = Inner_new\<rparr>"

definition new_entry :: "instant \<Rightarrow> key4 \<Rightarrow> u16 \<Rightarrow> entry4" where
  "new_entry now key ext_port =
     \<lparr>ce_ext_port = ext_port, ce_last_seen = now, ce_orig_src = ck_orig_src key,
      ce_orig_port = ck_orig_port key, ce_proto = ck_proto key\<rparr>"

definition track4 :: "instant \<Rightarrow> key4 \<Rightarrow> (key4, entry4) nat_inner \<Rightarrow> (u16 option \<times> (key4, entry4) nat_inner) option" where
  "track4 now key inner = ct_track PortPool_allocate (new_entry now key) now key inner"

definition translate_outbound ::
  "instant \<Rightarrow> bytes \<Rightarrow> gateway_engine
     \<Rightarrow> ((gateway_error, u16 \<times> bytes) outcome \<times> gateway_engine) option" where
  "translate_outbound now packet eng =
     (case parse_flow packet of
        Err e \<Rightarrow> Some (Err e, eng)
      | Panic \<Rightarrow> Some (Panic, eng)
      | Ok (proto, src_ip, src_port) \<Rightarrow>
          let key = \<lparr>ck_proto = proto, ck_orig_src = src_ip, ck_orig_port = src_port\<rparr>
          in case track4 now key (ge_inner eng) of
               None \<Rightarrow> None
             | Some (None, inner) \<Rightarrow> Some (Err ConntrackFull, eng\<lparr>ge_inner := inner\<rparr>)
             | Some (Some ext_port, inner) \<Rightarrow>
                 Some (and_then (rewrite_src packet (ge_external_ip eng) ext_port)
                         (\<lambda>packet. Ok (ext_port, packet)),
                       eng\<lparr>ge_inner := inner\<rparr>))"

definition translate_inbound ::
  "instant \<Rightarrow> bytes \<Rightarrow> gateway_engine \<Rightarrow> (gateway_error, ipv4 \<times> bytes) outcome \<times> gateway_engine" where
  "translate_inbound now packet eng =
     (case and_then (ip_protocol packet) (\<lambda>proto.
             and_then (transport_dst_port packet proto) (\<lambda>dst_port. Ok (proto, dst_port))) of
        Err e \<Rightarrow> (Err e, eng)
      | Panic \<Rightarrow> (Panic, eng)
      | Ok (proto, dst_port) \<Rightarrow>
          (case ct_find now proto dst_port (ge_inner eng) of
             (None, inner) \<Rightarrow> (Err (NoConntrackEntry proto dst_port), eng\<lparr>ge_inner := inner\<rparr>)
           | (Some entry, inner) \<Rightarrow>
               (and_then (rewrite_dst packet (ce_orig_src entry) (ce_orig_port entry))
                  (\<lambda>packet. Ok (ce_orig_src entry, packet)),
                eng\<lparr>ge_inner := inner\<rparr>)))"

definition cleanup_expired :: "instant \<Rightarrow> gateway_engine \<Rightarrow> gateway_engine" where
  "cleanup_expired now eng = eng\<lparr>ge_inner := ct_cleanup PROTO_ICMP now (ge_inner eng)\<rparr>"

definition conntrack_size :: "gateway_engine \<Rightarrow> nat" where
  "conntrack_size eng = length (ni_forward (ge_inner eng))"

section \<open>The flow table of the engine\<close>

definition matches4 :: "key4 \<Rightarrow> entry4 \<Rightarrow> bool" where
  "matches4 k e \<longleftrightarrow> ce_orig_src e = ck_orig_src k \<and> ce_orig_port e = ck_orig_port k"

lemma allocator4: "allocator PortPool_allocate"
  unfolding allocator_def by (intro allI impI PortPool_allocate_correct)

lemma describes4: "describes matches4 k (new_entry now k)"
  by (simp add: describes_def matches4_def new_entry_def)

lemma ignores_time4: "ignores_time matches4"
  by (simp add: ignores_time_def matches4_def)

interpretation nat4: flow_table "ct_inv matches4" ct_ports ck_proto matches4 track4 ct_find
  using ct_track_correct [OF _ allocator4 describes4 ignores_time4]
    ct_find_correct [OF _ ignores_time4]
  by unfold_locales (auto simp: track4_def intro: ct_ports_inj)

section \<open>The engine as a step system\<close>

datatype nat_event = Outbound instant bytes | Inbound instant bytes | Cleanup instant

fun nat_exec :: "nat_event \<Rightarrow> gateway_engine \<Rightarrow> gateway_engine option" where
  "nat_exec (Outbound now packet) eng = map_option snd (translate_outbound now packet eng)"
| "nat_exec (Inbound now packet) eng = Some (snd (translate_inbound now packet eng))"
| "nat_exec (Cleanup now) eng = Some (cleanup_expired now eng)"

fun nat_run :: "nat_event list \<Rightarrow> gateway_engine \<Rightarrow> gateway_engine option" where
  "nat_run [] eng = Some eng"
| "nat_run (ev # evs) eng = Option.bind (nat_exec ev eng) (nat_run evs)"

definition nat_init :: "gateway_engine \<Rightarrow> bool" where
  "nat_init eng \<longleftrightarrow> eng = GatewayEngine_new (ge_external_ip eng)"

inductive nat_step :: "gateway_engine \<Rightarrow> gateway_engine \<Rightarrow> bool" where
  nat_stepI: "nat_exec ev eng = Some eng' \<Longrightarrow> nat_step eng eng'"

inductive_cases nat_stepE: "nat_step eng eng'"

abbreviation nat_inv :: "gateway_engine \<Rightarrow> bool" where
  "nat_inv eng \<equiv> ct_inv matches4 (ge_inner eng)"

lemma outbound_inner:
  assumes "translate_outbound now packet eng = Some (r, eng')"
  shows "eng' = eng \<or> (\<exists>k x inner. track4 now k (ge_inner eng) = Some (x, inner) \<and> eng' = eng\<lparr>ge_inner := inner\<rparr>)"
  using assms by (auto simp: translate_outbound_def Let_def split: outcome.splits option.splits) blast+

lemma inbound_inner:
  assumes "translate_inbound now packet eng = (r, eng')"
  shows "eng' = eng \<or> (\<exists>p q x inner. ct_find now p q (ge_inner eng) = (x, inner) \<and> eng' = eng\<lparr>ge_inner := inner\<rparr>)"
  using assms by (auto simp: translate_inbound_def split: outcome.splits option.splits prod.splits)

lemma nat_exec_inv:
  assumes "nat_inv eng"
  shows "\<exists>eng'. nat_exec ev eng = Some eng' \<and> nat_inv eng' \<and> ge_external_ip eng' = ge_external_ip eng"
proof (cases ev)
  case (Outbound now packet)
  have "translate_outbound now packet eng \<noteq> None"
    by (simp add: translate_outbound_def Let_def split_beta nat4.track_returns [OF assms]
        split: outcome.split option.split)
  then obtain r eng' where r: "translate_outbound now packet eng = Some (r, eng')" by auto
  have "nat_inv eng' \<and> ge_external_ip eng' = ge_external_ip eng"
    using outbound_inner [OF r] assms by (auto dest: nat4.track_inv)
  with Outbound r show ?thesis by simp
next
  case (Inbound now packet)
  obtain r eng' where r: "translate_inbound now packet eng = (r, eng')" by (cases "translate_inbound now packet eng")
  have "nat_inv eng' \<and> ge_external_ip eng' = ge_external_ip eng"
    using inbound_inner [OF r] assms by (auto dest: nat4.find_inv)
  with Inbound r show ?thesis by simp
next
  case (Cleanup now)
  then show ?thesis using ct_cleanup_correct(1) [OF assms] by (simp add: cleanup_expired_def)
qed

interpretation nat_engine: step_invariant nat_init nat_step nat_inv
proof
  show "nat_inv s" if "nat_init s" for s
    using that by (metis GatewayEngine_new_def ct_inv_new gateway_engine.select_convs(2) nat_init_def)
  show "nat_inv s'" if "nat_inv s" "nat_step s s'" for s s'
    using that(2) nat_exec_inv [OF that(1)] by (elim nat_stepE) (metis option.inject)
qed

section \<open>Replies reach their flow\<close>

definition flow_key :: "ip_view \<Rightarrow> key4" where
  "flow_key v = \<lparr>ck_proto = iv_proto v, ck_orig_src = iv_src v, ck_orig_port = iv_src_port v\<rparr>"

text \<open>Traffic after \<open>t\<close>, with no cleanup later than \<open>d\<close> seconds after it.\<close>

fun traffic_within :: "instant \<Rightarrow> duration \<Rightarrow> nat_event \<Rightarrow> bool" where
  "traffic_within t d (Outbound now packet) \<longleftrightarrow> t \<le> now"
| "traffic_within t d (Inbound now packet) \<longleftrightarrow> t \<le> now"
| "traffic_within t d (Cleanup now) \<longleftrightarrow> now \<le> t + d"

lemma outbound_view:
  assumes "wf_ip_view v" "translate_outbound t (ip_bytes v) eng = Some (Ok (port, p), eng')"
  shows "\<exists>inner. track4 t (flow_key v) (ge_inner eng) = Some (Some port, inner) \<and> eng' = eng\<lparr>ge_inner := inner\<rparr>
     \<and> p = ip_bytes (set_source (ge_external_ip eng) port v)"
  using assms(2)
  by (auto simp: translate_outbound_def parse_flow_view [OF assms(1)] Let_def flow_key_def
      rewrite_src_refines [OF assms(1)] split: option.splits)

lemma used_since_exec:
  assumes inv: "nat_inv eng" and used: "used_since t k q (ge_inner eng)"
    and time: "traffic_within t (idle_timeout PROTO_ICMP (ck_proto k)) ev" and ex: "nat_exec ev eng = Some eng'"
  shows "used_since t k q (ge_inner eng')"
proof (cases ev)
  case (Outbound now packet)
  with ex obtain r where "translate_outbound now packet eng = Some (r, eng')" by auto
  from outbound_inner [OF this] show ?thesis
    using used time Outbound by (auto simp: track4_def dest: used_since_track)
next
  case (Inbound now packet)
  with ex obtain r where "translate_inbound now packet eng = (r, eng')" by (auto simp: prod_eq_iff)
  from inbound_inner [OF this] show ?thesis
    using used time Inbound by (auto dest: used_since_find)
next
  case (Cleanup now)
  with ex time show ?thesis
    using used_since_cleanup [OF inv used] by (auto simp: cleanup_expired_def)
qed

lemma used_since_run:
  assumes "nat_inv eng" "used_since t k q (ge_inner eng)" "nat_run evs eng = Some eng'"
    and "list_all (traffic_within t (idle_timeout PROTO_ICMP (ck_proto k))) evs"
  shows "nat_inv eng' \<and> used_since t k q (ge_inner eng') \<and> ge_external_ip eng' = ge_external_ip eng"
  using assms
proof (induction evs arbitrary: eng)
  case (Cons ev evs)
  obtain e1 where e1: "nat_exec ev eng = Some e1" "nat_inv e1" "ge_external_ip e1 = ge_external_ip eng"
    using nat_exec_inv [OF Cons.prems(1), of ev] by auto
  with Cons.prems have "used_since t k q (ge_inner e1)"
    by (intro used_since_exec [OF Cons.prems(1,2)]) auto
  with Cons.IH [OF e1(2)] Cons.prems e1 show ?case by simp
qed simp

lemma inbound_view:
  assumes "nat_inv eng" "ct_ports (ge_inner eng) k = Some (iv_dst_port w)" "wf_ip_view w" "iv_proto w = ck_proto k"
  shows "\<exists>eng'. translate_inbound t (ip_bytes w) eng
     = (Ok (ck_orig_src k, ip_bytes (set_destination (ck_orig_src k) (ck_orig_port k) w)), eng')"
  using nat4.find_owner [OF assms(1,2), of t] assms(4)
  by (auto simp: translate_inbound_def ip_protocol_view [OF assms(3)] transport_dst_port_view [OF assms(3), unfolded assms(4)]
      rewrite_dst_refines [OF assms(3)] matches4_def)

lemma reply_delivered:
  assumes "reachable nat_init nat_step eng"
    and "wf_ip_view v" "translate_outbound t (ip_bytes v) eng = Some (Ok (port, p), eng1)"
    and "list_all (traffic_within t (idle_timeout PROTO_ICMP (iv_proto v))) evs" "nat_run evs eng1 = Some eng2"
    and "wf_ip_view w" "iv_proto w = iv_proto v" "iv_dst_port w = port"
  shows "p = ip_bytes (set_source (ge_external_ip eng) port v)
     \<and> (\<exists>eng3. translate_inbound t' (ip_bytes w) eng2
            = (Ok (iv_src v, ip_bytes (set_destination (iv_src v) (iv_src_port v) w)), eng3))"
proof -
  have inv: "nat_inv eng" by (rule nat_engine.inv_reachable [OF assms(1)])
  obtain inner where t: "track4 t (flow_key v) (ge_inner eng) = Some (Some port, inner)"
    "eng1 = eng\<lparr>ge_inner := inner\<rparr>" "p = ip_bytes (set_source (ge_external_ip eng) port v)"
    using outbound_view [OF assms(2,3)] by blast
  have "used_since t (flow_key v) port (ge_inner eng1)"
    using used_since_tracked [OF t(1) [unfolded track4_def]] t(2) by (simp add: new_entry_def)
  moreover have "nat_inv eng1" using nat4.track_inv [OF inv t(1)] t(2) by simp
  ultimately have "nat_inv eng2" "used_since t (flow_key v) port (ge_inner eng2)"
    using used_since_run [OF _ _ assms(5)] assms(4) by (simp_all add: flow_key_def)
  then have "\<exists>eng3. translate_inbound t' (ip_bytes w) eng2
     = (Ok (ck_orig_src (flow_key v), ip_bytes (set_destination (ck_orig_src (flow_key v)) (ck_orig_port (flow_key v)) w)), eng3)"
    using used_since_ports assms(6-8) by (intro inbound_view) (auto simp: flow_key_def)
  with t(3) show ?thesis by (simp add: flow_key_def)
qed


lemma outbound_new_flow:
  assumes "wf_ip_view v" "hm_get (ni_forward (ge_inner eng)) (flow_key v) = None"
    and "pp_next (ni_ports (ge_inner eng)) = port" "port \<notin> pp_in_use (ni_ports (ge_inner eng))"
  shows "\<exists>eng'. translate_outbound t (ip_bytes v) eng
      = Some (Ok (port, ip_bytes (set_source (ge_external_ip eng) port v)), eng')
    \<and> ni_ports (ge_inner eng') = \<lparr>pp_next = advance_next port, pp_in_use = insert port (pp_in_use (ni_ports (ge_inner eng)))\<rparr>
    \<and> hm_get (ni_forward (ge_inner eng')) = (hm_get (ni_forward (ge_inner eng)))(flow_key v \<mapsto> new_entry t (flow_key v) port)"
  using assms PortPool_allocate_next [of "ni_ports (ge_inner eng)"]
  by (simp add: translate_outbound_def parse_flow_view Let_def track4_def ct_track_def flow_key_def
      rewrite_src_refines)

definition example_view :: "u32 \<Rightarrow> u32 \<Rightarrow> u16 \<Rightarrow> u16 \<Rightarrow> ip_view" where
  "example_view src dst sport dport =
     \<lparr>iv_head = [0x45, 0, 0, 31, 0, 0, 0, 0, 64, 17], iv_checksum = 0, iv_src = src, iv_dst = dst,
      iv_options = [], iv_src_port = sport, iv_dst_port = dport, iv_middle = [0, 11],
      iv_transport_checksum = 0, iv_rest = [1, 2, 3]\<rparr>"

lemma wf_example_view [simp]: "wf_ip_view (example_view src dst sport dport)"
  by (simp add: example_view_def wf_ip_view_def proto_defs)


section \<open>Consistency, expiry and panics\<close>

text \<open>
  Claim C33: in every reachable state of the gateway a port belongs to one flow only, the ports in use
  are exactly those of the tracked flows, and the reverse map leads from protocol and port to that flow.
\<close>

theorem nat_table_consistent:
  assumes "reachable nat_init nat_step eng"
  defines "F \<equiv> hm_get (ni_forward (ge_inner eng))"
  shows "(\<forall>k e k' e'. F k = Some e \<longrightarrow> F k' = Some e' \<longrightarrow> ce_ext_port e = ce_ext_port e' \<longrightarrow> k = k')
    \<and> pp_in_use (ni_ports (ge_inner eng)) = {ce_ext_port e | k e. F k = Some e}
    \<and> pp_in_use (ni_ports (ge_inner eng)) \<subseteq> port_range
    \<and> (\<forall>p q k. hm_get (ni_reverse (ge_inner eng)) (p, q) = Some k \<longleftrightarrow>
          (\<exists>e. F k = Some e \<and> ce_ext_port e = q \<and> ck_proto k = p))"
proof -
  have inv: "nat_inv eng" by (rule nat_engine.inv_reachable [OF assms(1)])
  have F: "ct_ports (ge_inner eng) k = Some q \<longleftrightarrow> (\<exists>e. F k = Some e \<and> ce_ext_port e = q)" for k q
    by (auto simp: ct_ports_def F_def)
  have "ran (ct_ports (ge_inner eng)) = {ce_ext_port e | k e. F k = Some e}"
    unfolding ran_def F by auto
  moreover have "k = k'" if "F k = Some e" "F k' = Some e'" "ce_ext_port e = ce_ext_port e'" for k k' e e'
    using ct_ports_inj [OF inv, of k _ k'] that F by metis
  ultimately show ?thesis
    using ct_invD(2,3) [OF inv] ct_invD(5) [OF inv] F by (auto simp: pool_inv_def)
qed

theorem nat_table_consistent_witness:
  "reachable nat_init nat_step (GatewayEngine_new 7)
   \<and> pp_in_use (ni_ports (ge_inner (GatewayEngine_new 7))) \<subseteq> port_range"
proof -
  have r: "reachable nat_init nat_step (GatewayEngine_new 7)"
    by (rule reachable_init) (simp add: nat_init_def GatewayEngine_new_def)
  with nat_table_consistent [OF r] show ?thesis by blast
qed

text \<open>
  A cleanup removes exactly the flows idle for longer than their protocol's timeout and
  releases their ports; every other flow keeps its entry.
\<close>

theorem cleanup_removes_expired:
  assumes "reachable nat_init nat_step eng" "eng' = cleanup_expired now eng"
  shows "(\<forall>k. hm_get (ni_forward (ge_inner eng')) k =
            (case hm_get (ni_forward (ge_inner eng)) k of
               Some e \<Rightarrow> if now - ce_last_seen e > idle_timeout PROTO_ICMP (ck_proto k) then None else Some e
             | None \<Rightarrow> None))
     \<and> pp_in_use (ni_ports (ge_inner eng')) = ran (ct_ports (ge_inner eng'))"
proof -
  have inv: "nat_inv eng" by (rule nat_engine.inv_reachable [OF assms(1)])
  have "ce_proto e = ck_proto k" if "hm_get (ni_forward (ge_inner eng)) k = Some e" for k e
    using ct_invD(6) [OF inv that] by simp
  then show ?thesis
    using ct_cleanup_correct(2) [OF inv, of PROTO_ICMP now] ct_invD(3) [OF ct_cleanup_correct(1) [OF inv]]
    by (auto simp: assms(2) cleanup_expired_def ct_is_expired_def split: option.split)
qed

lemma example_tracked:
  "\<exists>p eng. translate_outbound 10 (ip_bytes (example_view 1 2 4000 53)) (GatewayEngine_new 7) = Some (Ok (30000, p), eng)
     \<and> reachable nat_init nat_step eng
     \<and> hm_get (ni_forward (ge_inner eng)) (flow_key (example_view 1 2 4000 53))
         = Some (new_entry 10 (flow_key (example_view 1 2 4000 53)) 30000)"
proof -
  have r: "reachable nat_init nat_step (GatewayEngine_new 7)"
    by (rule reachable_init) (simp add: nat_init_def GatewayEngine_new_def)
  obtain p eng where o: "translate_outbound 10 (ip_bytes (example_view 1 2 4000 53)) (GatewayEngine_new 7) = Some (Ok (30000, p), eng)"
    "hm_get (ni_forward (ge_inner eng)) (flow_key (example_view 1 2 4000 53))
         = Some (new_entry 10 (flow_key (example_view 1 2 4000 53)) 30000)"
    using outbound_new_flow [of "example_view 1 2 4000 53" "GatewayEngine_new 7" 30000 10]
    by (auto simp: GatewayEngine_new_def Inner_new_def PortPool_new_def PORT_MIN_def)
  have "nat_step (GatewayEngine_new 7) eng"
    by (rule nat_stepI [of "Outbound 10 (ip_bytes (example_view 1 2 4000 53))"]) (simp add: o(1))
  with o r show ?thesis by (blast intro: reachable_step)
qed

theorem cleanup_removes_expired_witness:
  "\<exists>eng k e. reachable nat_init nat_step eng \<and> hm_get (ni_forward (ge_inner eng)) k = Some e
     \<and> hm_get (ni_forward (ge_inner (cleanup_expired 41 eng))) k = None
     \<and> hm_get (ni_forward (ge_inner (cleanup_expired 40 eng))) k = Some e"
proof -
  let ?k = "flow_key (example_view 1 2 4000 53)"
  obtain eng where e: "reachable nat_init nat_step eng"
    "hm_get (ni_forward (ge_inner eng)) ?k = Some (new_entry 10 ?k 30000)"
    using example_tracked by blast
  have "idle_timeout PROTO_ICMP (ck_proto ?k) = 30"
    by (simp add: idle_timeout_def flow_key_def example_view_def proto_defs)
  with e cleanup_removes_expired [OF e(1) refl, of 41] cleanup_removes_expired [OF e(1) refl, of 40]
  have "hm_get (ni_forward (ge_inner (cleanup_expired 41 eng))) ?k = None"
    "hm_get (ni_forward (ge_inner (cleanup_expired 40 eng))) ?k = Some (new_entry 10 ?k 30000)"
    by (simp_all add: new_entry_def)
  with e show ?thesis by blast
qed

text \<open>
  Translation always returns, and never panics on a packet whose header length field is at
  least 5 words.
\<close>

theorem translation_total:
  assumes "reachable nat_init nat_step eng" "5 \<le> unat (packet ! 0 AND 0x0f)"
  shows "(\<exists>r eng'. translate_outbound now packet eng = Some (r, eng') \<and> r \<noteq> Panic)
     \<and> fst (translate_inbound now packet eng) \<noteq> Panic"
proof -
  have inv: "nat_inv eng" by (rule nat_engine.inv_reachable [OF assms(1)])
  obtain eng' where "nat_exec (Outbound now packet) eng = Some eng'"
    using nat_exec_inv [OF inv] by blast
  then obtain r where r: "translate_outbound now packet eng = Some (r, eng')" by auto
  then have "r \<noteq> Panic"
    using rewrite_no_panic(1) [OF assms(2)] parse_flow_no_panic [of packet]
    by (auto simp: translate_outbound_def Let_def and_then_eq_Panic split: outcome.splits option.splits)
  moreover have "transport_dst_port packet proto \<noteq> Panic" if "ip_protocol packet = Ok proto" for proto
    using that flow_port_no_panic [of 2 packet proto]
    by (simp add: transport_dst_port_def ip_protocol_Ok)
  then have "fst (translate_inbound now packet eng) \<noteq> Panic"
    using rewrite_no_panic(2) [OF assms(2)]
    by (auto simp: translate_inbound_def and_then_eq_Panic and_then_eq_Ok
        split: outcome.splits option.splits prod.splits)
  ultimately show ?thesis using r by blast
qed

theorem translation_total_witness:
  "\<exists>r eng'. translate_outbound 3 (0x45 # replicate 30 0) (GatewayEngine_new 7) = Some (r, eng') \<and> r \<noteq> Panic"
proof -
  have r: "reachable nat_init nat_step (GatewayEngine_new 7)"
    by (rule reachable_init) (simp add: nat_init_def GatewayEngine_new_def)
  have "5 \<le> unat ((0x45 # replicate 30 0 :: bytes) ! 0 AND 0x0f)" by simp
  from translation_total [OF r this, of 3] show ?thesis by blast
qed

text \<open>
  The shorter header lengths are not rejected. With a header length of 0 the port is written over the
  first byte of the packet, and the header checksum then covers as many words as the port says.
\<close>

definition short_header_packet :: bytes where
  "short_header_packet = [0x40, 0, 0, 0, 0, 0, 0, 0, 0, 6, 0, 0, 0, 0, 0, 0, 1, 2, 3, 4]"

lemma short_header_rewrite: "rewrite_src short_header_packet ip 0x7600 = Panic"
  by (simp add: rewrite_src_def short_header_packet_def ip_protocol_def IP_HEADER_MIN_def flow_port_def
      proto_defs write_port_def recalc_ip_checksum_def be16_def index_def subslice_def ip_ihl_def
      write_at_def read_ip_def read_u16_def)

lemma flows_in_a_row:
  "n \<le> 1000 \<Longrightarrow> \<exists>eng. reachable nat_init nat_step eng \<and> pp_next (ni_ports (ge_inner eng)) = of_nat (30000 + n)
     \<and> (\<forall>w\<in>pp_in_use (ni_ports (ge_inner eng)). unat w < 30000 + n)
     \<and> (\<forall>k e. hm_get (ni_forward (ge_inner eng)) k = Some e \<longrightarrow> unat (ck_orig_port k) < n)"
proof (induction n)
  case 0
  have "reachable nat_init nat_step (GatewayEngine_new 7)"
    by (rule reachable_init) (simp add: nat_init_def GatewayEngine_new_def)
  then show ?case
    by (intro exI [of _ "GatewayEngine_new 7"])
      (simp add: GatewayEngine_new_def Inner_new_def PortPool_new_def PORT_MIN_def)
next
  case (Suc n)
  then obtain eng where eng: "reachable nat_init nat_step eng" "pp_next (ni_ports (ge_inner eng)) = of_nat (30000 + n)"
    "\<forall>w\<in>pp_in_use (ni_ports (ge_inner eng)). unat w < 30000 + n"
    "\<forall>k e. hm_get (ni_forward (ge_inner eng)) k = Some e \<longrightarrow> unat (ck_orig_port k) < n" by auto
  let ?v = "example_view 1 2 (of_nat n) 53" and ?port = "of_nat (30000 + n) :: u16"
  have n: "unat (of_nat n :: u16) = n" "unat ?port = 30000 + n"
    using Suc.prems unfolding unat_of_nat by simp_all
  have key: "ck_orig_port (flow_key ?v) = of_nat n" by (simp add: flow_key_def example_view_def)
  obtain r eng' where o: "translate_outbound 0 (ip_bytes ?v) eng = Some (r, eng')"
    "ni_ports (ge_inner eng') = \<lparr>pp_next = advance_next ?port, pp_in_use = insert ?port (pp_in_use (ni_ports (ge_inner eng)))\<rparr>"
    "hm_get (ni_forward (ge_inner eng')) = (hm_get (ni_forward (ge_inner eng)))(flow_key ?v \<mapsto> new_entry 0 (flow_key ?v) ?port)"
    using outbound_new_flow [of ?v eng ?port 0] eng(2-4) n key by (metis less_irrefl option.exhaust wf_example_view)
  have "nat_step eng eng'" by (rule nat_stepI [of "Outbound 0 (ip_bytes ?v)"]) (simp add: o(1))
  moreover have "advance_next ?port = of_nat (30000 + Suc n)"
    using n(2) Suc.prems by (simp add: advance_next_def PORT_MAX_def word_le_nat_alt)
  ultimately show ?case
    using eng o n key by (intro exI [of _ eng']) (auto intro: reachable_step simp: less_Suc_eq)
qed

text \<open>
  A 20-byte TCP packet with a header length field of 0 makes the gateway panic, in a state reached by
  tracking 208 ordinary flows.
\<close>

lemma short_header_panics:
  "\<exists>eng. reachable nat_init nat_step eng \<and> (\<forall>now. \<exists>eng'. translate_outbound now short_header_packet eng = Some (Panic, eng'))"
proof -
  obtain eng where eng: "reachable nat_init nat_step eng" "pp_next (ni_ports (ge_inner eng)) = 0x7600"
    "\<forall>w\<in>pp_in_use (ni_ports (ge_inner eng)). unat w < 30208"
    "\<forall>k e. hm_get (ni_forward (ge_inner eng)) k = Some e \<longrightarrow> unat (ck_orig_port k) < 208"
    using flows_in_a_row [of 208] by auto
  let ?k = "\<lparr>ck_proto = 6, ck_orig_src = 0, ck_orig_port = 0x4000\<rparr> :: key4"
  have "parse_flow short_header_packet = Ok (6, 0, 0x4000)"
    by (simp add: parse_flow_def short_header_packet_def ip_protocol_def IP_HEADER_MIN_def index_def
        ip_ihl_def read_ip_def flow_port_def read_u16_def of_be32_def of_be16_def proto_defs)
  moreover have "hm_get (ni_forward (ge_inner eng)) ?k = None"
    using eng(4) by (cases "hm_get (ni_forward (ge_inner eng)) ?k") fastforce+
  moreover have "0x7600 \<notin> pp_in_use (ni_ports (ge_inner eng))" using eng(3) by fastforce
  ultimately have "\<exists>eng'. translate_outbound now short_header_packet eng = Some (Panic, eng')" for now
    using eng(2) PortPool_allocate_next [of "ni_ports (ge_inner eng)"]
    by (simp add: translate_outbound_def track4_def ct_track_def short_header_rewrite Let_def)
  with eng(1) show ?thesis by blast
qed

end
