(* ===== verification/Nat_Engine6.thy ===== *)
theory Nat_Engine6
  imports Conntrack
begin

text \<open>
  The IPv6 NAT engine (\<^verbatim>\<open>pim-gateway/src/ipv6.rs\<close>). It differs from the IPv4 engine in three ways: a
  flow is identified by its mesh node as well, the port search is bounded, and the transport checksum
  is recomputed over the pseudo header instead of being adjusted. A rewrite that fails may have changed
  the packet before; the callers drop the packet then, so errors carry none here.
\<close>

section \<open>Packets\<close>

definition PROTO_ICMPV6 :: u8 where "PROTO_ICMPV6 = 58"
definition IPV6_HEADER_LEN :: nat where "IPV6_HEADER_LEN = 40"

definition ipv6_next_header :: "bytes \<Rightarrow> (gateway_error, u8) outcome" where
  "ipv6_next_header packet =
     (if length packet < IPV6_HEADER_LEN then Err (PacketTooShort (length packet))
      else and_then (index packet 0) (\<lambda>b.
        if drop_bit 4 b \<noteq> 6 then Err (CommandFailed ''not an IPv6 packet'') else index packet 6))"

definition icmpv6_id :: "bytes \<Rightarrow> (gateway_error, u16) outcome" where
  "icmpv6_id packet =
     (if length packet < IPV6_HEADER_LEN + 8 then Err (PacketTooShort (length packet))
      else read_u16 packet 44)"

definition parse_flow_v6 :: "bytes \<Rightarrow> (gateway_error, u8 \<times> ipv6 \<times> u16) outcome" where
  "parse_flow_v6 packet =
     and_then (ipv6_next_header packet) (\<lambda>proto.
     and_then (subslice packet 8 24) (\<lambda>src_ip.
     and_then
       (if proto = PROTO_TCP \<or> proto = PROTO_UDP then
          (if length packet < IPV6_HEADER_LEN + 4 then Err (PacketTooShort (length packet))
           else read_u16 packet 40)
        else if proto = PROTO_ICMPV6 then icmpv6_id packet
        else Err (UnsupportedProtocol proto))
       (\<lambda>src_port. Ok (proto, of_be128 src_ip, src_port))))"

definition transport_dst_port_v6 :: "bytes \<Rightarrow> u8 \<Rightarrow> (gateway_error, u16) outcome" where
  "transport_dst_port_v6 packet proto =
     (if proto = PROTO_TCP \<or> proto = PROTO_UDP then
        (if length packet < IPV6_HEADER_LEN + 4 then Err (PacketTooShort (length packet))
         else read_u16 packet 42)
      else if proto = PROTO_ICMPV6 then icmpv6_id packet
      else Err (UnsupportedProtocol proto))"

text \<open>\<^verbatim>\<open>rewrite_transport_src\<close> and \<^verbatim>\<open>rewrite_transport_dst\<close> differ in the place of the port.\<close>

definition rewrite_transport_port :: "nat \<Rightarrow> bytes \<Rightarrow> u8 \<Rightarrow> u16 \<Rightarrow> (gateway_error, bytes) outcome" where
  "rewrite_transport_port at packet proto new_port =
     (if proto = PROTO_TCP \<or> proto = PROTO_UDP then
        (if length packet < IPV6_HEADER_LEN + 4 then Err (PacketTooShort (length packet))
         else write_at at (be16 new_port) packet)
      else if proto = PROTO_ICMPV6 then
        (if length packet < IPV6_HEADER_LEN + 8 then Err (PacketTooShort (length packet))
         else write_at 44 (be16 new_port) packet)
      else Err (UnsupportedProtocol proto))"

definition rewrite_transport_src :: "bytes \<Rightarrow> u8 \<Rightarrow> u16 \<Rightarrow> (gateway_error, bytes) outcome" where
  "rewrite_transport_src = rewrite_transport_port 40"

definition rewrite_transport_dst :: "bytes \<Rightarrow> u8 \<Rightarrow> u16 \<Rightarrow> (gateway_error, bytes) outcome" where
  "rewrite_transport_dst = rewrite_transport_port 42"

definition recalc_transport_checksum_v6 :: "bytes \<Rightarrow> u8 \<Rightarrow> (gateway_error, bytes) outcome" where
  "recalc_transport_checksum_v6 packet proto =
     (if length packet < IPV6_HEADER_LEN then Err (PacketTooShort (length packet))
      else if proto \<notin> {PROTO_TCP, PROTO_UDP, PROTO_ICMPV6} then Err (UnsupportedProtocol proto)
      else
        let checksum_offset = IPV6_HEADER_LEN +
              (if proto = PROTO_TCP then 16 else if proto = PROTO_UDP then 6 else 2)
        in if length packet < checksum_offset + 2 then Err (PacketTooShort (length packet))
           else
             and_then (write_at checksum_offset [0] packet) (\<lambda>packet.
             and_then (write_at (checksum_offset + 1) [0] packet) (\<lambda>packet.
               let payload_len = length packet - IPV6_HEADER_LEN in
               and_then (subslice packet 8 24) (\<lambda>src.
               and_then (subslice packet 24 40) (\<lambda>dst.
               and_then (subslice packet IPV6_HEADER_LEN (length packet)) (\<lambda>payload.
                 let pseudo = src @ dst @ be32 (of_nat payload_len) @ [0, 0, 0, proto] @ payload
                 in write_at checksum_offset (be16 (fold_checksum (ones_complement_sum pseudo))) packet))))))"

definition rewrite_src_v6 :: "bytes \<Rightarrow> ipv6 \<Rightarrow> u16 \<Rightarrow> (gateway_error, bytes) outcome" where
  "rewrite_src_v6 packet new_src new_port =
     and_then (ipv6_next_header packet) (\<lambda>proto.
     and_then (write_at 8 (be128 new_src) packet) (\<lambda>packet.
     and_then (rewrite_transport_src packet proto new_port) (\<lambda>packet.
       recalc_transport_checksum_v6 packet proto)))"

definition rewrite_dst_v6 :: "bytes \<Rightarrow> ipv6 \<Rightarrow> u16 \<Rightarrow> (gateway_error, bytes) outcome" where
  "rewrite_dst_v6 packet new_dst new_port =
     and_then (ipv6_next_header packet) (\<lambda>proto.
     and_then (write_at 24 (be128 new_dst) packet) (\<lambda>packet.
     and_then (rewrite_transport_dst packet proto new_port) (\<lambda>packet.
       recalc_transport_checksum_v6 packet proto)))"

section \<open>Packets as records\<close>

record ip6_view =
  v6_head :: bytes
  v6_src :: ipv6
  v6_dst :: ipv6
  v6_segment :: bytes

definition ip6_bytes :: "ip6_view \<Rightarrow> bytes" where
  "ip6_bytes v = v6_head v @ be128 (v6_src v) @ be128 (v6_dst v) @ v6_segment v"

abbreviation v6_proto :: "ip6_view \<Rightarrow> u8" where
  "v6_proto v \<equiv> v6_head v ! 6"

definition checksum_at :: "u8 \<Rightarrow> nat" where
  "checksum_at proto = (if proto = PROTO_TCP then 16 else if proto = PROTO_UDP then 6 else 2)"

definition wf_ip6_view :: "ip6_view \<Rightarrow> bool" where
  "wf_ip6_view v \<longleftrightarrow> length (v6_head v) = 8 \<and> drop_bit 4 (v6_head v ! 0) = 6
     \<and> v6_proto v \<in> {PROTO_TCP, PROTO_UDP, PROTO_ICMPV6}
     \<and> 8 \<le> length (v6_segment v) \<and> checksum_at (v6_proto v) + 2 \<le> length (v6_segment v)"

definition put :: "nat \<Rightarrow> bytes \<Rightarrow> bytes \<Rightarrow> bytes" where
  "put i bs xs = take i xs @ bs @ drop (i + length bs) xs"

definition port_at :: "nat \<Rightarrow> u8 \<Rightarrow> nat" where
  "port_at i proto = (if proto = PROTO_ICMPV6 then 4 else i)"

definition v6_port :: "nat \<Rightarrow> ip6_view \<Rightarrow> u16" where
  "v6_port i v = of_be16 (take 2 (drop (port_at i (v6_proto v)) (v6_segment v)))"

definition pseudo :: "ip6_view \<Rightarrow> bytes" where
  "pseudo v = be128 (v6_src v) @ be128 (v6_dst v) @ be32 (of_nat (length (v6_segment v)))
     @ [0, 0, 0, v6_proto v] @ v6_segment v"

text \<open>RFC 8200: the pseudo header and the segment, checksum included, add up to -0.\<close>

definition v6_checksum_ok :: "ip6_view \<Rightarrow> bool" where
  "v6_checksum_ok v \<longleftrightarrow> word_sum (pseudo v) mod 65535 = 0"

definition v6_seal :: "ip6_view \<Rightarrow> ip6_view" where
  "v6_seal v =
     (let c = checksum_at (v6_proto v);
          blank = v\<lparr>v6_segment := put c [0, 0] (v6_segment v)\<rparr>
      in v\<lparr>v6_segment := put c (be16 (fold_checksum (ones_complement_sum (pseudo blank)))) (v6_segment v)\<rparr>)"

definition v6_set_port :: "nat \<Rightarrow> u16 \<Rightarrow> ip6_view \<Rightarrow> ip6_view" where
  "v6_set_port i port v = v\<lparr>v6_segment := put (port_at i (v6_proto v)) (be16 port) (v6_segment v)\<rparr>"

lemma length_put [simp]: "i + length bs \<le> length xs \<Longrightarrow> length (put i bs xs) = length xs"
  by (simp add: put_def)

lemma wf_ip6_viewD:
  assumes "wf_ip6_view v"
  shows "length (v6_head v) = 8" "drop_bit 4 (v6_head v ! 0) = 6" "8 \<le> length (v6_segment v)"
    "checksum_at (v6_proto v) + 2 \<le> length (v6_segment v)"
    "length (ip6_bytes v) = 40 + length (v6_segment v)" "ip6_bytes v ! 0 = v6_head v ! 0" "ip6_bytes v ! 6 = v6_proto v"
    "v6_proto v = PROTO_TCP \<or> v6_proto v = PROTO_UDP \<or> v6_proto v = PROTO_ICMPV6"
  using assms by (auto simp: wf_ip6_view_def ip6_bytes_def nth_append)

lemma next_header_view: "wf_ip6_view v \<Longrightarrow> ipv6_next_header (ip6_bytes v) = Ok (v6_proto v)"
  by (simp add: ipv6_next_header_def IPV6_HEADER_LEN_def wf_ip6_viewD index_def)

lemmas proto6_defs = proto_defs PROTO_ICMPV6_def IPV6_HEADER_LEN_def

lemma parse_flow_v6_view:
  assumes "wf_ip6_view v"
  shows "parse_flow_v6 (ip6_bytes v) = Ok (v6_proto v, v6_src v, v6_port 0 v)"
  using wf_ip6_viewD(1,3,8) [OF assms]
  unfolding parse_flow_v6_def next_header_view [OF assms]
  by (elim disjE) (simp_all add: ip6_bytes_def icmpv6_id_def v6_port_def port_at_def proto6_defs)

lemma transport_dst_port_v6_view:
  assumes "wf_ip6_view v"
  shows "transport_dst_port_v6 (ip6_bytes v) (v6_proto v) = Ok (v6_port 2 v)"
  using wf_ip6_viewD(1,3,8) [OF assms]
  by (elim disjE)
    (simp_all add: transport_dst_port_v6_def ip6_bytes_def icmpv6_id_def v6_port_def port_at_def proto6_defs)

lemma write_ip6_view:
  assumes "wf_ip6_view v"
  shows "write_at 8 (be128 a) (ip6_bytes v) = Ok (ip6_bytes (v\<lparr>v6_src := a\<rparr>))"
    "write_at 24 (be128 a) (ip6_bytes v) = Ok (ip6_bytes (v\<lparr>v6_dst := a\<rparr>))"
  using assms by (simp_all add: ip6_bytes_def wf_ip6_viewD)

lemma write_segment:
  assumes "length (v6_head v) = 8" "i + length bs \<le> length (v6_segment v)"
  shows "write_at (40 + i) bs (ip6_bytes v) = Ok (ip6_bytes (v\<lparr>v6_segment := put i bs (v6_segment v)\<rparr>))"
  using assms by (simp add: ip6_bytes_def put_def)

lemma rewrite_port_view:
  assumes "wf_ip6_view v"
  shows "rewrite_transport_src (ip6_bytes v) (v6_proto v) port = Ok (ip6_bytes (v6_set_port 0 port v))"
    "rewrite_transport_dst (ip6_bytes v) (v6_proto v) port = Ok (ip6_bytes (v6_set_port 2 port v))"
  using wf_ip6_viewD(1,3,5,8) [OF assms]
    write_segment [of v 0 "be16 port", where 'a = gateway_error]
    write_segment [of v 2 "be16 port", where 'a = gateway_error]
    write_segment [of v 4 "be16 port", where 'a = gateway_error]
  by (elim disjE; simp add: rewrite_transport_src_def rewrite_transport_dst_def
      rewrite_transport_port_def v6_set_port_def port_at_def proto6_defs)+
lemma put_put:
  "i + 2 \<le> length xs \<Longrightarrow> put (Suc i) [b] (put i [a] xs) = put i [a, b] xs"
  "i + 2 \<le> length xs \<Longrightarrow> length bs = 2 \<Longrightarrow> put i bs (put i [a, b] xs) = put i bs xs"
  by (simp_all add: put_def Suc_diff_le)

lemma recalc_view:
  assumes "wf_ip6_view v"
  shows "recalc_transport_checksum_v6 (ip6_bytes v) (v6_proto v) = Ok (ip6_bytes (v6_seal v))"
proof -
  let ?c = "checksum_at (v6_proto v)" and ?s = "v6_segment v"
  let ?b = "v\<lparr>v6_segment := put ?c [0, 0] ?s\<rparr>"
  note wf = wf_ip6_viewD [OF assms]
  have c: "Suc (Suc ?c) \<le> length ?s" using wf(4) by simp
  have "write_at (40 + ?c) [0] (ip6_bytes v) = (Ok (ip6_bytes (v\<lparr>v6_segment := put ?c [0] ?s\<rparr>)) :: (gateway_error, bytes) outcome)"
    using wf(1) c by (intro write_segment) simp_all
  moreover have "write_at (Suc (40 + ?c)) [0] (ip6_bytes (v\<lparr>v6_segment := put ?c [0] ?s\<rparr>)) = (Ok (ip6_bytes ?b) :: (gateway_error, bytes) outcome)"
    using wf(1) c write_segment [of "v\<lparr>v6_segment := put ?c [0] ?s\<rparr>" "Suc ?c" "[0]", where 'a = gateway_error]
    by (simp add: put_put(1) [of ?c ?s])
  moreover have "write_at (40 + ?c) (be16 x) (ip6_bytes ?b) = (Ok (ip6_bytes (v\<lparr>v6_segment := put ?c (be16 x) ?s\<rparr>)) :: (gateway_error, bytes) outcome)" for x
    using wf(1) c write_segment [of ?b ?c "be16 x", where 'a = gateway_error] by (simp add: put_put(2) [of ?c ?s])
  moreover have "subslice (ip6_bytes ?b) 8 24 = (Ok (be128 (v6_src v)) :: (gateway_error, bytes) outcome)"
    "subslice (ip6_bytes ?b) 24 40 = (Ok (be128 (v6_dst v)) :: (gateway_error, bytes) outcome)"
    "subslice (ip6_bytes ?b) 40 (length (ip6_bytes ?b)) = (Ok (put ?c [0, 0] ?s) :: (gateway_error, bytes) outcome)"
    "length (ip6_bytes ?b) - 40 = length ?s" "length (ip6_bytes v) = 40 + length ?s"
    using wf(1,5) c by (simp_all add: ip6_bytes_def)
  ultimately show ?thesis
    using wf(8) c unfolding recalc_transport_checksum_v6_def v6_seal_def pseudo_def IPV6_HEADER_LEN_def
    by (simp add: checksum_at_def [symmetric] Let_def)
qed

lemma wf_ip6_view_updates [simp]:
  "wf_ip6_view (v\<lparr>v6_src := a\<rparr>) = wf_ip6_view v" "wf_ip6_view (v\<lparr>v6_dst := a\<rparr>) = wf_ip6_view v"
  by (simp_all add: wf_ip6_view_def)

lemma v6_set_port_fields [simp]:
  "v6_head (v6_set_port i port v) = v6_head v" "v6_src (v6_set_port i port v) = v6_src v"
  "v6_dst (v6_set_port i port v) = v6_dst v"
  by (simp_all add: v6_set_port_def)

lemma wf_v6_set_port [simp]:
  "i \<le> 2 \<Longrightarrow> wf_ip6_view v \<Longrightarrow> wf_ip6_view (v6_set_port i port v)"
  by (simp add: wf_ip6_view_def v6_set_port_def port_at_def)

lemma v6_set_port_length:
  "i \<le> 2 \<Longrightarrow> wf_ip6_view v \<Longrightarrow> length (v6_segment (v6_set_port i port v)) = length (v6_segment v)"
  by (simp add: wf_ip6_view_def v6_set_port_def port_at_def)

lemma rewrite_v6_refines:
  assumes "wf_ip6_view v"
  shows "rewrite_src_v6 (ip6_bytes v) a port = Ok (ip6_bytes (v6_seal (v6_set_port 0 port (v\<lparr>v6_src := a\<rparr>))))"
    "rewrite_dst_v6 (ip6_bytes v) a port = Ok (ip6_bytes (v6_seal (v6_set_port 2 port (v\<lparr>v6_dst := a\<rparr>))))"
  using assms rewrite_port_view(1) [of "v\<lparr>v6_src := a\<rparr>" port] rewrite_port_view(2) [of "v\<lparr>v6_dst := a\<rparr>" port]
    recalc_view [of "v6_set_port 0 port (v\<lparr>v6_src := a\<rparr>)"] recalc_view [of "v6_set_port 2 port (v\<lparr>v6_dst := a\<rparr>)"]
  by (simp_all add: rewrite_src_v6_def rewrite_dst_v6_def next_header_view write_ip6_view del: write_at_in)

lemma word_sum_put:
  assumes "even i" "i + 2 \<le> length xs"
  shows "word_sum (put i (be16 w) xs) = unat w + word_sum (put i [0, 0] xs)"
  using assms by (simp add: put_def word_sum_append)

lemma v6_seal_ok:
  assumes "wf_ip6_view v" "length (v6_segment v) \<le> 131032"
  shows "v6_checksum_ok (v6_seal v)"
proof -
  let ?c = "checksum_at (v6_proto v)" and ?s = "v6_segment v"
  let ?b = "v\<lparr>v6_segment := put ?c [0, 0] ?s\<rparr>"
  let ?sum = "ones_complement_sum (pseudo ?b)"
  have c: "even ?c" "?c + 2 \<le> length ?s" using wf_ip6_viewD(4) [OF assms(1)] by (auto simp: checksum_at_def)
  have "length (pseudo ?b) \<le> 131072" using assms(2) c(2) by (simp add: pseudo_def)
  then have "unat ?sum = word_sum (pseudo ?b)" by (rule ones_complement_sum_exact)
  moreover have "word_sum (pseudo (v6_seal v)) = unat (fold_checksum ?sum) + word_sum (pseudo ?b)"
    using c word_sum_put [OF c, of "fold_checksum ?sum"]
    by (simp add: v6_seal_def Let_def pseudo_def word_sum_append)
  ultimately show ?thesis
    using fold_checksum_completes [of ?sum] by (simp add: v6_checksum_ok_def)
qed

lemma read_put:
  "i + 2 \<le> length xs \<Longrightarrow> take 2 (drop i (put i (be16 w) xs)) = be16 w"
  "i + 2 \<le> length xs \<Longrightarrow> j + 2 \<le> i \<or> i + 2 \<le> j \<Longrightarrow>
   take 2 (drop j (put i (be16 w) xs)) = take 2 (drop j xs)"
proof -
  assume i: "i + 2 \<le> length xs"
  show "take 2 (drop i (put i (be16 w) xs)) = be16 w" using i by (simp add: put_def)
  assume "j + 2 \<le> i \<or> i + 2 \<le> j"
  then show "take 2 (drop j (put i (be16 w) xs)) = take 2 (drop j xs)"
  proof
    assume "j + 2 \<le> i"
    then have "2 \<le> i - j" "j \<le> i" by linarith+
    then show ?thesis using i by (simp add: put_def drop_take min_def)
  next
    assume "i + 2 \<le> j"
    then have "i + 2 + (j - (i + 2)) = j" by simp
    then show ?thesis using i \<open>i + 2 \<le> j\<close> by (simp add: put_def min_def add.commute)
  qed
qed

lemma v6_seal_fields [simp]:
  "v6_head (v6_seal v) = v6_head v" "v6_src (v6_seal v) = v6_src v" "v6_dst (v6_seal v) = v6_dst v"
  by (simp_all add: v6_seal_def Let_def)

lemma v6_seal_port:
  assumes "wf_ip6_view v" "i = 0 \<or> i = 2"
  shows "v6_port i (v6_seal (v6_set_port i port v)) = port"
    and "length (v6_segment (v6_seal (v6_set_port i port v))) = length (v6_segment v)"
proof -
  let ?p = "port_at i (v6_proto v)" and ?c = "checksum_at (v6_proto v)" and ?s = "v6_segment v"
  have b: "?p + 2 \<le> length ?s" "?c + 2 \<le> length ?s" "?c + 2 \<le> ?p \<or> ?p + 2 \<le> ?c"
    using wf_ip6_viewD(3,4,8) [OF assms(1)] assms(2)
    by (auto simp: port_at_def checksum_at_def proto6_defs)
  have "take 2 (drop ?p (put ?c (be16 x) (put ?p (be16 port) ?s))) = be16 port" for x
    using b read_put(2) [of ?c "put ?p (be16 port) ?s" ?p x] read_put(1) [of ?p ?s port] by auto
  then show "v6_port i (v6_seal (v6_set_port i port v)) = port"
    by (simp add: v6_port_def v6_seal_def v6_set_port_def Let_def)
  show "length (v6_segment (v6_seal (v6_set_port i port v))) = length ?s"
    using b by (simp add: v6_seal_def v6_set_port_def Let_def)
qed

text \<open>
  Rewriting the source or the destination of an IPv6 packet of up to 131032 payload bytes
  changes the address, the port and the transport checksum only, and the checksum is valid afterwards,
  whatever it was before.
\<close>

theorem rewrite_v6_valid_checksum:
  assumes "wf_ip6_view v" "length (v6_segment v) \<le> 131032"
  shows "(\<exists>v'. rewrite_src_v6 (ip6_bytes v) a port = Ok (ip6_bytes v') \<and> v6_checksum_ok v'
            \<and> v6_head v' = v6_head v \<and> v6_src v' = a \<and> v6_dst v' = v6_dst v \<and> v6_port 0 v' = port
            \<and> length (v6_segment v') = length (v6_segment v))
       \<and> (\<exists>v'. rewrite_dst_v6 (ip6_bytes v) a port = Ok (ip6_bytes v') \<and> v6_checksum_ok v'
            \<and> v6_head v' = v6_head v \<and> v6_dst v' = a \<and> v6_src v' = v6_src v \<and> v6_port 2 v' = port
            \<and> length (v6_segment v') = length (v6_segment v))"
proof
  let ?s = "v6_seal (v6_set_port 0 port (v\<lparr>v6_src := a\<rparr>))" and ?d = "v6_seal (v6_set_port 2 port (v\<lparr>v6_dst := a\<rparr>))"
  have "v6_checksum_ok ?s" "v6_checksum_ok ?d"
    using assms by (intro v6_seal_ok; simp add: v6_set_port_length)+
  then show "\<exists>v'. rewrite_src_v6 (ip6_bytes v) a port = Ok (ip6_bytes v') \<and> v6_checksum_ok v'
            \<and> v6_head v' = v6_head v \<and> v6_src v' = a \<and> v6_dst v' = v6_dst v \<and> v6_port 0 v' = port
            \<and> length (v6_segment v') = length (v6_segment v)"
    "\<exists>v'. rewrite_dst_v6 (ip6_bytes v) a port = Ok (ip6_bytes v') \<and> v6_checksum_ok v'
            \<and> v6_head v' = v6_head v \<and> v6_dst v' = a \<and> v6_src v' = v6_src v \<and> v6_port 2 v' = port
            \<and> length (v6_segment v') = length (v6_segment v)"
    using assms(1) rewrite_v6_refines [OF assms(1), of a port]
      v6_seal_port [of "v\<lparr>v6_src := a\<rparr>" 0 port] v6_seal_port [of "v\<lparr>v6_dst := a\<rparr>" 2 port]
    by - (rule exI [of _ ?s], simp, rule exI [of _ ?d], simp)
qed

theorem rewrite_v6_valid_checksum_witness:
  "let v = \<lparr>v6_head = [0x60, 0, 0, 0, 0, 9, 17, 64], v6_src = 1, v6_dst = 2,
            v6_segment = [0x0F, 0xA0, 0, 53, 0, 9, 0xAB, 0xCD, 7]\<rparr>
   in \<exists>v'. rewrite_src_v6 (ip6_bytes v) 5 30000 = Ok (ip6_bytes v') \<and> v6_checksum_ok v' \<and> v6_src v' = 5"
proof -
  let ?v = "\<lparr>v6_head = [0x60, 0, 0, 0, 0, 9, 17, 64], v6_src = 1, v6_dst = 2,
            v6_segment = [0x0F, 0xA0, 0, 53, 0, 9, 0xAB, 0xCD, 7]\<rparr>"
  have "wf_ip6_view ?v" "length (v6_segment ?v) \<le> 131032"
    by (simp_all add: wf_ip6_view_def checksum_at_def proto6_defs)
  from rewrite_v6_valid_checksum [OF this, of 5 30000] show ?thesis unfolding Let_def by blast
qed
section \<open>The engine\<close>

record key6 = "ipv6 conntrack_key" +
  ck_src_id :: node_id

record entry6 = "ipv6 conntrack_entry" +
  ce_src_id :: node_id

record gateway_engine_v6 =
  ge6_external_ip :: ipv6
  ge6_inner :: "(key6, entry6) nat_inner"

definition GatewayEngineV6_new :: "ipv6 \<Rightarrow> gateway_engine_v6" where
  "GatewayEngineV6_new external_ip = \<lparr>ge6_external_ip = external_ip, ge6_inner = Inner_new\<rparr>"

definition new_entry6 :: "instant \<Rightarrow> key6 \<Rightarrow> u16 \<Rightarrow> entry6" where
  "new_entry6 now key ext_port =
     \<lparr>ce_ext_port = ext_port, ce_last_seen = now, ce_orig_src = ck_orig_src key,
      ce_orig_port = ck_orig_port key, ce_proto = ck_proto key, ce_src_id = ck_src_id key\<rparr>"

definition track6 :: "instant \<Rightarrow> key6 \<Rightarrow> (key6, entry6) nat_inner \<Rightarrow> (u16 option \<times> (key6, entry6) nat_inner) option" where
  "track6 now key inner = ct_track (\<lambda>p. Some (PortPoolV6_allocate p)) (new_entry6 now key) now key inner"

definition translate_outbound_v6 ::
  "instant \<Rightarrow> bytes \<Rightarrow> node_id \<Rightarrow> gateway_engine_v6
     \<Rightarrow> ((gateway_error, u16 \<times> bytes) outcome \<times> gateway_engine_v6) option" where
  "translate_outbound_v6 now packet src_id eng =
     (case parse_flow_v6 packet of
        Err e \<Rightarrow> Some (Err e, eng)
      | Panic \<Rightarrow> Some (Panic, eng)
      | Ok (proto, src_ip, src_port) \<Rightarrow>
          let key = \<lparr>ck_proto = proto, ck_orig_src = src_ip, ck_orig_port = src_port, ck_src_id = src_id\<rparr>
          in case track6 now key (ge6_inner eng) of
               None \<Rightarrow> None
             | Some (None, inner) \<Rightarrow> Some (Err ConntrackFull, eng\<lparr>ge6_inner := inner\<rparr>)
             | Some (Some ext_port, inner) \<Rightarrow>
                 Some (and_then (rewrite_src_v6 packet (ge6_external_ip eng) ext_port)
                         (\<lambda>packet. Ok (ext_port, packet)),
                       eng\<lparr>ge6_inner := inner\<rparr>))"

definition translate_inbound_v6 ::
  "instant \<Rightarrow> bytes \<Rightarrow> gateway_engine_v6 \<Rightarrow> (gateway_error, node_id \<times> bytes) outcome \<times> gateway_engine_v6" where
  "translate_inbound_v6 now packet eng =
     (case and_then (ipv6_next_header packet) (\<lambda>proto.
             and_then (transport_dst_port_v6 packet proto) (\<lambda>dst_port. Ok (proto, dst_port))) of
        Err e \<Rightarrow> (Err e, eng)
      | Panic \<Rightarrow> (Panic, eng)
      | Ok (proto, dst_port) \<Rightarrow>
          (case ct_find now proto dst_port (ge6_inner eng) of
             (None, inner) \<Rightarrow> (Err (NoConntrackEntry proto dst_port), eng\<lparr>ge6_inner := inner\<rparr>)
           | (Some entry, inner) \<Rightarrow>
               (and_then (rewrite_dst_v6 packet (ce_orig_src entry) (ce_orig_port entry))
                  (\<lambda>packet. Ok (ce_src_id entry, packet)),
                eng\<lparr>ge6_inner := inner\<rparr>)))"

definition cleanup_expired_v6 :: "instant \<Rightarrow> gateway_engine_v6 \<Rightarrow> gateway_engine_v6" where
  "cleanup_expired_v6 now eng = eng\<lparr>ge6_inner := ct_cleanup PROTO_ICMPV6 now (ge6_inner eng)\<rparr>"

section \<open>The flow table of the engine\<close>

definition matches6 :: "key6 \<Rightarrow> entry6 \<Rightarrow> bool" where
  "matches6 k e \<longleftrightarrow> ce_orig_src e = ck_orig_src k \<and> ce_orig_port e = ck_orig_port k \<and> ce_src_id e = ck_src_id k"

lemma allocator6: "allocator (\<lambda>p. Some (PortPoolV6_allocate p))"
  unfolding allocator_def using PortPoolV6_allocate_correct by blast

lemma describes6: "describes matches6 k (new_entry6 now k)"
  by (simp add: describes_def matches6_def new_entry6_def)

lemma ignores_time6: "ignores_time matches6"
  by (simp add: ignores_time_def matches6_def)

interpretation nat6: flow_table "ct_inv matches6" ct_ports ck_proto matches6 track6 ct_find
  using ct_track_correct [OF _ allocator6 describes6 ignores_time6]
    ct_find_correct [OF _ ignores_time6]
  by unfold_locales (auto simp: track6_def intro: ct_ports_inj)

section \<open>The engine as a step system\<close>

datatype nat6_event = Outbound6 instant bytes node_id | Inbound6 instant bytes | Cleanup6 instant

fun nat6_exec :: "nat6_event \<Rightarrow> gateway_engine_v6 \<Rightarrow> gateway_engine_v6 option" where
  "nat6_exec (Outbound6 now packet src_id) eng = map_option snd (translate_outbound_v6 now packet src_id eng)"
| "nat6_exec (Inbound6 now packet) eng = Some (snd (translate_inbound_v6 now packet eng))"
| "nat6_exec (Cleanup6 now) eng = Some (cleanup_expired_v6 now eng)"

fun nat6_run :: "nat6_event list \<Rightarrow> gateway_engine_v6 \<Rightarrow> gateway_engine_v6 option" where
  "nat6_run [] eng = Some eng"
| "nat6_run (ev # evs) eng = Option.bind (nat6_exec ev eng) (nat6_run evs)"

definition nat6_init :: "gateway_engine_v6 \<Rightarrow> bool" where
  "nat6_init eng \<longleftrightarrow> eng = GatewayEngineV6_new (ge6_external_ip eng)"

inductive nat6_step :: "gateway_engine_v6 \<Rightarrow> gateway_engine_v6 \<Rightarrow> bool" where
  nat6_stepI: "nat6_exec ev eng = Some eng' \<Longrightarrow> nat6_step eng eng'"

inductive_cases nat6_stepE: "nat6_step eng eng'"

abbreviation nat6_inv :: "gateway_engine_v6 \<Rightarrow> bool" where
  "nat6_inv eng \<equiv> ct_inv matches6 (ge6_inner eng)"

text \<open>Every event acts on the table by at most one of its operations.\<close>

lemma nat6_exec_inner:
  assumes "nat6_exec ev eng = Some eng'"
  shows "eng' = eng \<or> (\<exists>inner. eng' = eng\<lparr>ge6_inner := inner\<rparr> \<and>
     (case ev of
        Outbound6 now packet src_id \<Rightarrow> \<exists>k x. track6 now k (ge6_inner eng) = Some (x, inner)
      | Inbound6 now packet \<Rightarrow> \<exists>p q x. ct_find now p q (ge6_inner eng) = (x, inner)
      | Cleanup6 now \<Rightarrow> inner = ct_cleanup PROTO_ICMPV6 now (ge6_inner eng)))"
proof (cases ev)
  case (Outbound6 now packet src_id)
  with assms obtain r where "translate_outbound_v6 now packet src_id eng = Some (r, eng')" by auto
  then show ?thesis
    using Outbound6 by (auto simp: translate_outbound_v6_def Let_def split: outcome.splits option.splits)
next
  case (Inbound6 now packet)
  with assms show ?thesis
    by (auto simp: translate_inbound_v6_def split: outcome.splits option.splits prod.splits)
next
  case (Cleanup6 now)
  with assms show ?thesis by (auto simp: cleanup_expired_v6_def)
qed

lemma nat6_exec_inv:
  assumes "nat6_inv eng" "nat6_exec ev eng = Some eng'"
  shows "nat6_inv eng'"
  using nat6_exec_inner [OF assms(2)] assms(1) ct_cleanup_correct(1) [OF assms(1)]
  by (cases ev) (auto dest: nat6.track_inv nat6.find_inv)

interpretation nat6_engine: step_invariant nat6_init nat6_step nat6_inv
proof
  show "nat6_inv s" if "nat6_init s" for s
    using that by (metis GatewayEngineV6_new_def ct_inv_new gateway_engine_v6.select_convs(2) nat6_init_def)
  show "nat6_inv s'" if "nat6_inv s" "nat6_step s s'" for s s'
    using that(2) nat6_exec_inv [OF that(1)] by (elim nat6_stepE)
qed

fun traffic6_within :: "instant \<Rightarrow> duration \<Rightarrow> nat6_event \<Rightarrow> bool" where
  "traffic6_within t d (Outbound6 now packet src_id) \<longleftrightarrow> t \<le> now"
| "traffic6_within t d (Inbound6 now packet) \<longleftrightarrow> t \<le> now"
| "traffic6_within t d (Cleanup6 now) \<longleftrightarrow> now \<le> t + d"

lemma used_since_exec6:
  assumes "nat6_inv eng" "used_since t k q (ge6_inner eng)" "nat6_exec ev eng = Some eng'"
    and "traffic6_within t (idle_timeout PROTO_ICMPV6 (ck_proto k)) ev"
  shows "used_since t k q (ge6_inner eng')"
  using nat6_exec_inner [OF assms(3)] assms(2,4) used_since_cleanup [OF assms(1,2)]
  by (cases ev) (auto simp: track6_def dest: used_since_track used_since_find)

lemma used_since_run6:
  assumes "nat6_inv eng" "used_since t k q (ge6_inner eng)" "nat6_run evs eng = Some eng'"
    and "list_all (traffic6_within t (idle_timeout PROTO_ICMPV6 (ck_proto k))) evs"
  shows "nat6_inv eng' \<and> used_since t k q (ge6_inner eng')"
  using assms
proof (induction evs arbitrary: eng)
  case (Cons ev evs)
  then obtain e1 where e1: "nat6_exec ev eng = Some e1" "nat6_run evs e1 = Some eng'"
    by (auto simp: bind_eq_Some_conv)
  show ?case
    using Cons.IH [OF nat6_exec_inv [OF Cons.prems(1) e1(1)] _ e1(2)]
      used_since_exec6 [OF Cons.prems(1,2) e1(1)] Cons.prems(4) by simp
qed simp

definition flow_key6 :: "ip6_view \<Rightarrow> node_id \<Rightarrow> key6" where
  "flow_key6 v src_id =
     \<lparr>ck_proto = v6_proto v, ck_orig_src = v6_src v, ck_orig_port = v6_port 0 v, ck_src_id = src_id\<rparr>"

lemma outbound6_view:
  assumes "wf_ip6_view v" "translate_outbound_v6 t (ip6_bytes v) src_id eng = Some (Ok (port, p), eng')"
  shows "\<exists>inner. track6 t (flow_key6 v src_id) (ge6_inner eng) = Some (Some port, inner)
     \<and> eng' = eng\<lparr>ge6_inner := inner\<rparr>"
  using assms(2)
  by (auto simp: translate_outbound_v6_def parse_flow_v6_view [OF assms(1)] Let_def flow_key6_def
      and_then_eq_Ok split: option.splits)

lemma inbound6_view:
  assumes "nat6_inv eng" "ct_ports (ge6_inner eng) k = Some (v6_port 2 w)" "wf_ip6_view w" "v6_proto w = ck_proto k"
  shows "\<exists>eng'. translate_inbound_v6 t (ip6_bytes w) eng
     = (Ok (ck_src_id k, ip6_bytes (v6_seal (v6_set_port 2 (ck_orig_port k) (w\<lparr>v6_dst := ck_orig_src k\<rparr>)))), eng')"
  using nat6.find_owner [OF assms(1,2), of t] assms(4)
  by (auto simp: translate_inbound_v6_def next_header_view [OF assms(3)]
      transport_dst_port_v6_view [OF assms(3), unfolded assms(4)] rewrite_v6_refines [OF assms(3)] matches6_def)

text \<open>
  Claim C35: a reply to the external port an IPv6 packet was given is handed to the mesh node the packet
  came from, with destination and port those of the packet and a valid transport checksum, whatever
  other traffic lies between, as long as no cleanup runs later than the idle timeout.
\<close>

theorem nat6_reply_delivered:
  assumes "reachable nat6_init nat6_step eng"
    and "wf_ip6_view v" "translate_outbound_v6 t (ip6_bytes v) src_id eng = Some (Ok (port, p), eng1)"
    and "list_all (traffic6_within t (idle_timeout PROTO_ICMPV6 (v6_proto v))) evs" "nat6_run evs eng1 = Some eng2"
    and "wf_ip6_view w" "v6_proto w = v6_proto v" "v6_port 2 w = port" "length (v6_segment w) \<le> 131032"
  shows "\<exists>w' eng3. translate_inbound_v6 t' (ip6_bytes w) eng2 = (Ok (src_id, ip6_bytes w'), eng3)
     \<and> v6_dst w' = v6_src v \<and> v6_port 2 w' = v6_port 0 v \<and> v6_src w' = v6_src w \<and> v6_checksum_ok w'"
proof -
  let ?k = "flow_key6 v src_id"
  let ?w = "v6_seal (v6_set_port 2 (ck_orig_port ?k) (w\<lparr>v6_dst := ck_orig_src ?k\<rparr>))"
  have inv: "nat6_inv eng" by (rule nat6_engine.inv_reachable [OF assms(1)])
  obtain inner where t: "track6 t ?k (ge6_inner eng) = Some (Some port, inner)" "eng1 = eng\<lparr>ge6_inner := inner\<rparr>"
    using outbound6_view [OF assms(2,3)] by blast
  have "used_since t ?k port (ge6_inner eng1)"
    using used_since_tracked [OF t(1) [unfolded track6_def]] t(2) by (simp add: new_entry6_def)
  moreover have "nat6_inv eng1" using nat6.track_inv [OF inv t(1)] t(2) by simp
  ultimately have "nat6_inv eng2" "used_since t ?k port (ge6_inner eng2)"
    using used_since_run6 [OF _ _ assms(5)] assms(4) by (simp_all add: flow_key6_def)
  then have "\<exists>eng3. translate_inbound_v6 t' (ip6_bytes w) eng2 = (Ok (ck_src_id ?k, ip6_bytes ?w), eng3)"
    using used_since_ports assms(6-8) by (intro inbound6_view) (auto simp: flow_key6_def)
  moreover have "v6_checksum_ok ?w"
    using assms(6,9) by (intro v6_seal_ok) (simp_all add: v6_set_port_length)
  moreover have "v6_port 2 ?w = ck_orig_port ?k"
    using assms(6) by (intro v6_seal_port) simp_all
  ultimately show ?thesis by (auto simp: flow_key6_def)
qed

definition example_view6 :: "ipv6 \<Rightarrow> ipv6 \<Rightarrow> u16 \<Rightarrow> u16 \<Rightarrow> ip6_view" where
  "example_view6 src dst sport dport =
     \<lparr>v6_head = [0x60, 0, 0, 0, 0, 9, 17, 64], v6_src = src, v6_dst = dst,
      v6_segment = be16 sport @ be16 dport @ [0, 9, 0, 0, 7]\<rparr>"

lemma wf_example_view6 [simp]: "wf_ip6_view (example_view6 src dst sport dport)"
  by (simp add: example_view6_def wf_ip6_view_def checksum_at_def proto6_defs)

lemma example_outbound6:
  "\<exists>p eng1. translate_outbound_v6 10 (ip6_bytes (example_view6 1 2 4000 53)) n (GatewayEngineV6_new 5)
     = Some (Ok (30000, p), eng1)"
  using rewrite_v6_refines(1) [OF wf_example_view6, of 1 2 4000 53 5 30000] PortPoolV6_allocate_next [of PortPool_new]
  by (simp add: translate_outbound_v6_def parse_flow_v6_view Let_def track6_def ct_track_def
      GatewayEngineV6_new_def Inner_new_def PortPool_new_def PORT_MIN_def)

theorem nat6_reply_delivered_witness:
  "\<exists>p eng1 w' eng3.
     translate_outbound_v6 10 (ip6_bytes (example_view6 1 2 4000 53)) (NodeId (replicate 16 3)) (GatewayEngineV6_new 5)
       = Some (Ok (30000, p), eng1)
     \<and> translate_inbound_v6 12 (ip6_bytes (example_view6 2 5 53 30000)) (cleanup_expired_v6 40 eng1)
       = (Ok (NodeId (replicate 16 3), ip6_bytes w'), eng3) \<and> v6_dst w' = 1"
proof -
  let ?v = "example_view6 1 2 4000 53" and ?w = "example_view6 2 5 53 30000" and ?eng = "GatewayEngineV6_new 5"
  have r: "reachable nat6_init nat6_step ?eng"
    by (rule reachable_init) (simp add: nat6_init_def GatewayEngineV6_new_def)
  obtain p eng1 where o: "translate_outbound_v6 10 (ip6_bytes ?v) (NodeId (replicate 16 3)) ?eng = Some (Ok (30000, p), eng1)"
    using example_outbound6 by blast
  have "v6_src ?v = 1" "v6_proto ?w = v6_proto ?v" "v6_port 2 ?w = 30000" "length (v6_segment ?w) \<le> 131032"
    "list_all (traffic6_within 10 (idle_timeout PROTO_ICMPV6 (v6_proto ?v))) [Cleanup6 40]"
    "nat6_run [Cleanup6 40] eng1 = Some (cleanup_expired_v6 40 eng1)"
    by (simp_all add: example_view6_def idle_timeout_def proto6_defs v6_port_def port_at_def)
  with nat6_reply_delivered [OF r _ o, of "[Cleanup6 40]" _ ?w 12] o show ?thesis by auto
qed

end
