(* ===== verification/Daemon_Node.thy ===== *)
theory Daemon_Node
  imports Peer_Policies Echo_Reply Routing_Lookup Key_Exchange Fragmentation Nat_Engine Nat_Engine6
begin

text \<open>
  The state of a running node (\<^verbatim>\<open>DaemonState\<close> in \<^verbatim>\<open>pim-daemon/src/app.rs\<close>) and the operations its
  tasks share: sending mesh data through the sessions, the transport and the send buffer
  (\<^verbatim>\<open>data_plane.rs\<close>, \<^verbatim>\<open>peer_tasks.rs\<close>), routed control frames and pending outbound connections
  (\<^verbatim>\<open>ip_control.rs\<close>), removing peers, and the periodic tasks. An operation takes the state and
  returns it; the locks of the code make the parts of a handler exclusive. Packets given to the TUN
  device and to the internet uplink, payloads given to plugins, identities given to the peer
  directory and tasks that are spawned are appended to output fields. Counters wrap like the
  atomics of the code.
\<close>

section \<open>State\<close>

text \<open>The cryptographic primitives the daemon is linked with.\<close>

record primitives =
  pr_aead :: aead
  pr_x25519 :: x25519
  pr_kdf :: kdf
  pr_ed25519 :: ed25519
  pr_blake3 :: blake3
  pr_sha256 :: "bytes \<Rightarrow> bytes"

abbreviation peer_identity :: "primitives \<Rightarrow> bytes \<Rightarrow> node_id" where
  "peer_identity P \<equiv> NodeId_from_public_key (pr_sha256 P)"

datatype ip_addr = IpV4 ipv4 | IpV6 ipv6

fun addr_ip :: "socket_addr \<Rightarrow> ip_addr" where
  "addr_ip (AddrV4 ip _) = IpV4 ip"
| "addr_ip (AddrV6 ip _) = IpV6 ip"

record pending_outbound =
  po_transport_key :: node_id
  po_target :: connect_target

datatype peer_info_source = Direct | Routed

record node =
  nd_node_name :: bytes
  nd_self_id :: node_id
  nd_seed :: bytes
  nd_is_gateway :: bool
  nd_mesh_ipv4 :: ipv4
  nd_own_x25519_pub :: bytes
  nd_sessions :: "(node_id, session) hash_map"
  nd_hs_channels :: "(node_id, handshake_wire_frame list) hash_map"
  nd_pending_outbound :: "(ip_addr, pending_outbound) hash_map"
  nd_cancelled_outbounds :: "node_id set"
  nd_routing :: routing_table
  nd_reassemblers :: "(node_id, reassembler) hash_map"
  nd_frag_id :: u32
  nd_transport :: tcp_transport
  nd_gw_engine :: "gateway_engine option"
  nd_gw_engine_v6 :: "gateway_engine_v6 option"
  nd_internet_link :: bool
  nd_peer_last_hb :: "(node_id, instant) hash_map"
  nd_reconnect :: reconnect_manager
  nd_send :: send_state
  nd_packets_forwarded :: u64
  nd_bytes_forwarded :: u64
  nd_packets_dropped :: u64
  nd_pending_pings :: "(u64, node_id \<times> instant) hash_map"
  nd_peer_pubkeys :: "(node_id, bytes) hash_map"
  nd_rate_limiter :: rate_limiter
  nd_reputation :: reputation_tracker
  nd_authorization :: authorization_manager
  nd_mesh_handshake_key :: "bytes option"
  nd_min_peer_interval_s :: duration
  nd_watch_incoming :: bool
  nd_broadcast_peer_last_seen :: "(node_id, instant) hash_map"
  nd_plugins :: "bytes list list option"
  nd_gw_x25519_by_id :: "(node_id, bytes) hash_map"
  nd_tun_out :: "bytes list"
  nd_link_out :: "bytes list"
  nd_plugin_out :: "(nat \<times> node_id \<times> bytes \<times> bytes) list"
  nd_peer_seen :: "(node_id \<times> bytes \<times> bytes \<times> peer_info_source \<times> bool) list"
  nd_responders :: "(node_id \<times> handshake_wire_frame) list"
  nd_reconnect_tasks :: "connect_target list"

section \<open>Sending\<close>

definition next_frag_id :: "node \<Rightarrow> u32 \<times> node" where
  "next_frag_id nd = (nd_frag_id nd, nd\<lparr>nd_frag_id := nd_frag_id nd + 1\<rparr>)"

text \<open>\<^verbatim>\<open>send_frame_buffered\<close> with the transport of the node.\<close>

definition node_send :: "instant \<Rightarrow> node_id \<Rightarrow> transport_frame \<Rightarrow> node \<Rightarrow> node" where
  "node_send now peer frame nd =
     (let (result, tt) = transport_send peer frame (nd_transport nd)
      in nd\<lparr>nd_transport := tt, nd_send := send_frame_buffered (\<lambda>_ _. result) now peer frame (nd_send nd)\<rparr>)"

definition plain_frame :: "frame_type \<Rightarrow> bytes \<Rightarrow> transport_frame" where
  "plain_frame ty payload =
     \<lparr>tf_frame_type = ty, tf_nonce = replicate 12 0, tf_payload = payload, tf_tag = replicate 16 0\<rparr>"

definition send_control :: "instant \<Rightarrow> node_id \<Rightarrow> control_frame \<Rightarrow> node \<Rightarrow> node" where
  "send_control now peer cf nd = node_send now peer (plain_frame Control (ControlFrame_encode cf)) nd"

text \<open>
  \<open>hop\<close> is the key under which the caller found the session; the frame goes to the peer the session
  names. The counter of the session advances also when sealing fails.
\<close>

definition send_single_mesh ::
  "primitives \<Rightarrow> instant \<Rightarrow> node_id \<Rightarrow> node_id \<Rightarrow> node_id \<Rightarrow> u8 \<Rightarrow> u8 \<Rightarrow> bytes \<Rightarrow> node \<Rightarrow> node" where
  "send_single_mesh P now hop src_id dst_id ttl flags payload nd =
     (case hm_get (nd_sessions nd) hop of
        None \<Rightarrow> nd
      | Some session \<Rightarrow>
          let mesh = \<lparr>mdf_src_id = src_id, mdf_dst_id = dst_id, mdf_session_id = 0, mdf_ttl = ttl,
                      mdf_flags = flags, mdf_payload = payload\<rparr>;
              (result, session') = Session_encrypt_frame (pr_aead P) (MeshDataFrame_encode mesh) session;
              nd = nd\<lparr>nd_sessions := hm_insert hop session' (nd_sessions nd)\<rparr>
          in case result of
               Ok frame \<Rightarrow> node_send now (se_peer_id session) frame nd
             | _ \<Rightarrow> nd)"

definition send_mesh_data ::
  "primitives \<Rightarrow> instant \<Rightarrow> node_id \<Rightarrow> node_id \<Rightarrow> node_id \<Rightarrow> u8 \<Rightarrow> u8 \<Rightarrow> bytes \<Rightarrow> node \<Rightarrow> node" where
  "send_mesh_data P now hop src_id dst_id ttl flags payload nd =
     (let threshold = MAX_FRAGMENT_PAYLOAD - 40
      in if length payload > threshold then
           (let (frag_id, nd) = next_frag_id nd
            in fold (\<lambda>frag. send_single_mesh P now hop src_id dst_id ttl (flags OR IS_FRAGMENT)
                              (FragmentFrame_serialize frag))
                 (fragment_packet payload frag_id) nd)
         else send_single_mesh P now hop src_id dst_id ttl flags payload nd)"

definition reassemble_or_deliver ::
  "instant \<Rightarrow> node_id \<Rightarrow> u8 \<Rightarrow> bytes \<Rightarrow> node \<Rightarrow> bytes option \<times> node" where
  "reassemble_or_deliver now src_id flags payload nd =
     (if DataFlags_contains flags IS_FRAGMENT then
        (case FragmentFrame_deserialize payload of
           None \<Rightarrow> (None, nd)
         | Some frag \<Rightarrow>
             let r = (case hm_get (nd_reassemblers nd) src_id of Some r \<Rightarrow> r | None \<Rightarrow> Reassembler_new);
                 (result, r) = Reassembler_insert now frag r
             in (result, nd\<lparr>nd_reassemblers := hm_insert src_id r (nd_reassemblers nd)\<rparr>))
      else (Some payload, nd))"

section \<open>Routed control frames and pending connections\<close>

definition send_routed_control_via ::
  "primitives \<Rightarrow> instant \<Rightarrow> node_id \<Rightarrow> node_id \<Rightarrow> control_frame \<Rightarrow> node \<Rightarrow> bool \<times> node" where
  "send_routed_control_via P now next_hop dst_id cf nd =
     (case hm_get (nd_sessions nd) next_hop of
        None \<Rightarrow> (False, nd)
      | Some _ \<Rightarrow>
          (True, send_single_mesh P now next_hop (nd_self_id nd) dst_id 8 IS_CONTROL (ControlFrame_encode cf) nd))"

definition send_routed_control ::
  "primitives \<Rightarrow> instant \<Rightarrow> node_id \<Rightarrow> control_frame \<Rightarrow> node \<Rightarrow> bool \<times> node" where
  "send_routed_control P now dst_id cf nd =
     (case lookup dst_id (nd_routing nd) of
        None \<Rightarrow> (False, nd)
      | Some next_hop \<Rightarrow> send_routed_control_via P now next_hop dst_id cf nd)"

definition register_pending_outbound :: "connect_target \<Rightarrow> node_id \<Rightarrow> node \<Rightarrow> node" where
  "register_pending_outbound target transport_key nd =
     nd\<lparr>nd_pending_outbound := hm_insert (addr_ip (ConnectTarget_addr target))
          \<lparr>po_transport_key = transport_key, po_target = target\<rparr> (nd_pending_outbound nd)\<rparr>"

definition clear_pending_outbound :: "connect_target \<Rightarrow> node_id \<Rightarrow> node \<Rightarrow> node" where
  "clear_pending_outbound target transport_key nd =
     (let ip = addr_ip (ConnectTarget_addr target)
      in case hm_get (nd_pending_outbound nd) ip of
           Some entry \<Rightarrow>
             if po_transport_key entry = transport_key
             then nd\<lparr>nd_pending_outbound := hm_remove ip (nd_pending_outbound nd)\<rparr> else nd
         | None \<Rightarrow> nd)"

definition node_disconnect :: "node_id \<Rightarrow> node \<Rightarrow> node" where
  "node_disconnect peer nd = nd\<lparr>nd_transport := snd (disconnect peer (nd_transport nd))\<rparr>"

definition cancel_pending_outbound_for_ip :: "ip_addr \<Rightarrow> node \<Rightarrow> pending_outbound option \<times> node" where
  "cancel_pending_outbound_for_ip remote_ip nd =
     (case hm_get (nd_pending_outbound nd) remote_ip of
        None \<Rightarrow> (None, nd)
      | Some entry \<Rightarrow>
          let key = po_transport_key entry;
              nd = nd\<lparr>nd_pending_outbound := hm_remove remote_ip (nd_pending_outbound nd),
                      nd_cancelled_outbounds := insert key (nd_cancelled_outbounds nd),
                      nd_hs_channels := hm_remove key (nd_hs_channels nd)\<rparr>;
              nd = node_disconnect key nd
          in (Some entry, nd\<lparr>nd_reconnect := end_reconnect (po_target entry) (nd_reconnect nd)\<rparr>))"

definition take_cancelled_outbound :: "node_id \<Rightarrow> node \<Rightarrow> bool \<times> node" where
  "take_cancelled_outbound key nd =
     (key \<in> nd_cancelled_outbounds nd, nd\<lparr>nd_cancelled_outbounds := nd_cancelled_outbounds nd - {key}\<rparr>)"

section \<open>Removing a peer, and the periodic tasks\<close>

definition send_signed_update :: "primitives \<Rightarrow> instant \<Rightarrow> node_id \<times> route_update_frame \<Rightarrow> node \<Rightarrow> node" where
  "send_signed_update P now advert nd =
     node_send now (fst advert)
       (plain_frame RouteUpdate
          (RouteUpdateFrame_encode (sign_route_update (pr_ed25519 P) (nd_seed nd) (snd advert)))) nd"

text \<open>One round of \<^verbatim>\<open>run_route_advertisements\<close>.\<close>

definition advertise_routes :: "primitives \<Rightarrow> instant \<Rightarrow> node \<Rightarrow> node" where
  "advertise_routes P now nd =
     (let (adverts, tb) = generate_all_advertisements (nd_routing nd)
      in fold (send_signed_update P now) adverts (nd\<lparr>nd_routing := tb\<rparr>))"

definition schedule_reconnect :: "node_id \<Rightarrow> node \<Rightarrow> node" where
  "schedule_reconnect peer nd =
     (case is_reconnectable_target peer (nd_reconnect nd) of
        None \<Rightarrow> nd
      | Some target \<Rightarrow>
          let (started, rm) = begin_reconnect target (nd_reconnect nd);
              nd = nd\<lparr>nd_reconnect := rm\<rparr>
          in if started then nd\<lparr>nd_reconnect_tasks := nd_reconnect_tasks nd @ [target]\<rparr> else nd)"

definition daemon_remove_peer :: "primitives \<Rightarrow> instant \<Rightarrow> node_id \<Rightarrow> node \<Rightarrow> node" where
  "daemon_remove_peer P now peer nd =
     (let nd = nd\<lparr>nd_sessions := hm_remove peer (nd_sessions nd),
                  nd_peer_pubkeys := hm_remove peer (nd_peer_pubkeys nd),
                  nd_rate_limiter := RateLimiter_remove_peer peer (nd_rate_limiter nd),
                  nd_routing := snd (remove_peer peer (nd_routing nd)),
                  nd_peer_last_hb := hm_remove peer (nd_peer_last_hb nd)\<rparr>;
          nd = node_disconnect peer nd;
          nd = advertise_routes P now nd
      in schedule_reconnect peer nd)"

definition LIVENESS_TIMEOUT :: duration where "LIVENESS_TIMEOUT = 15"

definition drop_silent_peer :: "primitives \<Rightarrow> instant \<Rightarrow> node_id \<Rightarrow> node \<Rightarrow> node" where
  "drop_silent_peer P now peer nd =
     (let nd = daemon_remove_peer P now peer nd;
          (newly_blacklisted, rep) = record_failure peer (nd_reputation nd);
          nd = nd\<lparr>nd_reputation := rep\<rparr>
      in if newly_blacklisted then nd\<lparr>nd_routing := snd (blacklist_peer peer (nd_routing nd))\<rparr> else nd)"

text \<open>One round of \<^verbatim>\<open>run_peer_liveness\<close>.\<close>

definition check_liveness :: "primitives \<Rightarrow> instant \<Rightarrow> node \<Rightarrow> node" where
  "check_liveness P now nd =
     (let timed_out = map fst (filter (\<lambda>(_, last). now - last > LIVENESS_TIMEOUT) (nd_peer_last_hb nd))
      in fold (drop_silent_peer P now) timed_out nd)"

text \<open>One round of \<^verbatim>\<open>run_reassembly_gc\<close>.\<close>

definition reassembly_gc :: "instant \<Rightarrow> node \<Rightarrow> node" where
  "reassembly_gc now nd =
     nd\<lparr>nd_reassemblers := hm_retain (\<lambda>_ r. Reassembler_buffer_count r > 0)
          (map (\<lambda>(k, r). (k, Reassembler_expire_stale now r)) (nd_reassemblers nd))\<rparr>"

definition heartbeat_load :: "u64 \<Rightarrow> u64 \<Rightarrow> u8" where
  "heartbeat_load cur_fwd last_fwd =
     (let delta = (if last_fwd \<le> cur_fwd then cur_fwd - last_fwd else 0)
      in ucast (min delta 2000 * 255 div 2000))"

text \<open>
  One round of \<^verbatim>\<open>run_heartbeats\<close>: \<open>last_fwd\<close> is the task's local variable, \<open>timestamp\<close> the wall clock
  in milliseconds. Heartbeats bypass the send buffer.
\<close>

definition send_heartbeats :: "u64 \<Rightarrow> u64 \<Rightarrow> node \<Rightarrow> u64 \<times> node" where
  "send_heartbeats timestamp last_fwd nd =
     (let cur_fwd = nd_packets_forwarded nd;
          gateway_hops = (if nd_is_gateway nd then 0
            else case nearest_gateway (nd_routing nd) of Some (_, hops) \<Rightarrow> hops | None \<Rightarrow> 0xFF);
          hb = \<lparr>hb_sender_id = nd_self_id nd, hb_timestamp = timestamp, hb_gateway_hops = gateway_hops,
                hb_load = heartbeat_load cur_fwd last_fwd,
                hb_gw_x25519_pub = (if nd_is_gateway nd then nd_own_x25519_pub nd else replicate 32 0)\<rparr>;
          frame = plain_frame Heartbeat (HeartbeatFrame_encode hb)
      in (cur_fwd, fold (\<lambda>peer nd. nd\<lparr>nd_transport := snd (transport_send peer frame (nd_transport nd))\<rparr>)
                     (connected_peers (nd_transport nd)) nd))"

definition PENDING_PING_TTL :: duration where "PENDING_PING_TTL = 30"

text \<open>One round of \<^verbatim>\<open>run_gateway_probes\<close>; \<open>nonce i\<close> is the random number of the \<open>i\<close>-th probe.\<close>

definition probe_gateways :: "(nat \<Rightarrow> u64) \<Rightarrow> instant \<Rightarrow> node \<Rightarrow> node" where
  "probe_gateways nonce now nd =
     (let direct_gateways = filter (\<lambda>gw. gw \<in> set (tb_direct_peers (nd_routing nd)))
            (map fst (all_gateways (nd_routing nd)));
          nd = nd\<lparr>nd_pending_pings := hm_retain (\<lambda>_ (_, sent_at). now - sent_at < PENDING_PING_TTL)
                    (nd_pending_pings nd)\<rparr>
      in fold (\<lambda>(i, gw) nd.
             let nd = nd\<lparr>nd_pending_pings := hm_insert (nonce i) (gw, now) (nd_pending_pings nd)\<rparr>
             in send_control now gw (Ping (nonce i)) nd)
           (enumerate 0 direct_gateways) nd)"

end
