(* ===== verification/Event_Loop.thy ===== *)
theory Event_Loop
  imports Daemon_Node
begin

text \<open>
  The event loop of the daemon (\<^verbatim>\<open>pim-daemon/src/app/event_loop.rs\<close>), one definition per branch of the
  code: packets read from the TUN device, and frames received from peers by type. Also the return
  path of a gateway (\<^verbatim>\<open>gateway_tasks.rs\<close>) and the handling of identity broadcasts
  (\<^verbatim>\<open>identity_broadcast.rs\<close>). A handler returns the new state, or nothing when the task panics.
  The randomness an end-to-end encryption draws, and the address the operating system reports for
  the IPv6 uplink, are arguments.
\<close>

section \<open>Packets from the TUN device\<close>

definition gateway_or_peer :: "node \<Rightarrow> (node_id \<times> node_id \<times> u8) option" where
  "gateway_or_peer nd =
     (case nearest_gateway_route (nd_routing nd) of
        Some (gw_id, next_hop) \<Rightarrow> Some (gw_id, next_hop, IS_INTERNET)
      | None \<Rightarrow>
          (case connected_peers (nd_transport nd) of
             [] \<Rightarrow> None
           | peer # _ \<Rightarrow> Some (peer, peer, IS_INTERNET)))"

definition tun_route :: "bytes \<Rightarrow> node \<Rightarrow> (node_id \<times> node_id \<times> u8) option" where
  "tun_route packet nd =
     (case packet_ip_version packet of
        None \<Rightarrow> None
      | Some ip_version \<Rightarrow>
          if ip_version = 4 then
            (if length packet < 20 then None
             else
               let dest_ip = of_be32 [packet ! 16, packet ! 17, packet ! 18, packet ! 19]
               in if dest_ip = nd_mesh_ipv4 nd then None
                  else (case lookup_mesh_ip dest_ip (nd_routing nd) of
                          Some (dst_id, next_hop) \<Rightarrow> Some (dst_id, next_hop, 0)
                        | None \<Rightarrow> gateway_or_peer nd))
          else if ip_version = 6 then gateway_or_peer nd
          else None)"

text \<open>The payload is sealed for the selected gateway when its key is known.\<close>

definition seal_for_gateway ::
  "primitives \<Rightarrow> bytes \<Rightarrow> bytes \<Rightarrow> node_id \<Rightarrow> u8 \<Rightarrow> bytes \<Rightarrow> node \<Rightarrow> u8 \<times> bytes" where
  "seal_for_gateway P esk nonce dst_id flags packet nd =
     (if DataFlags_contains flags IS_INTERNET then
        (case hm_get (nd_gw_x25519_by_id nd) dst_id of
           Some gw_pub \<Rightarrow>
             (case e2e_encrypt (pr_aead P) (pr_x25519 P) (pr_kdf P) esk nonce packet gw_pub of
                Ok enc \<Rightarrow> (flags OR IS_E2E, enc)
              | _ \<Rightarrow> (flags, packet))
         | None \<Rightarrow> (flags, packet))
      else (flags, packet))"

definition handle_tun :: "primitives \<Rightarrow> bytes \<Rightarrow> bytes \<Rightarrow> instant \<Rightarrow> bytes \<Rightarrow> node \<Rightarrow> node" where
  "handle_tun P esk nonce now packet nd =
     (case tun_route packet nd of
        None \<Rightarrow> nd
      | Some (dst_id, next_hop_id, flags) \<Rightarrow>
          (case hm_get (nd_sessions nd) next_hop_id of
             None \<Rightarrow> nd
           | Some _ \<Rightarrow>
               let (flags, payload) = seal_for_gateway P esk nonce dst_id flags packet nd;
                   nd = send_mesh_data P now next_hop_id (nd_self_id nd) dst_id 8 flags payload nd
               in nd\<lparr>nd_packets_forwarded := nd_packets_forwarded nd + 1,
                     nd_bytes_forwarded := nd_bytes_forwarded nd + of_nat (length packet)\<rparr>))"

section \<open>Data frames\<close>

definition count_forwarded :: "bytes \<Rightarrow> node \<Rightarrow> node" where
  "count_forwarded payload nd =
     nd\<lparr>nd_packets_forwarded := nd_packets_forwarded nd + 1,
        nd_bytes_forwarded := nd_bytes_forwarded nd + of_nat (length payload)\<rparr>"

definition count_dropped :: "node \<Rightarrow> node" where
  "count_dropped nd = nd\<lparr>nd_packets_dropped := nd_packets_dropped nd + 1\<rparr>"

definition write_tun :: "bytes \<Rightarrow> node \<Rightarrow> node" where
  "write_tun packet nd = nd\<lparr>nd_tun_out := nd_tun_out nd @ [packet]\<rparr>"

definition link_send :: "bytes \<Rightarrow> node \<Rightarrow> node" where
  "link_send packet nd = nd\<lparr>nd_link_out := nd_link_out nd @ [packet]\<rparr>"

text \<open>\<^verbatim>\<open>dispatch_plugin_payload\<close>: the first plugin that claims the kind gets the payload.\<close>

definition dispatch_plugin_payload :: "node_id \<Rightarrow> bytes \<Rightarrow> bytes \<Rightarrow> node \<Rightarrow> node" where
  "dispatch_plugin_payload src kind body nd =
     (case nd_plugins nd of
        None \<Rightarrow> nd
      | Some plugins \<Rightarrow>
          (case find (\<lambda>(_, kinds). kind \<in> set kinds) (enumerate 0 plugins) of
             Some (i, _) \<Rightarrow> nd\<lparr>nd_plugin_out := nd_plugin_out nd @ [(i, src, kind, body)]\<rparr>
           | None \<Rightarrow> nd))"

definition handle_incoming_peer_info ::
  "instant \<Rightarrow> node_id \<Rightarrow> bytes \<Rightarrow> bytes \<Rightarrow> peer_info_source \<Rightarrow> node \<Rightarrow> node" where
  "handle_incoming_peer_info now src x25519_pub friendly_name source nd =
     (let limited = (source = Routed \<and> nd_min_peer_interval_s nd > 0);
          record_seen = (\<lambda>nd. nd\<lparr>nd_peer_seen := nd_peer_seen nd @
             [(src, x25519_pub, friendly_name, source, source = Direct \<or> nd_watch_incoming nd)]\<rparr>);
          seen = nd\<lparr>nd_broadcast_peer_last_seen := hm_insert src now (nd_broadcast_peer_last_seen nd)\<rparr>
      in if limited then
           (case hm_get (nd_broadcast_peer_last_seen nd) src of
              Some prev \<Rightarrow> if now - prev < nd_min_peer_interval_s nd then nd else record_seen seen
            | None \<Rightarrow> record_seen seen)
         else record_seen nd)"

definition handle_routed_control :: "instant \<Rightarrow> node_id \<Rightarrow> bytes \<Rightarrow> node \<Rightarrow> node" where
  "handle_routed_control now src_id payload nd =
     (case ControlFrame_decode payload of
        Ok (PeerInfo x25519_pub friendly_name, _) \<Rightarrow>
          handle_incoming_peer_info now src_id x25519_pub friendly_name Routed nd
      | Ok (PluginPayload kind body, _) \<Rightarrow> dispatch_plugin_payload src_id kind body nd
      | _ \<Rightarrow> nd)"

definition is_broadcast :: "ipv4 \<Rightarrow> bool" where "is_broadcast ip \<longleftrightarrow> ip = 0xFFFFFFFF"
definition is_multicast :: "ipv4 \<Rightarrow> bool" where "is_multicast ip \<longleftrightarrow> drop_bit 28 ip = 0xE"
definition is_unspecified :: "ipv4 \<Rightarrow> bool" where "is_unspecified ip \<longleftrightarrow> ip = 0"
definition is_loopback :: "ipv4 \<Rightarrow> bool" where "is_loopback ip \<longleftrightarrow> drop_bit 24 ip = 127"
definition is_link_local :: "ipv4 \<Rightarrow> bool" where "is_link_local ip \<longleftrightarrow> drop_bit 16 ip = 0xA9FE"

definition non_unicast :: "ipv4 \<Rightarrow> bool" where
  "non_unicast dst \<longleftrightarrow>
     is_broadcast dst \<or> is_multicast dst \<or> is_unspecified dst \<or> is_loopback dst \<or> is_link_local dst"

definition nat_and_send :: "instant \<Rightarrow> bytes \<Rightarrow> gateway_engine \<Rightarrow> node \<Rightarrow> node option" where
  "nat_and_send now packet gw nd =
     (case translate_outbound now packet gw of
        None \<Rightarrow> None
      | Some (Panic, _) \<Rightarrow> None
      | Some (Err _, gw) \<Rightarrow> Some (nd\<lparr>nd_gw_engine := Some gw\<rparr>)
      | Some (Ok (_, packet), gw) \<Rightarrow> Some (link_send packet (nd\<lparr>nd_gw_engine := Some gw\<rparr>)))"

definition forward_internet_v4 :: "instant \<Rightarrow> bytes \<Rightarrow> node \<Rightarrow> node option" where
  "forward_internet_v4 now packet nd =
     (case nd_gw_engine nd of
        Some gw \<Rightarrow>
          if nd_internet_link nd then
            (case ipv4_destination packet of
               Some dst \<Rightarrow> if non_unicast dst then Some nd else nat_and_send now packet gw nd
             | None \<Rightarrow> nat_and_send now packet gw nd)
          else Some (write_tun packet nd)
      | None \<Rightarrow> Some (write_tun packet nd))"

definition ensure_gateway_ipv6_engine :: "ipv6 option \<Rightarrow> node \<Rightarrow> gateway_engine_v6 option \<times> node" where
  "ensure_gateway_ipv6_engine uplink nd =
     (case nd_gw_engine_v6 nd of
        Some gw \<Rightarrow> (Some gw, nd)
      | None \<Rightarrow>
          (case uplink of
             None \<Rightarrow> (None, nd)
           | Some external_ip \<Rightarrow>
               let gw = GatewayEngineV6_new external_ip
               in (Some gw, nd\<lparr>nd_gw_engine_v6 := Some gw\<rparr>)))"

definition forward_internet_v6 :: "ipv6 option \<Rightarrow> instant \<Rightarrow> node_id \<Rightarrow> bytes \<Rightarrow> node \<Rightarrow> node option" where
  "forward_internet_v6 uplink now src_id packet nd =
     (case ensure_gateway_ipv6_engine uplink nd of
        (None, nd) \<Rightarrow> Some nd
      | (Some gw, nd) \<Rightarrow>
          if nd_internet_link nd then
            (case translate_outbound_v6 now packet src_id gw of
               None \<Rightarrow> None
             | Some (Panic, _) \<Rightarrow> None
             | Some (Err _, gw) \<Rightarrow> Some (nd\<lparr>nd_gw_engine_v6 := Some gw\<rparr>)
             | Some (Ok (_, packet), gw) \<Rightarrow> Some (link_send packet (nd\<lparr>nd_gw_engine_v6 := Some gw\<rparr>)))
          else Some nd)"

text \<open>A ping of the gateway's own mesh address is answered here.\<close>

definition answer_echo :: "primitives \<Rightarrow> instant \<Rightarrow> node_id \<Rightarrow> bytes \<Rightarrow> node \<Rightarrow> node option" where
  "answer_echo P now src_id packet nd =
     (case (icmp_echo_reply packet :: (unit, bytes option) outcome) of
        Ok (Some reply) \<Rightarrow>
          Some (case lookup src_id (nd_routing nd) of
                  Some next_hop \<Rightarrow>
                    (case hm_get (nd_sessions nd) next_hop of
                       Some _ \<Rightarrow> send_mesh_data P now next_hop (nd_self_id nd) src_id 8 0 reply nd
                     | None \<Rightarrow> nd)
                | None \<Rightarrow> nd)
      | Ok None \<Rightarrow> Some nd
      | Err _ \<Rightarrow> Some nd
      | Panic \<Rightarrow> None)"

definition deliver_packet ::
  "primitives \<Rightarrow> ipv6 option \<Rightarrow> instant \<Rightarrow> node_id \<Rightarrow> u8 \<Rightarrow> bytes \<Rightarrow> node \<Rightarrow> node option" where
  "deliver_packet P uplink now src_id flags packet nd =
     (let dst_local = (nd_gw_engine nd \<noteq> None \<and> packet_ip_version packet = Some 4 \<and> length packet \<ge> 20
            \<and> of_be32 [packet ! 16, packet ! 17, packet ! 18, packet ! 19] = nd_mesh_ipv4 nd)
      in if dst_local then answer_echo P now src_id packet nd
         else if DataFlags_contains flags IS_INTERNET then
           (case packet_ip_version packet of
              Some v \<Rightarrow>
                if v = 4 then forward_internet_v4 now packet nd
                else if v = 6 then forward_internet_v6 uplink now src_id packet nd
                else Some nd
            | None \<Rightarrow> Some nd)
         else Some (write_tun packet nd))"

text \<open>A gateway opens what was sealed for it; the buffer is what decryption in place leaves.\<close>

definition open_sealed :: "primitives \<Rightarrow> u8 \<Rightarrow> bytes \<Rightarrow> node \<Rightarrow> bytes option" where
  "open_sealed P flags packet nd =
     (if nd_is_gateway nd \<and> DataFlags_contains flags IS_E2E then
        (case e2e_decrypt_in_place (pr_aead P) (pr_x25519 P) (pr_kdf P) packet (nd_seed nd) of
           (Ok _, packet) \<Rightarrow> Some packet
         | _ \<Rightarrow> None)
      else Some packet)"

definition handle_local ::
  "primitives \<Rightarrow> ipv6 option \<Rightarrow> instant \<Rightarrow> mesh_data_frame \<Rightarrow> node \<Rightarrow> node option" where
  "handle_local P uplink now mesh nd =
     (if DataFlags_contains (mdf_flags mesh) IS_CONTROL
      then Some (handle_routed_control now (mdf_src_id mesh) (mdf_payload mesh) nd)
      else
        (case reassemble_or_deliver now (mdf_src_id mesh) (mdf_flags mesh) (mdf_payload mesh)
                (count_forwarded (mdf_payload mesh) nd) of
           (None, nd) \<Rightarrow> Some nd
         | (Some packet, nd) \<Rightarrow>
             (case open_sealed P (mdf_flags mesh) packet nd of
                None \<Rightarrow> Some nd
              | Some packet \<Rightarrow> deliver_packet P uplink now (mdf_src_id mesh) (mdf_flags mesh) packet nd)))"

definition handle_relay :: "primitives \<Rightarrow> instant \<Rightarrow> mesh_data_frame \<Rightarrow> node \<Rightarrow> node" where
  "handle_relay P now mesh nd =
     (if mdf_ttl mesh = 0 then count_dropped nd
      else (case lookup (mdf_dst_id mesh) (nd_routing nd) of
              None \<Rightarrow> count_dropped nd
            | Some next_hop \<Rightarrow>
                (case hm_get (nd_sessions nd) next_hop of
                   None \<Rightarrow> count_dropped nd
                 | Some _ \<Rightarrow>
                     count_forwarded (mdf_payload mesh)
                       (send_single_mesh P now next_hop (mdf_src_id mesh) (mdf_dst_id mesh)
                          (mdf_ttl mesh - 1) (mdf_flags mesh) (mdf_payload mesh) nd))))"

definition handle_data ::
  "primitives \<Rightarrow> ipv6 option \<Rightarrow> instant \<Rightarrow> node_id \<Rightarrow> transport_frame \<Rightarrow> node \<Rightarrow> node option" where
  "handle_data P uplink now from_peer frame nd =
     (case hm_get (nd_sessions nd) from_peer of
        None \<Rightarrow> Some nd
      | Some session \<Rightarrow>
          let (result, session) = Session_decrypt_frame (pr_aead P) frame session;
              nd = nd\<lparr>nd_sessions := hm_insert from_peer session (nd_sessions nd)\<rparr>
          in case result of
               Ok frame \<Rightarrow>
                 (case MeshDataFrame_decode (tf_payload frame) of
                    Ok (mesh, _) \<Rightarrow>
                      if mdf_dst_id mesh = nd_self_id nd then handle_local P uplink now mesh nd
                      else Some (handle_relay P now mesh nd)
                  | Err _ \<Rightarrow> Some nd
                  | Panic \<Rightarrow> None)
             | Err _ \<Rightarrow> Some nd
             | Panic \<Rightarrow> None)"

section \<open>Route updates, heartbeats, control frames\<close>

definition update_allowed :: "primitives \<Rightarrow> node_id \<Rightarrow> route_update_frame \<Rightarrow> node \<Rightarrow> bool" where
  "update_allowed P from_peer update nd \<longleftrightarrow>
     (case hm_get (nd_peer_pubkeys nd) from_peer of
        Some pk \<Rightarrow> ed_valid_key (pr_ed25519 P) pk \<and> verify_route_update (pr_ed25519 P) pk update
      | None \<Rightarrow> False)"

definition handle_route_update :: "primitives \<Rightarrow> instant \<Rightarrow> node_id \<Rightarrow> transport_frame \<Rightarrow> node \<Rightarrow> node" where
  "handle_route_update P now from_peer frame nd =
     (case RouteUpdateFrame_decode (tf_payload frame) of
        Ok (update, _) \<Rightarrow>
          if update_allowed P from_peer update nd
          then nd\<lparr>nd_routing := snd (apply_update (pr_blake3 P) now update from_peer (nd_routing nd))\<rparr>
          else nd
      | _ \<Rightarrow> nd)"

definition handle_heartbeat :: "instant \<Rightarrow> node_id \<Rightarrow> transport_frame \<Rightarrow> node \<Rightarrow> node" where
  "handle_heartbeat now from_peer frame nd =
     (case HeartbeatFrame_decode (tf_payload frame) of
        Ok (hb, _) \<Rightarrow>
          let nd = nd\<lparr>nd_peer_last_hb := hm_insert from_peer now (nd_peer_last_hb nd)\<rparr>
          in if hb_gateway_hops hb = 0 then
               (let nd = (if hb_gw_x25519_pub hb \<noteq> replicate 32 0
                          then nd\<lparr>nd_gw_x25519_by_id := hm_insert from_peer (hb_gw_x25519_pub hb) (nd_gw_x25519_by_id nd)\<rparr>
                          else nd)
                in nd\<lparr>nd_routing := update_gateway_load from_peer (hb_load hb) (nd_routing nd)\<rparr>)
             else nd
      | _ \<Rightarrow> nd)"

text \<open>The clock is in seconds; \<open>ms\<close> is the measured round trip in milliseconds, cut to 32 bits.\<close>

definition handle_control ::
  "primitives \<Rightarrow> instant \<Rightarrow> (instant \<Rightarrow> u32) \<Rightarrow> node_id \<Rightarrow> transport_frame \<Rightarrow> node \<Rightarrow> node" where
  "handle_control P now ms from_peer frame nd =
     (case ControlFrame_decode (tf_payload frame) of
        Ok (cf, _) \<Rightarrow>
          (case cf of
             Goodbye departing_id _ \<Rightarrow> daemon_remove_peer P now departing_id nd
           | Ping nonce \<Rightarrow> send_control now from_peer (Pong nonce) nd
           | Pong nonce \<Rightarrow>
               (case hm_get (nd_pending_pings nd) nonce of
                  Some (gw_id, sent_at) \<Rightarrow>
                    nd\<lparr>nd_pending_pings := hm_remove nonce (nd_pending_pings nd),
                       nd_routing := update_gateway_rtt gw_id (ms sent_at) (nd_routing nd),
                       nd_reputation := record_success gw_id (nd_reputation nd)\<rparr>
                | None \<Rightarrow> nd)
           | Rekey \<Rightarrow> nd
           | PeerInfo x25519_pub friendly_name \<Rightarrow>
               handle_incoming_peer_info now from_peer x25519_pub friendly_name Direct nd
           | PluginPayload kind body \<Rightarrow> dispatch_plugin_payload from_peer kind body nd)
      | _ \<Rightarrow> nd)"

section \<open>Handshake frames\<close>

text \<open>The order of byte arrays.\<close>

fun bytes_less :: "bytes \<Rightarrow> bytes \<Rightarrow> bool" where
  "bytes_less [] ys \<longleftrightarrow> ys \<noteq> []"
| "bytes_less (x # xs) [] \<longleftrightarrow> False"
| "bytes_less (x # xs) (y # ys) \<longleftrightarrow> x < y \<or> x = y \<and> bytes_less xs ys"

definition decode_handshake_wire :: "transport_frame \<Rightarrow> handshake_wire_frame option" where
  "decode_handshake_wire frame =
     (if tf_frame_type frame \<noteq> Handshake then None
      else (case HandshakeWireFrame_decode (tf_payload frame) of Ok (w, _) \<Rightarrow> Some w | _ \<Rightarrow> None))"

definition spawn_responder :: "node_id \<Rightarrow> handshake_wire_frame \<Rightarrow> node \<Rightarrow> node" where
  "spawn_responder from_peer wire nd =
     nd\<lparr>nd_hs_channels := hm_insert from_peer [] (nd_hs_channels nd),
        nd_responders := nd_responders nd @ [(from_peer, wire)]\<rparr>"

text \<open>
  Two nodes that dial each other at the same time: the side with the larger id gives up its own
  attempt, the other side drops the incoming one.
\<close>

definition resolve_simultaneous ::
  "primitives \<Rightarrow> node_id \<Rightarrow> bytes \<Rightarrow> handshake_wire_frame \<Rightarrow> node \<Rightarrow> node" where
  "resolve_simultaneous P from_peer sender_pub wire nd =
     (case peer_addr from_peer (nd_transport nd) of
        None \<Rightarrow> spawn_responder from_peer wire nd
      | Some addr \<Rightarrow>
          (case hm_get (nd_pending_outbound nd) (addr_ip addr) of
             None \<Rightarrow> spawn_responder from_peer wire nd
           | Some pending \<Rightarrow>
               if po_transport_key pending \<noteq> from_peer then
                 (if bytes_less (as_bytes (peer_identity P sender_pub)) (as_bytes (nd_self_id nd))
                  then spawn_responder from_peer wire (snd (cancel_pending_outbound_for_ip (addr_ip addr) nd))
                  else node_disconnect from_peer nd)
               else spawn_responder from_peer wire nd))"

definition handle_handshake :: "primitives \<Rightarrow> node_id \<Rightarrow> transport_frame \<Rightarrow> node \<Rightarrow> node" where
  "handle_handshake P from_peer frame nd =
     (case decode_handshake_wire frame of
        None \<Rightarrow> nd
      | Some wire \<Rightarrow>
          (case hm_get (nd_hs_channels nd) from_peer of
             Some queue \<Rightarrow> nd\<lparr>nd_hs_channels := hm_insert from_peer (queue @ [wire]) (nd_hs_channels nd)\<rparr>
           | None \<Rightarrow>
               (case wire of
                  InitOrResponse Init sender_pub _ _ _ \<Rightarrow> resolve_simultaneous P from_peer sender_pub wire nd
                | _ \<Rightarrow> nd)))"

section \<open>The loop\<close>

definition handle_frame ::
  "primitives \<Rightarrow> ipv6 option \<Rightarrow> instant \<Rightarrow> (instant \<Rightarrow> u32) \<Rightarrow> node_id \<Rightarrow> transport_frame \<Rightarrow> node \<Rightarrow> node option" where
  "handle_frame P uplink now ms from_peer frame nd =
     (let (ok, rl) = allow (real now) from_peer (nd_rate_limiter nd);
          nd = nd\<lparr>nd_rate_limiter := rl\<rparr>
      in if \<not> ok then Some (count_dropped nd)
         else (case tf_frame_type frame of
                 Handshake \<Rightarrow> Some (handle_handshake P from_peer frame nd)
               | Data \<Rightarrow> handle_data P uplink now from_peer frame nd
               | RouteUpdate \<Rightarrow> Some (handle_route_update P now from_peer frame nd)
               | Heartbeat \<Rightarrow> Some (handle_heartbeat now from_peer frame nd)
               | Control \<Rightarrow> Some (handle_control P now ms from_peer frame nd)
               | Fragment \<Rightarrow> Some nd))"

text \<open>
  One packet from the uplink in \<^verbatim>\<open>run_gateway_return\<close>. The task reads the IPv6 engine of the node
  once, when it starts: \<open>had_v6\<close> tells whether there was one then.
\<close>

definition send_return :: "primitives \<Rightarrow> instant \<Rightarrow> node_id \<Rightarrow> node_id \<Rightarrow> bytes \<Rightarrow> node \<Rightarrow> node" where
  "send_return P now dst_id next_hop packet nd =
     (case hm_get (nd_sessions nd) next_hop of
        Some _ \<Rightarrow> send_mesh_data P now next_hop (nd_self_id nd) dst_id 8 IS_INTERNET packet nd
      | None \<Rightarrow> nd)"

definition handle_return_v4 :: "primitives \<Rightarrow> instant \<Rightarrow> bytes \<Rightarrow> gateway_engine \<Rightarrow> node \<Rightarrow> node option" where
  "handle_return_v4 P now packet gw nd =
     (case translate_inbound now packet gw of
        (Panic, _) \<Rightarrow> None
      | (Err _, gw) \<Rightarrow> Some (nd\<lparr>nd_gw_engine := Some gw\<rparr>)
      | (Ok (dest_ip, packet), gw) \<Rightarrow>
          let nd = nd\<lparr>nd_gw_engine := Some gw\<rparr>
          in case lookup_mesh_ip dest_ip (nd_routing nd) of
               Some (dst_id, next_hop) \<Rightarrow> Some (send_return P now dst_id next_hop packet nd)
             | None \<Rightarrow> Some nd)"

definition handle_return_v6 :: "primitives \<Rightarrow> instant \<Rightarrow> bytes \<Rightarrow> gateway_engine_v6 \<Rightarrow> node \<Rightarrow> node option" where
  "handle_return_v6 P now packet gw nd =
     (case translate_inbound_v6 now packet gw of
        (Panic, _) \<Rightarrow> None
      | (Err _, gw) \<Rightarrow> Some (nd\<lparr>nd_gw_engine_v6 := Some gw\<rparr>)
      | (Ok (dst_id, packet), gw) \<Rightarrow>
          let nd = nd\<lparr>nd_gw_engine_v6 := Some gw\<rparr>
          in case lookup dst_id (nd_routing nd) of
               Some next_hop \<Rightarrow> Some (send_return P now dst_id next_hop packet nd)
             | None \<Rightarrow> Some nd)"

definition handle_return :: "primitives \<Rightarrow> bool \<Rightarrow> instant \<Rightarrow> bytes \<Rightarrow> node \<Rightarrow> node option" where
  "handle_return P had_v6 now packet nd =
     (case packet_ip_version packet of
        None \<Rightarrow> Some nd
      | Some version \<Rightarrow>
          if version = 4 then
            (case nd_gw_engine nd of
               Some gw \<Rightarrow> if length packet < 20 then Some nd else handle_return_v4 P now packet gw nd
             | None \<Rightarrow> Some nd)
          else if version = 6 then
            (case (if had_v6 then nd_gw_engine_v6 nd else None) of
               Some gw \<Rightarrow> handle_return_v6 P now packet gw nd
             | None \<Rightarrow> Some nd)
          else Some nd)"

text \<open>The farewell when the loop ends.\<close>

definition shut_down :: "instant \<Rightarrow> node \<Rightarrow> node" where
  "shut_down now nd =
     (let peers = connected_peers (nd_transport nd);
          nd = fold (\<lambda>peer. send_control now peer (Goodbye (nd_self_id nd) 0)) peers nd
      in fold node_disconnect peers nd)"

end
