(* ===== verification/Session_Setup.thy ===== *)
theory Session_Setup
  imports Event_Loop
begin

text \<open>
  The tasks that set up sessions: the two sides of the daemon handshake, cut at the points where they
  wait for a frame, the connection attempts with their retries, and the periodic identity broadcast.
  What other tasks do while one of them waits is an argument.
\<close>

section \<open>The two sides of the handshake\<close>

definition send_handshake :: "node_id \<Rightarrow> handshake_wire_frame \<Rightarrow> node \<Rightarrow> transport_error option \<times> node" where
  "send_handshake peer wire nd =
     (let (err, tt) = transport_send peer (plain_frame Handshake (HandshakeWireFrame_encode wire)) (nd_transport nd)
      in (err, nd\<lparr>nd_transport := tt\<rparr>))"

definition hello_frame :: "handshake_frame_type \<Rightarrow> handshake_hello \<Rightarrow> handshake_wire_frame" where
  "hello_frame ty m = InitOrResponse ty (hh_sender_pub m) (hh_ephemeral_pub m) (hh_nonce m) (hh_signature m)"

definition node_handshaker :: "primitives \<Rightarrow> node \<Rightarrow> handshaker" where
  "node_handshaker P nd =
     (let hs = Handshaker_new (pr_ed25519 P) (nd_seed nd)
      in case nd_mesh_handshake_key nd of Some key \<Rightarrow> with_mesh_handshake_key key hs | None \<Rightarrow> hs)"

text \<open>\<open>persist_ok\<close> tells whether a changed trust store can be written.\<close>

definition node_authorize :: "bool \<Rightarrow> node_id \<Rightarrow> node \<Rightarrow> bool \<times> node" where
  "node_authorize persist_ok peer nd =
     (let (decision, am) = authorize_authenticated_peer persist_ok peer (nd_authorization nd)
      in (decision = Some Allowed \<or> decision = Some TrustedOnFirstUse, nd\<lparr>nd_authorization := am\<rparr>))"

definition node_flush_buffer :: "instant \<Rightarrow> node_id \<Rightarrow> node \<Rightarrow> node" where
  "node_flush_buffer now peer nd =
     (let (buffered, sb) = SendBuffer_drain now peer (ss_buffer (nd_send nd));
          nd = nd\<lparr>nd_send := (nd_send nd)\<lparr>ss_buffer := sb\<rparr>\<rparr>
      in fold (\<lambda>frame nd. nd\<lparr>nd_transport := snd (transport_send peer frame (nd_transport nd))\<rparr>) buffered nd)"

definition send_peer_info :: "instant \<Rightarrow> node_id \<Rightarrow> node \<Rightarrow> node" where
  "send_peer_info now peer nd = send_control now peer (PeerInfo (nd_own_x25519_pub nd) (nd_node_name nd)) nd"

text \<open>What both sides do once the handshake is complete.\<close>

definition establish_session :: "primitives \<Rightarrow> instant \<Rightarrow> node_id \<Rightarrow> bytes \<Rightarrow> session \<Rightarrow> node \<Rightarrow> node" where
  "establish_session P now peer sender_pub session nd =
     (let nd = nd\<lparr>nd_sessions := hm_insert peer session (nd_sessions nd),
                  nd_peer_pubkeys := hm_insert peer sender_pub (nd_peer_pubkeys nd),
                  nd_routing := unblacklist_peer peer (add_peer (pr_blake3 P) now peer (nd_routing nd)),
                  nd_reputation := pardon peer (nd_reputation nd),
                  nd_peer_last_hb := hm_insert peer now (nd_peer_last_hb nd)\<rparr>
      in send_peer_info now peer (node_flush_buffer now peer nd))"

definition initiator_start ::
  "primitives \<Rightarrow> bytes \<Rightarrow> bytes \<Rightarrow> node_id \<Rightarrow> node \<Rightarrow> handshaker option \<times> node" where
  "initiator_start P esk nonce transport_key nd =
     (let (init, hs) = initiate (pr_ed25519 P) (pr_x25519 P) esk nonce (node_handshaker P nd);
          (err, nd) = send_handshake transport_key (hello_frame Init init) nd
      in (if err = None then Some hs else None, nd))"

text \<open>
  \<open>wire\<close> is the next frame of the channel, or nothing when it is closed or ten seconds have passed. The
  transcript of the handshaker has 96 bytes here, so the slice that finalising takes of it exists.
\<close>

definition initiator_finish ::
  "primitives \<Rightarrow> bool \<Rightarrow> instant \<Rightarrow> node_id \<Rightarrow> handshaker \<Rightarrow> handshake_wire_frame option \<Rightarrow> node
     \<Rightarrow> node_id option \<times> node" where
  "initiator_finish P persist_ok now transport_key hs wire nd =
     (case wire of
        Some (InitOrResponse Response sender_pub ephemeral_pub nonce signature) \<Rightarrow>
          let response = \<lparr>hh_sender_pub = sender_pub, hh_ephemeral_pub = ephemeral_pub, hh_nonce = nonce,
                          hh_signature = signature\<rparr>;
              peer_id = peer_identity P sender_pub;
              (authorized, nd) = node_authorize persist_ok peer_id nd
          in if \<not> authorized then (None, nd)
             else (case finalize_initiator (pr_ed25519 P) (pr_x25519 P) (pr_kdf P) response hs of
                     Ok hs \<Rightarrow>
                       (case make_confirm (pr_kdf P) hs of
                          Ok mac \<Rightarrow>
                            let (err, nd) = send_handshake transport_key (ConfirmFrame mac) nd
                            in if err \<noteq> None then (None, nd)
                               else (case hs_session_key hs of
                                       None \<Rightarrow> (None, nd)
                                     | Some key \<Rightarrow>
                                         let nd = (if transport_key \<noteq> peer_id
                                               then nd\<lparr>nd_transport := rename_peer transport_key peer_id (nd_transport nd)\<rparr>
                                               else nd)
                                         in (Some peer_id, establish_session P now peer_id sender_pub (session_for key True peer_id) nd))
                        | _ \<Rightarrow> (None, nd))
                   | _ \<Rightarrow> (None, nd))
      | _ \<Rightarrow> (None, nd))"

definition responder_start ::
  "primitives \<Rightarrow> bool \<Rightarrow> bytes \<Rightarrow> bytes \<Rightarrow> node_id \<Rightarrow> handshake_wire_frame \<Rightarrow> node
     \<Rightarrow> (handshaker \<times> bytes) option \<times> node" where
  "responder_start P persist_ok esk nonce peer_id init_wire nd =
     (case init_wire of
        InitOrResponse Init sender_pub ephemeral_pub init_nonce signature \<Rightarrow>
          let init = \<lparr>hh_sender_pub = sender_pub, hh_ephemeral_pub = ephemeral_pub, hh_nonce = init_nonce,
                      hh_signature = signature\<rparr>;
              hs = node_handshaker P nd;
              (authorized, nd) = node_authorize persist_ok (peer_identity P sender_pub) nd
          in if \<not> authorized then (None, nd)
             else (case respond (pr_ed25519 P) (pr_x25519 P) (pr_kdf P) esk nonce init hs of
                     Ok (response, hs) \<Rightarrow>
                       let (err, nd) = send_handshake peer_id (hello_frame Response response) nd
                       in (if err = None then Some (hs, sender_pub) else None, nd)
                   | _ \<Rightarrow> (None, nd))
      | _ \<Rightarrow> (None, nd))"

text \<open>The end of the responder, and of the task the event loop spawned for it: the channel is removed.\<close>

definition responder_finish ::
  "primitives \<Rightarrow> instant \<Rightarrow> node_id \<Rightarrow> handshaker \<Rightarrow> bytes \<Rightarrow> handshake_wire_frame option \<Rightarrow> node \<Rightarrow> bool \<times> node" where
  "responder_finish P now peer_id hs sender_pub wire nd =
     (case wire of
        Some (ConfirmFrame mac) \<Rightarrow>
          (case verify_confirm (pr_kdf P) mac hs of
             Ok _ \<Rightarrow>
               (case hs_session_key hs of
                  None \<Rightarrow> (False, nd)
                | Some key \<Rightarrow>
                    (True, establish_session P now peer_id sender_pub (session_for key False peer_id) nd))
           | _ \<Rightarrow> (False, nd))
      | _ \<Rightarrow> (False, nd))"

definition responder_end :: "node_id \<Rightarrow> node \<Rightarrow> node" where
  "responder_end peer_id nd = nd\<lparr>nd_hs_channels := hm_remove peer_id (nd_hs_channels nd)\<rparr>"

section \<open>Connection attempts\<close>

text \<open>\<^verbatim>\<open>transport.connect\<close> with its outcome: the timeout and a refused connection are one failure.\<close>

definition node_connect :: "bool \<Rightarrow> node_id \<Rightarrow> socket_addr \<Rightarrow> node \<Rightarrow> node" where
  "node_connect ok key addr nd =
     (if ok then
        (let tt = register_peer key addr (nd_transport nd)
         in nd\<lparr>nd_transport := store_writer (length (tt_conns (nd_transport nd)), key) tt\<rparr>)
      else nd)"

definition open_channel :: "node_id \<Rightarrow> node \<Rightarrow> node" where
  "open_channel key nd = nd\<lparr>nd_hs_channels := hm_insert key [] (nd_hs_channels nd)\<rparr>"

definition close_channel :: "node_id \<Rightarrow> node \<Rightarrow> node" where
  "close_channel key nd = nd\<lparr>nd_hs_channels := hm_remove key (nd_hs_channels nd)\<rparr>"

definition node_end_reconnect :: "connect_target \<Rightarrow> node \<Rightarrow> node" where
  "node_end_reconnect target nd = nd\<lparr>nd_reconnect := end_reconnect target (nd_reconnect nd)\<rparr>"

definition start_reconnect :: "connect_target \<Rightarrow> node \<Rightarrow> node" where
  "start_reconnect target nd =
     (let (started, rm) = begin_reconnect target (nd_reconnect nd);
          nd = nd\<lparr>nd_reconnect := rm\<rparr>
      in if started then nd\<lparr>nd_reconnect_tasks := nd_reconnect_tasks nd @ [target]\<rparr> else nd)"

text \<open>
  What one attempt meets: whether the daemon is shut down during the delay, the random key and secrets,
  whether the connection is made, the frame that comes back, and what the other tasks do meanwhile.
\<close>

record attempt =
  at_cancelled :: bool
  at_key :: node_id
  at_connected :: bool
  at_esk :: bytes
  at_nonce :: bytes
  at_wire :: "handshake_wire_frame option"
  at_persist_ok :: bool
  at_now :: instant
  at_sleeping :: "node \<Rightarrow> node"
  at_connecting :: "node \<Rightarrow> node"
  at_waiting :: "node \<Rightarrow> node"

definition attempt_handshake :: "primitives \<Rightarrow> attempt \<Rightarrow> node \<Rightarrow> node_id option \<times> node" where
  "attempt_handshake P a nd =
     (case initiator_start P (at_esk a) (at_nonce a) (at_key a) nd of
        (None, nd) \<Rightarrow> (None, nd)
      | (Some hs, nd) \<Rightarrow>
          initiator_finish P (at_persist_ok a) (at_now a) (at_key a) hs (at_wire a) (at_waiting a nd))"

definition initiate_peer_connection :: "primitives \<Rightarrow> connect_target \<Rightarrow> attempt \<Rightarrow> node \<Rightarrow> node" where
  "initiate_peer_connection P target a nd =
     (let nd = at_connecting a (register_pending_outbound target (at_key a) nd)
      in if \<not> at_connected a then start_reconnect target (clear_pending_outbound target (at_key a) nd)
         else
           (case attempt_handshake P a (open_channel (at_key a) (node_connect True (at_key a) (ConnectTarget_addr target) nd)) of
              (Some peer_id, nd) \<Rightarrow>
                let nd = clear_pending_outbound target (at_key a) nd;
                    nd = nd\<lparr>nd_reconnect := reconnect_register peer_id target (nd_reconnect nd)\<rparr>
                in close_channel (at_key a) nd
            | (None, nd) \<Rightarrow>
                let nd = clear_pending_outbound target (at_key a) nd;
                    (cancelled, nd) = take_cancelled_outbound (at_key a) nd
                in if cancelled then close_channel (at_key a) nd
                   else close_channel (at_key a) (start_reconnect target (node_disconnect (at_key a) nd))))"

text \<open>The body of the reconnect loop: \<open>True\<close> when the task returns.\<close>

definition reconnect_attempt :: "primitives \<Rightarrow> connect_target \<Rightarrow> attempt \<Rightarrow> node \<Rightarrow> bool \<times> node" where
  "reconnect_attempt P target a nd =
     (let nd = at_sleeping a nd
      in if at_cancelled a then (True, node_end_reconnect target nd)
         else if (case peer_id_for_target target (nd_reconnect nd) of
                    Some peer \<Rightarrow> hm_get (nd_sessions nd) peer \<noteq> None | None \<Rightarrow> False)
         then (True, node_end_reconnect target nd)
         else
           let nd = at_connecting a (register_pending_outbound target (at_key a) nd)
           in if \<not> at_connected a then (False, clear_pending_outbound target (at_key a) nd)
              else
                (case attempt_handshake P a (open_channel (at_key a) (node_connect True (at_key a) (ConnectTarget_addr target) nd)) of
                   (Some peer_id, nd) \<Rightarrow>
                     let nd = clear_pending_outbound target (at_key a) nd;
                         nd = nd\<lparr>nd_reconnect := reconnect_register peer_id target (nd_reconnect nd)\<rparr>
                     in (True, node_end_reconnect target (close_channel (at_key a) nd))
                 | (None, nd) \<Rightarrow>
                     let nd = clear_pending_outbound target (at_key a) nd;
                         (cancelled, nd) = take_cancelled_outbound (at_key a) nd
                     in if cancelled then (True, node_end_reconnect target nd)
                        else (False, node_disconnect (at_key a) (close_channel (at_key a) nd))))"

function run_reconnect_task ::
  "primitives \<Rightarrow> u32 \<Rightarrow> connect_target \<Rightarrow> (u32 \<Rightarrow> attempt) \<Rightarrow> u32 \<Rightarrow> node \<Rightarrow> node" where
  "run_reconnect_task P max_attempts target env attempt nd =
     (if attempt \<ge> max_attempts then node_end_reconnect target nd
      else (case reconnect_attempt P target (env attempt) nd of
              (True, nd) \<Rightarrow> nd
            | (False, nd) \<Rightarrow> run_reconnect_task P max_attempts target env (attempt + 1) nd))"
  by pat_completeness auto

lemma unat_plus_one_less:
  fixes a b :: "'a::len word"
  assumes "a < b"
  shows "unat (a + 1) = Suc (unat a)"
proof -
  have "unat a < unat b" using assms by (simp add: word_less_nat_alt)
  moreover have "unat b < 2 ^ LENGTH('a)" by (rule unsigned_less)
  ultimately have "Suc (unat a) < 2 ^ LENGTH('a)" by linarith
  then show ?thesis by (simp add: unat_word_ariths)
qed

termination run_reconnect_task
  by (relation "measure (\<lambda>(_, max_attempts, _, _, attempt, _). unat max_attempts - unat attempt)")
    (simp_all add: not_le unat_plus_one_less word_less_nat_alt [symmetric] diff_less_mono2 unat_mono)

section \<open>Identity broadcast\<close>

definition send_peer_info_routed :: "primitives \<Rightarrow> instant \<Rightarrow> node_id \<Rightarrow> node \<Rightarrow> node" where
  "send_peer_info_routed P now peer nd =
     snd (send_routed_control P now peer (PeerInfo (nd_own_x25519_pub nd) (nd_node_name nd)) nd)"

definition run_broadcast_cycle :: "primitives \<Rightarrow> instant \<Rightarrow> node \<Rightarrow> nat \<times> node" where
  "run_broadcast_cycle P now nd =
     (let snapshot = filter (\<lambda>i. i \<noteq> nd_self_id nd) (map fst (routes_snapshot (nd_routing nd)))
      in (length snapshot, fold (send_peer_info_routed P now) snapshot nd))"

end
