(* ===== verification/Mesh_Delivery.thy ===== *)
theory Mesh_Delivery
  imports Event_Loop
begin

text \<open>
  What the components give together: data that a node puts into the mesh arrives at its destination.
  A hop is a pair of sessions of two nodes that share a key, and a connection with room in its
  queue. The frames a node puts on a connection carry mesh frames for the session at the other end;
  a relay turns frames that carry some mesh frames into frames that carry the same mesh frames with
  one less to live.
\<close>

section \<open>One end of a session to the other\<close>

text \<open>Sealing succeeds for every message the daemon can build (AES-GCM takes up to 64 GiB).\<close>

definition aead_seals :: "aead \<Rightarrow> bool" where
  "aead_seals A \<longleftrightarrow> (\<forall>k n ad p. length p < 2 ^ 36 \<longrightarrow> ae_seal A k n ad p \<noteq> None)"

text \<open>\<open>r\<close> accepts what \<open>s\<close> sends next.\<close>

definition paired :: "session \<Rightarrow> session \<Rightarrow> bool" where
  "paired s r \<longleftrightarrow> sc_key (se_send s) = sc_key (se_recv r) \<and> length (sc_nonce_prefix (se_send s)) = 8
     \<and> (sc_last_recv_counter (se_recv r) = - 1 \<or> sc_last_recv_counter (se_recv r) < ucast (sc_counter (se_send s)))"

lemma encrypt_then_decrypt:
  assumes A: "aead_correct A" "aead_seals A" and "length p < 2 ^ 36" "sc_counter (se_send s) < MAX_NONCE_COUNTER" "paired s r"
  shows "\<exists>f s' r'. Session_encrypt_frame A p s = (Ok f, s') \<and> tf_frame_type f = Data
    \<and> Session_decrypt_frame A f r = (Ok (f\<lparr>tf_payload := p\<rparr>), r') \<and> paired s' r'
    \<and> sc_counter (se_send s') = sc_counter (se_send s) + 1 \<and> se_peer_id s' = se_peer_id s"
proof -
  let ?c = "sc_counter (se_send s)" and ?n = "build_nonce (se_send s) (sc_counter (se_send s))"
  obtain ct tag where seal: "ae_seal A (sc_key (se_send s)) ?n [] p = Some (ct, tag)"
    using A(2) assms(3) unfolding aead_seals_def by (metis option.exhaust surj_pair)
  have open': "ae_open A (sc_key (se_recv r)) ?n [] ct tag = Some p"
    using A(1) seal assms(5) by (metis aead_correct_def paired_def)
  have cnt: "nonce_counter ?n = Ok (ucast ?c)"
    using assms(5) by (simp add: nonce_counter_def build_nonce_def paired_def)
  let ?s' = "s\<lparr>se_send := (se_send s)\<lparr>sc_counter := ?c + 1\<rparr>\<rparr>"
  let ?r' = "r\<lparr>se_recv := (se_recv r)\<lparr>sc_last_recv_counter := ucast ?c\<rparr>\<rparr>"
  let ?f = "\<lparr>tf_frame_type = Data, tf_nonce = ?n, tf_payload = ct, tf_tag = tag\<rparr>"
  have "Session_encrypt_frame A p s = (Ok ?f, ?s')"
    using seal assms(4) by (simp add: Session_encrypt_frame_def encrypt_in_place_detached_def Let_def)
  moreover have "Session_decrypt_frame A ?f r = (Ok (?f\<lparr>tf_payload := p\<rparr>), ?r')"
    using open' cnt assms(5)
    by (auto simp: Session_decrypt_frame_def decrypt_in_place_detached_def Let_def paired_def)
  moreover have "paired ?s' ?r'"
  proof -
    have "unat (?c + 1) = Suc (unat ?c)"
      using assms(4) by (simp add: MAX_NONCE_COUNTER_def word_less_nat_alt unat_word_ariths)
    then have "(ucast ?c :: u64) < ucast (?c + 1)" by (simp add: word_less_nat_alt)
    with assms(5) show ?thesis by (simp add: paired_def)
  qed
  ultimately show ?thesis
    by (intro exI [of _ ?f] exI [of _ ?s'] exI [of _ ?r']) simp
qed

section \<open>Putting mesh frames on a connection\<close>

abbreviation conn_of :: "node \<Rightarrow> conn \<Rightarrow> connection" where
  "conn_of nd c \<equiv> tt_conns (nd_transport nd) ! c"

definition link_room :: "node \<Rightarrow> node_id \<Rightarrow> conn \<Rightarrow> nat \<Rightarrow> bool" where
  "link_room nd hop c n \<longleftrightarrow> hm_get (tt_peers (nd_transport nd)) hop = Some c
     \<and> c < length (tt_conns (nd_transport nd)) \<and> cn_open (conn_of nd c)
     \<and> length (cn_queue (conn_of nd c)) + n \<le> WRITE_QUEUE"

definition sent_on :: "node \<Rightarrow> conn \<Rightarrow> transport_frame list" where
  "sent_on nd c = cn_sent (conn_of nd c)"

text \<open>Sending touches the transport and the session it uses, and nothing else.\<close>

definition sends_only :: "node_id \<Rightarrow> node \<Rightarrow> node \<Rightarrow> bool" where
  "sends_only hop nd nd' \<longleftrightarrow>
     (\<exists>tt ss. nd' = nd\<lparr>nd_transport := tt, nd_sessions := ss\<rparr>
        \<and> (\<forall>k. k \<noteq> hop \<longrightarrow> hm_get ss k = hm_get (nd_sessions nd) k))"

lemma sends_onlyI:
  "nd' = nd\<lparr>nd_transport := tt, nd_sessions := ss\<rparr> \<Longrightarrow> (\<And>k. k \<noteq> hop \<Longrightarrow> hm_get ss k = hm_get (nd_sessions nd) k) \<Longrightarrow>
   sends_only hop nd nd'"
  unfolding sends_only_def by blast

lemma sends_only_refl [simp]: "sends_only hop nd nd"
  by (rule sends_onlyI [where tt = "nd_transport nd" and ss = "nd_sessions nd"]) simp_all

lemma sends_only_trans:
  assumes "sends_only hop a b" "sends_only hop b c"
  shows "sends_only hop a c"
proof -
  obtain tt ss where b: "b = a\<lparr>nd_transport := tt, nd_sessions := ss\<rparr>" "\<And>k. k \<noteq> hop \<Longrightarrow> hm_get ss k = hm_get (nd_sessions a) k"
    using assms(1) unfolding sends_only_def by blast
  obtain tt' ss' where "c = b\<lparr>nd_transport := tt', nd_sessions := ss'\<rparr>" "\<And>k. k \<noteq> hop \<Longrightarrow> hm_get ss' k = hm_get (nd_sessions b) k"
    using assms(2) unfolding sends_only_def by blast
  with b show ?thesis by (intro sends_onlyI [where tt = tt' and ss = ss']) simp_all
qed

lemma sends_only_fields:
  assumes "sends_only hop nd nd'"
  shows "nd_routing nd' = nd_routing nd" "nd_self_id nd' = nd_self_id nd" "nd_tun_out nd' = nd_tun_out nd"
    "nd_link_out nd' = nd_link_out nd" "nd_reassemblers nd' = nd_reassemblers nd" "nd_gw_engine nd' = nd_gw_engine nd"
    "nd_is_gateway nd' = nd_is_gateway nd" "nd_internet_link nd' = nd_internet_link nd"
    "nd_mesh_ipv4 nd' = nd_mesh_ipv4 nd" "nd_seed nd' = nd_seed nd" "nd_frag_id nd' = nd_frag_id nd"
    "k \<noteq> hop \<Longrightarrow> hm_get (nd_sessions nd') k = hm_get (nd_sessions nd) k"
  using assms unfolding sends_only_def by auto

lemma node_send_accepted:
  assumes "link_room nd hop c (Suc n)"
  shows "sends_only h nd (node_send now hop f nd)" "sent_on (node_send now hop f nd) c = sent_on nd c @ [f]"
    "link_room (node_send now hop f nd) hop c n" "nd_sessions (node_send now hop f nd) = nd_sessions nd"
proof -
  let ?tt = "upd_conn c (\<lambda>cn. cn\<lparr>cn_queue := cn_queue cn @ [TcpTransport_wire f], cn_sent := cn_sent cn @ [f]\<rparr>) (nd_transport nd)"
  have "transport_send hop f (nd_transport nd) = (None, ?tt)"
    using assms by (auto simp: link_room_def transport_send_def Let_def)
  then have eq: "node_send now hop f nd = nd\<lparr>nd_transport := ?tt\<rparr>"
    by (simp add: node_send_def send_frame_buffered_def Let_def)
  show "sends_only h nd (node_send now hop f nd)" "nd_sessions (node_send now hop f nd) = nd_sessions nd"
    by (simp_all add: eq sends_onlyI [where tt = ?tt and ss = "nd_sessions nd"])
  show "sent_on (node_send now hop f nd) c = sent_on nd c @ [f]" "link_room (node_send now hop f nd) hop c n"
    using assms by (simp_all add: eq sent_on_def link_room_def)
qed

text \<open>\<open>fs\<close> carry the mesh frames \<open>ms\<close> for the receiving session \<open>r\<close>.\<close>

fun carries :: "aead \<Rightarrow> session \<Rightarrow> transport_frame list \<Rightarrow> mesh_data_frame list \<Rightarrow> bool" where
  "carries A r [] ms \<longleftrightarrow> ms = []"
| "carries A r (f # fs) ms \<longleftrightarrow>
     (\<exists>m ms' r' f'. ms = m # ms' \<and> tf_frame_type f = Data \<and> Session_decrypt_frame A f r = (Ok f', r')
        \<and> MeshDataFrame_decode (tf_payload f') = Ok (m, []) \<and> carries A r' fs ms')"

definition crypto_ok :: "primitives \<Rightarrow> bool" where
  "crypto_ok P \<longleftrightarrow> aead_correct (pr_aead P) \<and> aead_seals (pr_aead P)"

abbreviation send_mesh :: "primitives \<Rightarrow> instant \<Rightarrow> node_id \<Rightarrow> mesh_data_frame \<Rightarrow> node \<Rightarrow> node" where
  "send_mesh P now hop m \<equiv>
     send_single_mesh P now hop (mdf_src_id m) (mdf_dst_id m) (mdf_ttl m) (mdf_flags m) (mdf_payload m)"

definition sendable :: "mesh_data_frame \<Rightarrow> bool" where
  "sendable m \<longleftrightarrow> wf_mesh_data_frame m \<and> mdf_session_id m = 0"

lemma send_one_mesh:
  assumes "crypto_ok P" "sendable m" "hm_get (nd_sessions nd) hop = Some s" "se_peer_id s = hop"
    and "sc_counter (se_send s) < MAX_NONCE_COUNTER" "paired s r" "link_room nd hop c (Suc n)"
  shows "\<exists>f f' s' r'. sends_only hop nd (send_mesh P now hop m nd)
    \<and> sent_on (send_mesh P now hop m nd) c = sent_on nd c @ [f] \<and> link_room (send_mesh P now hop m nd) hop c n
    \<and> hm_get (nd_sessions (send_mesh P now hop m nd)) hop = Some s' \<and> se_peer_id s' = hop
    \<and> sc_counter (se_send s') = sc_counter (se_send s) + 1 \<and> paired s' r'
    \<and> tf_frame_type f = Data \<and> Session_decrypt_frame (pr_aead P) f r = (Ok f', r')
    \<and> MeshDataFrame_decode (tf_payload f') = Ok (m, [])"
proof -
  have m: "\<lparr>mdf_src_id = mdf_src_id m, mdf_dst_id = mdf_dst_id m, mdf_session_id = 0, mdf_ttl = mdf_ttl m,
      mdf_flags = mdf_flags m, mdf_payload = mdf_payload m\<rparr> = m"
    using assms(2) by (simp add: sendable_def)
  have "length (MeshDataFrame_encode m) < 2 ^ 36"
    using assms(2) by (simp add: sendable_def wf_mesh_data_frame_def wf_node_id_def MeshDataFrame_encode_def)
  then obtain f s' r' where enc: "Session_encrypt_frame (pr_aead P) (MeshDataFrame_encode m) s = (Ok f, s')" "tf_frame_type f = Data"
    and dec: "Session_decrypt_frame (pr_aead P) f r = (Ok (f\<lparr>tf_payload := MeshDataFrame_encode m\<rparr>), r')"
      "paired s' r'" "sc_counter (se_send s') = sc_counter (se_send s) + 1" "se_peer_id s' = se_peer_id s"
    using encrypt_then_decrypt [of "pr_aead P" "MeshDataFrame_encode m" s r] assms(1,5,6) unfolding crypto_ok_def by blast
  let ?nd = "nd\<lparr>nd_sessions := hm_insert hop s' (nd_sessions nd)\<rparr>"
  have eq: "send_mesh P now hop m nd = node_send now hop f ?nd"
    using assms(3,4) enc by (simp add: send_single_mesh_def m Let_def)
  have room: "link_room ?nd hop c (Suc n)" using assms(7) by (simp add: link_room_def)
  have "sends_only hop nd ?nd"
    by (rule sends_onlyI [where tt = "nd_transport nd" and ss = "hm_insert hop s' (nd_sessions nd)"]) simp_all
  then have "sends_only hop nd (send_mesh P now hop m nd)"
    unfolding eq by (rule sends_only_trans) (rule node_send_accepted(1) [OF room])
  moreover have "MeshDataFrame_decode (tf_payload (f\<lparr>tf_payload := MeshDataFrame_encode m\<rparr>)) = Ok (m, [])"
    using MeshDataFrame_decode_encode [of m "[]"] assms(2) by (simp add: sendable_def)
  ultimately show ?thesis
    using node_send_accepted(2-4) [OF room, of now f] enc(2) dec assms(4) unfolding eq
    by (intro exI [of _ f] exI [of _ "f\<lparr>tf_payload := MeshDataFrame_encode m\<rparr>"] exI [of _ s'] exI [of _ r'])
      (simp add: sent_on_def)
qed

definition counter_room :: "session \<Rightarrow> nat \<Rightarrow> bool" where
  "counter_room s n \<longleftrightarrow> unat (sc_counter (se_send s)) + n \<le> unat MAX_NONCE_COUNTER"

lemma counter_room_Suc:
  assumes "counter_room s (Suc n)"
  shows "sc_counter (se_send s) < MAX_NONCE_COUNTER"
    "sc_counter (se_send s') = sc_counter (se_send s) + 1 \<Longrightarrow> counter_room s' n"
  using assms by (auto simp: counter_room_def MAX_NONCE_COUNTER_def word_less_nat_alt unat_word_ariths)

text \<open>A node that can put \<open>n\<close> frames on connection \<open>c\<close> to \<open>hop\<close> for the session \<open>r\<close> at the other end.\<close>

definition can_send :: "node \<Rightarrow> node_id \<Rightarrow> conn \<Rightarrow> session \<Rightarrow> nat \<Rightarrow> bool" where
  "can_send nd hop c r n \<longleftrightarrow>
     (\<exists>s. hm_get (nd_sessions nd) hop = Some s \<and> se_peer_id s = hop \<and> counter_room s n \<and> paired s r)
     \<and> link_room nd hop c n"

lemma can_send_mesh:
  assumes "crypto_ok P" "sendable m" "can_send nd hop c r (Suc n)"
  obtains f f' r' where "sends_only hop nd (send_mesh P now hop m nd)"
    "sent_on (send_mesh P now hop m nd) c = sent_on nd c @ [f]" "can_send (send_mesh P now hop m nd) hop c r' n"
    "tf_frame_type f = Data" "Session_decrypt_frame (pr_aead P) f r = (Ok f', r')"
    "MeshDataFrame_decode (tf_payload f') = Ok (m, [])"
proof -
  obtain s where s: "hm_get (nd_sessions nd) hop = Some s" "se_peer_id s = hop" "counter_room s (Suc n)" "paired s r"
    and room: "link_room nd hop c (Suc n)"
    using assms(3) unfolding can_send_def by blast
  from send_one_mesh [OF assms(1,2) s(1,2) counter_room_Suc(1) [OF s(3)] s(4) room, of now]
  obtain f f' s' r' where *: "sends_only hop nd (send_mesh P now hop m nd)"
    "sent_on (send_mesh P now hop m nd) c = sent_on nd c @ [f]" "link_room (send_mesh P now hop m nd) hop c n"
    "hm_get (nd_sessions (send_mesh P now hop m nd)) hop = Some s'" "se_peer_id s' = hop"
    "sc_counter (se_send s') = sc_counter (se_send s) + 1" "paired s' r'"
    "tf_frame_type f = Data" "Session_decrypt_frame (pr_aead P) f r = (Ok f', r')"
    "MeshDataFrame_decode (tf_payload f') = Ok (m, [])"
    by blast
  have "can_send (send_mesh P now hop m nd) hop c r' n"
    unfolding can_send_def using *(3-5,7) counter_room_Suc(2) [OF s(3) *(6)] by blast
  with * that show thesis by blast
qed

lemma send_meshes:
  assumes "crypto_ok P"
  shows "\<forall>m\<in>set ms. sendable m \<Longrightarrow> can_send nd hop c r (length ms) \<Longrightarrow>
    \<exists>fs. sends_only hop nd (fold (send_mesh P now hop) ms nd)
      \<and> sent_on (fold (send_mesh P now hop) ms nd) c = sent_on nd c @ fs \<and> carries (pr_aead P) r fs ms"
proof (induction ms arbitrary: nd r)
  case Nil
  then show ?case by (intro exI [of _ "[]"]) simp
next
  case (Cons m ms)
  let ?nd = "send_mesh P now hop m nd"
  have "sendable m" "can_send nd hop c r (Suc (length ms))" using Cons.prems by simp_all
  from can_send_mesh [OF assms this, of now] obtain f f' r' where one: "sends_only hop nd ?nd"
    "sent_on ?nd c = sent_on nd c @ [f]" "can_send ?nd hop c r' (length ms)" "tf_frame_type f = Data"
    "Session_decrypt_frame (pr_aead P) f r = (Ok f', r')" "MeshDataFrame_decode (tf_payload f') = Ok (m, [])" .
  from Cons.IH [OF _ one(3)] Cons.prems(1) obtain fs where rest: "sends_only hop ?nd (fold (send_mesh P now hop) ms ?nd)"
    "sent_on (fold (send_mesh P now hop) ms ?nd) c = sent_on ?nd c @ fs" "carries (pr_aead P) r' fs ms"
    by auto
  have "carries (pr_aead P) r (f # fs) (m # ms)" using one(4-6) rest(3) by auto
  with sends_only_trans [OF one(1) rest(1)] one(2) rest(2) show ?case
    by (intro exI [of _ "f # fs"]) simp
qed

section \<open>Relays\<close>

fun receive_all ::
  "primitives \<Rightarrow> ipv6 option \<Rightarrow> instant \<Rightarrow> node_id \<Rightarrow> transport_frame list \<Rightarrow> node \<Rightarrow> node option" where
  "receive_all P uplink now from_peer [] nd = Some nd"
| "receive_all P uplink now from_peer (f # fs) nd =
     Option.bind (handle_data P uplink now from_peer f nd) (receive_all P uplink now from_peer fs)"

definition one_less :: "mesh_data_frame \<Rightarrow> mesh_data_frame" where
  "one_less m = m\<lparr>mdf_ttl := mdf_ttl m - 1\<rparr>"

lemma sendable_one_less [simp]: "sendable (one_less m) = sendable m"
  by (simp add: sendable_def one_less_def wf_mesh_data_frame_def)

lemma one_less_fields [simp]: "mdf_dst_id (one_less m) = mdf_dst_id m" "mdf_ttl (one_less m) = mdf_ttl m - 1"
  by (simp_all add: one_less_def)

lemma can_send_cong:
  assumes "nd_transport nd' = nd_transport nd" "hm_get (nd_sessions nd') hop = hm_get (nd_sessions nd) hop"
  shows "can_send nd' hop c r n = can_send nd hop c r n" "sent_on nd' c = sent_on nd c"
  using assms by (simp_all add: can_send_def link_room_def sent_on_def)

lemma handle_data_relay:
  assumes "hm_get (nd_sessions nd) from_peer = Some r" "Session_decrypt_frame (pr_aead P) f r = (Ok f', r')"
    and "MeshDataFrame_decode (tf_payload f') = Ok (m, [])" "mdf_dst_id m \<noteq> nd_self_id nd" "mdf_ttl m \<noteq> 0"
    and "lookup (mdf_dst_id m) (nd_routing nd) = Some hop" "hop \<noteq> from_peer" "hm_get (nd_sessions nd) hop = Some s"
  shows "handle_data P uplink now from_peer f nd =
    Some (count_forwarded (mdf_payload m)
      (send_mesh P now hop (one_less m) (nd\<lparr>nd_sessions := hm_insert from_peer r' (nd_sessions nd)\<rparr>)))"
  using assms by (simp add: handle_data_def handle_relay_def one_less_def Let_def)

lemma relay_frames:
  assumes "crypto_ok P" "hop \<noteq> from_peer"
  shows "carries (pr_aead P) r fs ms \<Longrightarrow> hm_get (nd_sessions nd) from_peer = Some r \<Longrightarrow>
    (\<forall>m\<in>set ms. sendable m \<and> mdf_dst_id m = dst \<and> mdf_ttl m \<noteq> 0) \<Longrightarrow> dst \<noteq> nd_self_id nd \<Longrightarrow>
    lookup dst (nd_routing nd) = Some hop \<Longrightarrow> can_send nd hop c r2 (length ms) \<Longrightarrow>
    \<exists>nd' fs'. receive_all P uplink now from_peer fs nd = Some nd' \<and> sent_on nd' c = sent_on nd c @ fs'
      \<and> carries (pr_aead P) r2 fs' (map one_less ms)"
proof (induction fs arbitrary: ms nd r r2)
  case Nil
  then show ?case by (intro exI [of _ nd] exI [of _ "[]"]) simp
next
  case (Cons f fs)
  from Cons.prems(1) obtain m ms' r' f' where m: "ms = m # ms'" "Session_decrypt_frame (pr_aead P) f r = (Ok f', r')"
    "MeshDataFrame_decode (tf_payload f') = Ok (m, [])" "carries (pr_aead P) r' fs ms'" by auto
  let ?nd1 = "nd\<lparr>nd_sessions := hm_insert from_peer r' (nd_sessions nd)\<rparr>"
  let ?nd2 = "send_mesh P now hop (one_less m) ?nd1"
  let ?nd3 = "count_forwarded (mdf_payload m) ?nd2"
  obtain s where s: "hm_get (nd_sessions nd) hop = Some s" using Cons.prems(6) by (auto simp: can_send_def)
  have step: "handle_data P uplink now from_peer f nd = Some ?nd3"
    using Cons.prems m s assms(2) by (intro handle_data_relay) auto
  have cs: "can_send ?nd1 hop c r2 (Suc (length ms'))" and so: "sent_on ?nd1 c = sent_on nd c"
    using Cons.prems(6) m(1) assms(2) can_send_cong [of ?nd1 nd hop c] by simp_all
  have "sendable (one_less m)" using Cons.prems(3) m(1) by simp
  from can_send_mesh [OF assms(1) this cs, of now] so obtain g g' r2' where one: "sends_only hop ?nd1 ?nd2" "sent_on ?nd2 c = sent_on nd c @ [g]"
    "can_send ?nd2 hop c r2' (length ms')" "tf_frame_type g = Data" "Session_decrypt_frame (pr_aead P) g r2 = (Ok g', r2')"
    "MeshDataFrame_decode (tf_payload g') = Ok (one_less m, [])"
    by metis
  note sf = sends_only_fields [OF one(1)]
  have cf: "nd_transport ?nd3 = nd_transport ?nd2" "nd_sessions ?nd3 = nd_sessions ?nd2" "nd_routing ?nd3 = nd_routing nd"
    "nd_self_id ?nd3 = nd_self_id nd" "hm_get (nd_sessions ?nd3) from_peer = Some r'"
    using sf(1,2) sf(12) [of from_peer] assms(2) by (simp_all add: count_forwarded_def)
  have cs3: "can_send ?nd3 hop c r2' (length ms')" and so3: "sent_on ?nd3 c = sent_on nd c @ [g]"
    using one(2,3) cf(1,2) can_send_cong [of ?nd3 ?nd2 hop c] by simp_all
  have "\<forall>m\<in>set ms'. sendable m \<and> mdf_dst_id m = dst \<and> mdf_ttl m \<noteq> 0" "dst \<noteq> nd_self_id ?nd3"
    "lookup dst (nd_routing ?nd3) = Some hop"
    using Cons.prems(3-5) m(1) cf(3,4) by simp_all
  from Cons.IH [OF m(4) cf(5) this cs3] so3
  obtain nd' fs' where rest: "receive_all P uplink now from_peer fs ?nd3 = Some nd'"
    "sent_on nd' c = (sent_on nd c @ [g]) @ fs'" "carries (pr_aead P) r2' fs' (map one_less ms')"
    by metis
  have "carries (pr_aead P) r2 (g # fs') (map one_less ms)" using one(4-6) rest(3) m(1) by auto
  with rest(1,2) step show ?case
    by (intro exI [of _ nd'] exI [of _ "g # fs'"]) simp
qed

text \<open>
  A path: for each relay, the id under which it knows the node before, the relay, and the hop and
  connection it sends on. \<open>travel\<close> runs the relays one after the other.
\<close>

type_synonym relay = "node_id \<times> node \<times> node_id \<times> conn"

fun travel :: "primitives \<Rightarrow> instant \<Rightarrow> relay list \<Rightarrow> transport_frame list \<Rightarrow> transport_frame list option" where
  "travel P now [] fs = Some fs"
| "travel P now ((from_peer, nd, hop, c) # rs) fs =
     Option.bind (receive_all P None now from_peer fs nd)
       (\<lambda>nd'. travel P now rs (drop (length (sent_on nd c)) (sent_on nd' c)))"

fun path_ok :: "node_id \<Rightarrow> nat \<Rightarrow> relay list \<Rightarrow> session \<Rightarrow> session \<Rightarrow> bool" where
  "path_ok dst n [] r_end r \<longleftrightarrow> r = r_end"
| "path_ok dst n ((from_peer, nd, hop, c) # rs) r_end r \<longleftrightarrow>
     hm_get (nd_sessions nd) from_peer = Some r \<and> hop \<noteq> from_peer \<and> dst \<noteq> nd_self_id nd
     \<and> lookup dst (nd_routing nd) = Some hop
     \<and> (\<exists>r2. can_send nd hop c r2 n \<and> path_ok dst n rs r_end r2)"

lemma path_delivers:
  assumes "crypto_ok P"
  shows "path_ok dst (length ms) rs r_end r \<Longrightarrow> carries (pr_aead P) r fs ms \<Longrightarrow>
    (\<forall>m\<in>set ms. sendable m \<and> mdf_dst_id m = dst \<and> length rs \<le> unat (mdf_ttl m)) \<Longrightarrow>
    \<exists>fs'. travel P now rs fs = Some fs' \<and> carries (pr_aead P) r_end fs' (map (one_less ^^ length rs) ms)"
proof (induction rs arbitrary: ms r fs)
  case (Cons x rs)
  obtain from_peer nd hop c where x: "x = (from_peer, nd, hop, c)" by (cases x) auto
  from Cons.prems(1) x obtain r2 where p: "hm_get (nd_sessions nd) from_peer = Some r" "hop \<noteq> from_peer"
    "dst \<noteq> nd_self_id nd" "lookup dst (nd_routing nd) = Some hop" "can_send nd hop c r2 (length ms)"
    "path_ok dst (length ms) rs r_end r2" by auto
  have alive: "Suc (length rs) \<le> unat (mdf_ttl m)" "mdf_ttl m \<noteq> 0" if "m \<in> set ms" for m
    using Cons.prems(3) that by (auto simp: unat_gt_0 [symmetric])
  have "\<forall>m\<in>set ms. sendable m \<and> mdf_dst_id m = dst \<and> mdf_ttl m \<noteq> 0" using Cons.prems(3) alive by blast
  from relay_frames [OF assms p(2) Cons.prems(2) p(1) this p(3-5), of None now]
  obtain nd' fs' where hop: "receive_all P None now from_peer fs nd = Some nd'" "sent_on nd' c = sent_on nd c @ fs'"
    "carries (pr_aead P) r2 fs' (map one_less ms)" by blast
  have "length rs \<le> unat (mdf_ttl m - 1)" if "m \<in> set ms" for m
    using alive [OF that] by (simp add: unat_minus_one)
  then have "\<forall>m\<in>set (map one_less ms). sendable m \<and> mdf_dst_id m = dst \<and> length rs \<le> unat (mdf_ttl m)"
    using Cons.prems(3) by auto
  from Cons.IH [OF _ hop(3) this] p(6)
  obtain fs'' where "travel P now rs fs' = Some fs''"
    "carries (pr_aead P) r_end fs'' (map (one_less ^^ length rs) (map one_less ms))" by auto
  then show ?case using hop(1,2) by (simp add: x funpow_swap1 comp_def)
qed simp

end
