(* ===== verification/Example_Mesh.thy ===== *)
theory Example_Mesh
  imports Mesh_Delivery
begin

text \<open>
  A concrete mesh of three nodes in a line, the last one a gateway when it is given an engine: the
  inputs on which the theorems over whole paths are applied.
\<close>

definition example_primitives :: primitives where
  "example_primitives =
     \<lparr>pr_aead = example_aead, pr_x25519 = example_x25519, pr_kdf = example_kdf, pr_ed25519 = example_ed25519,
      pr_blake3 = example_blake3, pr_sha256 = (\<lambda>bs. take 32 (bs @ replicate 32 0))\<rparr>"

definition example_session :: "u8 \<Rightarrow> session" where
  "example_session peer =
     \<lparr>se_peer_id = example_node peer, se_send = SessionCipher_new [7] (replicate 8 0),
      se_recv = SessionCipher_new [7] (replicate 8 0)\<rparr>"

definition example_links :: "u8 list \<Rightarrow> tcp_transport" where
  "example_links peers =
     \<lparr>tt_peers = zip (map example_node peers) [0..<length peers],
      tt_conns = map (\<lambda>p. \<lparr>cn_current_id = example_node p, cn_remote_addr = AddrV4 1 9100, cn_reader = Reading,
        cn_queue = [], cn_open = True, cn_wire = [], cn_sent = []\<rparr>) peers,
      tt_unstored = [], tt_incoming = []\<rparr>"

definition example_routes :: "u8 \<Rightarrow> routing_table" where
  "example_routes self =
     (if self = 1 then rt_exec example_blake3
        (ApplyUpdate 1 (example_update 2 5 [(2, 0, 0), (3, 1, 1)]) (example_node 2)) (example_table 1 [2])
      else if self = 2 then example_table 2 [1, 3]
      else rt_exec example_blake3
        (ApplyUpdate 1 (example_update 2 5 [(2, 0, 0), (1, 1, 0)]) (example_node 2)) (example_table 3 [2]))"

definition example_daemon :: "u8 \<Rightarrow> u8 list \<Rightarrow> gateway_engine option \<Rightarrow> node" where
  "example_daemon self peers gw =
     \<lparr>nd_node_name = [], nd_self_id = example_node self, nd_seed = [self], nd_is_gateway = (gw \<noteq> None),
      nd_mesh_ipv4 = 0x0A4D0000 + 257 * ucast self, nd_own_x25519_pub = [],
      nd_sessions = map (\<lambda>p. (example_node p, example_session p)) peers, nd_hs_channels = [],
      nd_pending_outbound = [], nd_cancelled_outbounds = {}, nd_routing = example_routes self,
      nd_reassemblers = [], nd_frag_id = 0, nd_transport = example_links peers, nd_gw_engine = gw,
      nd_gw_engine_v6 = None, nd_internet_link = True, nd_peer_last_hb = [],
      nd_reconnect = ReconnectManager_new [], nd_send = \<lparr>ss_buffer = SendBuffer_new 0 0, ss_congestion_drops = 0\<rparr>,
      nd_packets_forwarded = 0, nd_bytes_forwarded = 0, nd_packets_dropped = 0, nd_pending_pings = [],
      nd_peer_pubkeys = [], nd_rate_limiter = RateLimiter_new DEFAULT_BURST DEFAULT_RATE, nd_reputation = [],
      nd_authorization = \<lparr>am_policy = AllowAll, am_allow_list = {}, am_trusted_peers = {}\<rparr>,
      nd_mesh_handshake_key = None, nd_min_peer_interval_s = 0, nd_watch_incoming = False,
      nd_broadcast_peer_last_seen = [], nd_plugins = None,
      nd_gw_x25519_by_id = [(example_node 3, x25519_public_from_seed example_x25519 example_kdf [3])],
      nd_tun_out = [], nd_link_out = [], nd_plugin_out = [], nd_peer_seen = [], nd_responders = [],
      nd_reconnect_tasks = []\<rparr>"

abbreviation example_source :: node where "example_source \<equiv> example_daemon 1 [2] None"
abbreviation example_relay :: node where "example_relay \<equiv> example_daemon 2 [1, 3] None"
abbreviation example_target :: node where "example_target \<equiv> example_daemon 3 [2] None"
abbreviation example_gateway :: node where "example_gateway \<equiv> example_daemon 3 [2] (Some (GatewayEngine_new 0xC0A80001))"

lemma example_crypto: "crypto_ok example_primitives" "x25519_correct (pr_x25519 example_primitives)"
  by (simp_all add: crypto_ok_def example_primitives_def example_aead_correct example_x25519_correct
      aead_seals_def) (simp add: example_aead_def)

lemma example_routing:
  "lookup (example_node 3) (example_routes 2) = Some (example_node 3)"
  "lookup (example_node 1) (example_routes 2) = Some (example_node 1)"
  "lookup_mesh_ip 0x0A4D0303 (example_routes 1) = Some (example_node 3, example_node 2)"
  "lookup_mesh_ip 0x0A4D0101 (example_routes 3) = Some (example_node 1, example_node 2)"
  "lookup_mesh_ip 0x01020304 (example_routes 1) = None"
  by code_simp+

end
