(* ===== verification/Session_Pairing.thy ===== *)
theory Session_Pairing
  imports Session_Setup Example_Mesh
begin

text \<open>
  The daemon handshake between two nodes: both sides end with sessions that accept each other's
  frames. The reconnect task always gives its target back.
\<close>

section \<open>Operations that only transmit\<close>

definition transmits :: "node \<Rightarrow> node \<Rightarrow> bool" where
  "transmits nd nd' \<longleftrightarrow>
     (\<exists>tt ss. nd' = nd\<lparr>nd_transport := tt, nd_send := ss\<rparr>) \<and> (\<forall>c. \<exists>fs. sent_on nd' c = sent_on nd c @ fs)"

lemma transmitsI:
  "nd' = nd\<lparr>nd_transport := tt, nd_send := ss\<rparr> \<Longrightarrow> (\<And>c. \<exists>fs. sent_on nd' c = sent_on nd c @ fs) \<Longrightarrow> transmits nd nd'"
  unfolding transmits_def by blast

lemma transmits_refl [simp]: "transmits nd nd"
  by (rule transmitsI [where tt = "nd_transport nd" and ss = "nd_send nd"]) simp_all

lemma transmits_trans:
  assumes "transmits a b" "transmits b c"
  shows "transmits a c"
proof -
  obtain tt ss where b: "b = a\<lparr>nd_transport := tt, nd_send := ss\<rparr>" using assms(1) unfolding transmits_def by blast
  obtain tt' ss' where "c = b\<lparr>nd_transport := tt', nd_send := ss'\<rparr>" using assms(2) unfolding transmits_def by blast
  moreover have "\<exists>fs. sent_on c n = sent_on a n @ fs" for n
    using assms unfolding transmits_def by (metis append.assoc)
  ultimately show ?thesis using b by (intro transmitsI [where tt = tt' and ss = ss']) simp_all
qed

lemma transmits_fold: "(\<And>x nd. transmits nd (f x nd)) \<Longrightarrow> transmits nd (fold f xs nd)"
  by (induction xs arbitrary: nd) (auto intro: transmits_trans)

lemma transmits_fields:
  assumes "transmits nd nd'"
  shows "nd_sessions nd' = nd_sessions nd" "nd_routing nd' = nd_routing nd" "nd_peer_pubkeys nd' = nd_peer_pubkeys nd"
    "nd_reconnect nd' = nd_reconnect nd"
  using assms unfolding transmits_def by auto

lemma upd_conn_nth:
  "tt_conns (upd_conn c f tt) ! c' = (if c' = c \<and> c < length (tt_conns tt) then f (tt_conns tt ! c) else tt_conns tt ! c')"
  by (cases "c < length (tt_conns tt)") (simp_all add: upd_conn_def list_update_beyond)

lemma transport_send_grows: "\<exists>fs. cn_sent (tt_conns (snd (transport_send peer f tt)) ! c) = cn_sent (tt_conns tt ! c) @ fs"
  by (auto simp: transport_send_def upd_conn_nth Let_def split: option.split)

lemma transmits_transport: "transmits nd (nd\<lparr>nd_transport := snd (transport_send peer f (nd_transport nd))\<rparr>)"
  by (rule transmitsI [where ss = "nd_send nd" and tt = "snd (transport_send peer f (nd_transport nd))"])
    (simp_all add: sent_on_def transport_send_grows)

lemma transmits_send: "transmits nd (node_send now peer f nd)"
proof -
  obtain r tt where r: "transport_send peer f (nd_transport nd) = (r, tt)" by fastforce
  with transport_send_grows [of peer f "nd_transport nd"] show ?thesis
    by (intro transmitsI [where tt = tt and ss = "send_frame_buffered (\<lambda>_ _. r) now peer f (nd_send nd)"])
      (simp_all add: node_send_def sent_on_def)
qed

lemma transmits_flush: "transmits nd (node_flush_buffer now peer nd)"
proof -
  obtain fs sb where d: "SendBuffer_drain now peer (ss_buffer (nd_send nd)) = (fs, sb)" by fastforce
  let ?nd = "nd\<lparr>nd_send := (nd_send nd)\<lparr>ss_buffer := sb\<rparr>\<rparr>"
  have "transmits nd ?nd"
    by (rule transmitsI [where tt = "nd_transport nd" and ss = "(nd_send nd)\<lparr>ss_buffer := sb\<rparr>"]) (simp_all add: sent_on_def)
  moreover have "transmits ?nd (node_flush_buffer now peer nd)"
    unfolding node_flush_buffer_def d Let_def prod.case by (intro transmits_fold transmits_transport)
  ultimately show ?thesis by (rule transmits_trans)
qed

lemma send_handshake_accepted:
  assumes "link_room nd peer c (Suc n)"
  obtains nd' where "send_handshake peer w nd = (None, nd')" "transmits nd nd'"
    "sent_on nd' c = sent_on nd c @ [plain_frame Handshake (HandshakeWireFrame_encode w)]" "link_room nd' peer c n"
proof -
  let ?f = "plain_frame Handshake (HandshakeWireFrame_encode w)"
  let ?tt = "upd_conn c (\<lambda>cn. cn\<lparr>cn_queue := cn_queue cn @ [TcpTransport_wire ?f], cn_sent := cn_sent cn @ [?f]\<rparr>) (nd_transport nd)"
  have s: "transport_send peer ?f (nd_transport nd) = (None, ?tt)"
    using assms by (auto simp: link_room_def transport_send_def Let_def)
  show ?thesis
  proof (rule that [of "nd\<lparr>nd_transport := ?tt\<rparr>"])
    show "transmits nd (nd\<lparr>nd_transport := ?tt\<rparr>)" using transmits_transport [of nd peer ?f] s by simp
  qed (use assms s in \<open>simp_all add: send_handshake_def sent_on_def link_room_def\<close>)
qed

section \<open>Sessions\<close>

lemma establish_sends:
  obtains nd1 where "nd_sessions nd1 = hm_insert peer s (nd_sessions nd)"
    "nd_peer_pubkeys nd1 = hm_insert peer pub (nd_peer_pubkeys nd)" "nd_transport nd1 = nd_transport nd"
    "nd_routing nd1 = unblacklist_peer peer (add_peer (pr_blake3 P) now peer (nd_routing nd))"
    "transmits nd1 (establish_session P now peer pub s nd)"
proof (rule that)
  let ?nd = "nd\<lparr>nd_sessions := hm_insert peer s (nd_sessions nd),
                  nd_peer_pubkeys := hm_insert peer pub (nd_peer_pubkeys nd),
                  nd_routing := unblacklist_peer peer (add_peer (pr_blake3 P) now peer (nd_routing nd)),
                  nd_reputation := pardon peer (nd_reputation nd),
                  nd_peer_last_hb := hm_insert peer now (nd_peer_last_hb nd)\<rparr>"
  show "transmits ?nd (establish_session P now peer pub s nd)"
    unfolding establish_session_def Let_def send_peer_info_def send_control_def
    by (rule transmits_trans [OF transmits_flush transmits_send])
qed simp_all

lemma establish_session_result:
  shows "hm_get (nd_sessions (establish_session P now peer pub s nd)) peer = Some s"
    "hm_get (nd_peer_pubkeys (establish_session P now peer pub s nd)) peer = Some pub"
    "nd_routing (establish_session P now peer pub s nd) = unblacklist_peer peer (add_peer (pr_blake3 P) now peer (nd_routing nd))"
    "\<exists>fs. sent_on (establish_session P now peer pub s nd) c = sent_on nd c @ fs"
proof -
  obtain nd1 where 1: "nd_sessions nd1 = hm_insert peer s (nd_sessions nd)"
    "nd_peer_pubkeys nd1 = hm_insert peer pub (nd_peer_pubkeys nd)" "nd_transport nd1 = nd_transport nd"
    "nd_routing nd1 = unblacklist_peer peer (add_peer (pr_blake3 P) now peer (nd_routing nd))"
    "transmits nd1 (establish_session P now peer pub s nd)" by (rule establish_sends)
  note f = transmits_fields [OF 1(5)]
  show "hm_get (nd_sessions (establish_session P now peer pub s nd)) peer = Some s"
    "hm_get (nd_peer_pubkeys (establish_session P now peer pub s nd)) peer = Some pub"
    "nd_routing (establish_session P now peer pub s nd) = unblacklist_peer peer (add_peer (pr_blake3 P) now peer (nd_routing nd))"
    by (simp_all add: f 1)
  have "sent_on nd1 c = sent_on nd c" using 1(3) by (simp add: sent_on_def)
  then show "\<exists>fs. sent_on (establish_session P now peer pub s nd) c = sent_on nd c @ fs"
    using 1(5) unfolding transmits_def by metis
qed

lemma sessions_paired:
  assumes "length key = 32"
  shows "paired (session_for key True p) (session_for key False q)" "paired (session_for key False q) (session_for key True p)"
  using assms by (simp_all add: paired_def session_for_def SessionCipher_new_def nonce_prefix_def)

text \<open>The sizes of the outputs of the primitives.\<close>

definition output_sizes :: "primitives \<Rightarrow> bool" where
  "output_sizes P \<longleftrightarrow> (\<forall>sk m. length (ed_sign (pr_ed25519 P) sk m) = 64)
     \<and> (\<forall>k m. length k = 32 \<longrightarrow> length (hmac (pr_kdf P) k m) = 32)
     \<and> (\<forall>salt ikm info n. length (hkdf (pr_kdf P) salt ikm info n) = n)"

lemma decode_sent: "wf_handshake_wire_frame w \<Longrightarrow> decode_handshake_wire (plain_frame Handshake (HandshakeWireFrame_encode w)) = Some w"
  using handshake_codec.decode_encode_exact [of w] by (simp add: decode_handshake_wire_def plain_frame_def)

abbreviation identity_of :: "primitives \<Rightarrow> node \<Rightarrow> node_id" where
  "identity_of P nd \<equiv> peer_identity P (ed_public (pr_ed25519 P) (nd_seed nd))"

lemma handshake_steps:
  assumes "ed25519_correct (pr_ed25519 P)" "x25519_correct (pr_x25519 P)" "output_sizes P"
    and "length nonce_i = 32" "length nonce_r = 32" "nd_mesh_handshake_key a = nd_mesh_handshake_key b"
  obtains init h response hr hi mac k where
    "initiate (pr_ed25519 P) (pr_x25519 P) esk_i nonce_i (node_handshaker P a) = (init, h)"
    "respond (pr_ed25519 P) (pr_x25519 P) (pr_kdf P) esk_r nonce_r init (node_handshaker P b) = Ok (response, hr)"
    "finalize_initiator (pr_ed25519 P) (pr_x25519 P) (pr_kdf P) response h = Ok hi"
    "make_confirm (pr_kdf P) hi = Ok mac" "verify_confirm (pr_kdf P) mac hr = Ok ()"
    "hs_session_key hi = Some k" "hs_session_key hr = Some k" "length k = 32"
    "hh_sender_pub init = ed_public (pr_ed25519 P) (nd_seed a)" "hh_sender_pub response = ed_public (pr_ed25519 P) (nd_seed b)"
    "wf_handshake_wire_frame (hello_frame Init init)" "wf_handshake_wire_frame (hello_frame Response response)"
    "wf_handshake_wire_frame (ConfirmFrame mac)"
proof -
  let ?E = "pr_ed25519 P" and ?X = "pr_x25519 P" and ?K = "pr_kdf P"
  obtain hi hr k where run: "handshake_run ?E ?X ?K (nd_seed a) esk_i nonce_i (nd_mesh_handshake_key a)
      (nd_seed b) esk_r nonce_r (nd_mesh_handshake_key b) = Ok (hi, hr, Ok ())"
    and k: "hs_session_key hi = Some k" "hs_session_key hr = Some k" "length k = 32"
    using handshake_run_result [OF assms(1,2,4), of ?K "nd_seed a" esk_i "nd_mesh_handshake_key a" "nd_seed b" esk_r nonce_r
        "nd_mesh_handshake_key b"] assms(3,6) by (auto simp: derive_session_key_def output_sizes_def)
  have mk: "(case nd_mesh_handshake_key nd of None \<Rightarrow> Handshaker_new ?E (nd_seed nd)
      | Some key \<Rightarrow> with_mesh_handshake_key key (Handshaker_new ?E (nd_seed nd))) = node_handshaker P nd" for nd
    by (simp add: node_handshaker_def split: option.split)
  obtain init h where i: "initiate ?E ?X esk_i nonce_i (node_handshaker P a) = (init, h)" by fastforce
  obtain response mac where r: "respond ?E ?X ?K esk_r nonce_r init (node_handshaker P b) = Ok (response, hr)"
    "finalize_initiator ?E ?X ?K response h = Ok hi" "make_confirm ?K hi = Ok mac" "verify_confirm ?K mac hr = Ok ()"
    using run unfolding handshake_run_def Let_def mk i by (auto simp: and_then_eq_Ok)
  have pub: "hs_verifying_key (node_handshaker P nd) = ed_public ?E (nd_seed nd)" for nd
    by (simp add: node_handshaker_def Handshaker_new_def with_mesh_handshake_key_def Let_def split: option.split)
  have init: "init = \<lparr>hh_sender_pub = ed_public ?E (nd_seed a), hh_ephemeral_pub = x_public ?X esk_i, hh_nonce = nonce_i,
      hh_signature = ed_sign ?E (hs_signing_key (node_handshaker P a)) (x_public ?X esk_i @ nonce_i)\<rparr>"
    using i by (auto simp: initiate_def Let_def pub)
  have response: "response = \<lparr>hh_sender_pub = ed_public ?E (nd_seed b), hh_ephemeral_pub = x_public ?X esk_r, hh_nonce = nonce_r,
      hh_signature = ed_sign ?E (hs_signing_key (node_handshaker P b)) (x_public ?X esk_r @ nonce_r)\<rparr>"
    using r(1) by (auto simp: respond_def Let_def pub and_then_eq_Ok)
  have "length mac = 32" using r(3) k(1,3) assms(3) by (auto simp: make_confirm_def output_sizes_def)
  then show ?thesis
    using that [OF i r k] init response assms(1-5)
    by (simp add: hello_frame_def output_sizes_def ed25519_correct_def x25519_correct_def)
qed

lemma node_authorize_only: "node_authorize ok p nd = (True, nd') \<Longrightarrow> \<exists>am. nd' = nd\<lparr>nd_authorization := am\<rparr>"
  by (auto simp: node_authorize_def split: prod.splits)

lemma fst_node_authorize:
  assumes "fst (node_authorize ok p nd)" "nd_authorization nd' = nd_authorization nd"
  obtains am where "node_authorize ok p nd' = (True, nd'\<lparr>nd_authorization := am\<rparr>)"
  using assms by (auto simp: node_authorize_def split: prod.splits)

lemma hello_eta: "\<lparr>hh_sender_pub = hh_sender_pub m, hh_ephemeral_pub = hh_ephemeral_pub m, hh_nonce = hh_nonce m,
    hh_signature = hh_signature m\<rparr> = m"
  by simp

abbreviation handshake_transport :: "handshake_wire_frame \<Rightarrow> transport_frame" where
  "handshake_transport w \<equiv> plain_frame Handshake (HandshakeWireFrame_encode w)"

lemma initiator_starts:
  assumes "initiate (pr_ed25519 P) (pr_x25519 P) esk nonce (node_handshaker P a) = (init, h)" "link_room a key c (Suc n)"
  obtains a1 where "initiator_start P esk nonce key a = (Some h, a1)" "nd_authorization a1 = nd_authorization a"
    "sent_on a1 c = sent_on a c @ [handshake_transport (hello_frame Init init)]" "link_room a1 key c n"
proof -
  obtain a1 where a1: "send_handshake key (hello_frame Init init) a = (None, a1)" "transmits a a1"
    "sent_on a1 c = sent_on a c @ [handshake_transport (hello_frame Init init)]" "link_room a1 key c n"
    using send_handshake_accepted [OF assms(2)] by metis
  then show ?thesis using that [of a1] by (auto simp: initiator_start_def assms(1) transmits_def)
qed

lemma responder_starts:
  assumes "fst (node_authorize ok (peer_identity P (hh_sender_pub init)) b)"
    and "respond (pr_ed25519 P) (pr_x25519 P) (pr_kdf P) esk nonce init (node_handshaker P b) = Ok (response, hr)"
    and "link_room b p c (Suc n)"
  obtains b1 where "responder_start P ok esk nonce p (hello_frame Init init) b = (Some (hr, hh_sender_pub init), b1)"
    "sent_on b1 c = sent_on b c @ [handshake_transport (hello_frame Response response)]"
proof -
  obtain am where am: "node_authorize ok (peer_identity P (hh_sender_pub init)) b = (True, b\<lparr>nd_authorization := am\<rparr>)"
    using fst_node_authorize [OF assms(1) refl] by blast
  let ?b = "b\<lparr>nd_authorization := am\<rparr>"
  have "link_room ?b p c (Suc n)" "sent_on ?b c = sent_on b c" using assms(3) by (simp_all add: link_room_def sent_on_def)
  then obtain b1 where b1: "send_handshake p (hello_frame Response response) ?b = (None, b1)"
    "sent_on b1 c = sent_on b c @ [handshake_transport (hello_frame Response response)]"
    using send_handshake_accepted by metis
  show ?thesis
    by (rule that [OF _ b1(2)]) (simp add: responder_start_def hello_frame_def [of Init] hello_eta assms(2) am b1(1))
qed

lemma initiator_finishes:
  assumes "fst (node_authorize ok peer a)" "peer = peer_identity P (hh_sender_pub response)"
    and "finalize_initiator (pr_ed25519 P) (pr_x25519 P) (pr_kdf P) response h = Ok hi"
    and "make_confirm (pr_kdf P) hi = Ok mac" "hs_session_key hi = Some k" "link_room a key c (Suc n)"
  obtains a2 ms where "initiator_finish P ok now key h (Some (hello_frame Response response)) a = (Some peer, a2)"
    "sent_on a2 c = sent_on a c @ handshake_transport (ConfirmFrame mac) # ms"
    "hm_get (nd_sessions a2) peer = Some (session_for k True peer)"
proof -
  obtain am where am: "node_authorize ok peer a = (True, a\<lparr>nd_authorization := am\<rparr>)"
    using fst_node_authorize [OF assms(1) refl] by blast
  let ?a = "a\<lparr>nd_authorization := am\<rparr>"
  have "link_room ?a key c (Suc n)" "sent_on ?a c = sent_on a c" using assms(6) by (simp_all add: link_room_def sent_on_def)
  then obtain a1 where a1: "send_handshake key (ConfirmFrame mac) ?a = (None, a1)"
    "sent_on a1 c = sent_on a c @ [handshake_transport (ConfirmFrame mac)]"
    using send_handshake_accepted by metis
  let ?a1 = "if key \<noteq> peer then a1\<lparr>nd_transport := rename_peer key peer (nd_transport a1)\<rparr> else a1"
  let ?a2 = "establish_session P now peer (hh_sender_pub response) (session_for k True peer) ?a1"
  have "sent_on ?a1 c = sent_on a1 c" by (simp add: sent_on_def rename_peer_def upd_conn_nth split: option.split)
  then obtain ms where ms: "sent_on ?a2 c = sent_on a c @ handshake_transport (ConfirmFrame mac) # ms"
    using establish_session_result(4) [of P now peer "hh_sender_pub response" "session_for k True peer" ?a1 c] a1(2) by auto
  show ?thesis
    by (rule that [OF _ ms establish_session_result(1)])
      (simp add: initiator_finish_def hello_frame_def [of Response] hello_eta assms(3-5) am [unfolded assms(2)] a1(1) Let_def assms(2))
qed

lemma responder_finishes:
  assumes "verify_confirm (pr_kdf P) mac hr = Ok ()" "hs_session_key hr = Some k"
  shows "\<exists>b'. responder_finish P now p hr pub (Some (ConfirmFrame mac)) b = (True, b')
    \<and> hm_get (nd_sessions b') p = Some (session_for k False p)"
  by (simp add: responder_finish_def assms establish_session_result)

text \<open>
  Claim C4: a complete handshake between two nodes that authorize each other's keys sets up a session on
  both sides, and the two sessions are paired: whatever one side encrypts next, the other accepts. The
  three messages go through the wire format and the connection of the two nodes.
\<close>

theorem handshake_pairs_sessions:
  assumes "ed25519_correct (pr_ed25519 P)" "x25519_correct (pr_x25519 P)" "output_sizes P"
    and "length nonce_i = 32" "length nonce_r = 32" "nd_mesh_handshake_key a = nd_mesh_handshake_key b"
    and "fst (node_authorize ok_a (identity_of P b) a)" "fst (node_authorize ok_b (identity_of P a) b)"
    and "link_room a key ca 2" "link_room b p cb 1"
  shows "\<exists>h a1 m1 w1 hr pub b1 m2 a2 m3 ms b2 s_a s_b.
    initiator_start P esk_i nonce_i key a = (Some h, a1) \<and> sent_on a1 ca = sent_on a ca @ [m1]
    \<and> decode_handshake_wire m1 = Some w1
    \<and> responder_start P ok_b esk_r nonce_r p w1 b = (Some (hr, pub), b1) \<and> sent_on b1 cb = sent_on b cb @ [m2]
    \<and> initiator_finish P ok_a now key h (decode_handshake_wire m2) a1 = (Some (identity_of P b), a2)
    \<and> sent_on a2 ca = sent_on a1 ca @ m3 # ms
    \<and> responder_finish P now' p hr pub (decode_handshake_wire m3) b1 = (True, b2)
    \<and> hm_get (nd_sessions a2) (identity_of P b) = Some s_a \<and> hm_get (nd_sessions b2) p = Some s_b
    \<and> se_peer_id s_a = identity_of P b \<and> se_peer_id s_b = p \<and> paired s_a s_b \<and> paired s_b s_a"
proof -
  obtain init h response hr hi mac k where hs:
    "initiate (pr_ed25519 P) (pr_x25519 P) esk_i nonce_i (node_handshaker P a) = (init, h)"
    "respond (pr_ed25519 P) (pr_x25519 P) (pr_kdf P) esk_r nonce_r init (node_handshaker P b) = Ok (response, hr)"
    "finalize_initiator (pr_ed25519 P) (pr_x25519 P) (pr_kdf P) response h = Ok hi"
    "make_confirm (pr_kdf P) hi = Ok mac" "verify_confirm (pr_kdf P) mac hr = Ok ()"
    "hs_session_key hi = Some k" "hs_session_key hr = Some k" "length k = 32"
    "hh_sender_pub init = ed_public (pr_ed25519 P) (nd_seed a)" "hh_sender_pub response = ed_public (pr_ed25519 P) (nd_seed b)"
    and wf: "wf_handshake_wire_frame (hello_frame Init init)" "wf_handshake_wire_frame (hello_frame Response response)"
    "wf_handshake_wire_frame (ConfirmFrame mac)"
    by (rule handshake_steps [OF assms(1-6), of esk_i esk_r])
  obtain a1 where a1: "initiator_start P esk_i nonce_i key a = (Some h, a1)" "nd_authorization a1 = nd_authorization a"
    "sent_on a1 ca = sent_on a ca @ [handshake_transport (hello_frame Init init)]" "link_room a1 key ca 1"
    using initiator_starts [OF hs(1) assms(9) [unfolded numeral_2_eq_2]] by auto
  obtain b1 where b1: "responder_start P ok_b esk_r nonce_r p (hello_frame Init init) b = (Some (hr, hh_sender_pub init), b1)"
    "sent_on b1 cb = sent_on b cb @ [handshake_transport (hello_frame Response response)]"
    using responder_starts [OF assms(8) [folded hs(9)] hs(2) assms(10) [unfolded One_nat_def]] by blast
  have auth: "fst (node_authorize ok_a (identity_of P b) a1)"
    using fst_node_authorize [OF assms(7) a1(2)] by (metis fst_conv)
  obtain a2 ms where a2: "initiator_finish P ok_a now key h (Some (hello_frame Response response)) a1 = (Some (identity_of P b), a2)"
    "sent_on a2 ca = sent_on a1 ca @ handshake_transport (ConfirmFrame mac) # ms"
    "hm_get (nd_sessions a2) (identity_of P b) = Some (session_for k True (identity_of P b))"
    using initiator_finishes [OF auth _ hs(3,4,6) a1(4) [unfolded One_nat_def]] hs(10) by metis
  obtain b2 where "responder_finish P now' p hr (hh_sender_pub init) (Some (ConfirmFrame mac)) b1 = (True, b2)"
    "hm_get (nd_sessions b2) p = Some (session_for k False p)"
    using responder_finishes [OF hs(5,7)] by metis
  moreover have "se_peer_id (session_for k r q) = q" for r q by (simp add: session_for_def)
  ultimately show ?thesis
    using a1 b1 a2 wf [THEN decode_sent] sessions_paired [OF hs(8)] by metis
qed

theorem handshake_pairs_sessions_witness:
  "\<exists>h a1 w1 hr pub b1 m2 m3 a2 b2 s_a s_b.
     initiator_start example_primitives [4] (replicate 32 1) (example_node 2) example_source = (Some h, a1)
     \<and> responder_start example_primitives True [5] (replicate 32 2) (example_node 1) w1 example_relay = (Some (hr, pub), b1)
     \<and> initiator_finish example_primitives True 7 (example_node 2) h (decode_handshake_wire m2) a1
         = (Some (identity_of example_primitives example_relay), a2)
     \<and> responder_finish example_primitives 8 (example_node 1) hr pub (decode_handshake_wire m3) b1 = (True, b2)
     \<and> hm_get (nd_sessions a2) (identity_of example_primitives example_relay) = Some s_a
     \<and> hm_get (nd_sessions b2) (example_node 1) = Some s_b \<and> paired s_a s_b \<and> paired s_b s_a"
proof -
  have laws: "ed25519_correct (pr_ed25519 example_primitives)" "x25519_correct (pr_x25519 example_primitives)"
    "output_sizes example_primitives"
    using example_crypto(2) example_ed25519_correct
    by (simp_all add: example_primitives_def output_sizes_def example_ed25519_def example_kdf_def)
  have nodes: "nd_mesh_handshake_key example_source = nd_mesh_handshake_key example_relay"
    "fst (node_authorize True p example_source)" "fst (node_authorize True p example_relay)"
    "link_room example_source (example_node 2) 0 2" "link_room example_relay (example_node 1) 0 1" for p
    by (simp_all add: example_daemon_def node_authorize_def authorize_authenticated_peer_def link_room_def example_links_def
        WRITE_QUEUE_def upt_rec)
  have "length (replicate 32 1 :: bytes) = 32" "length (replicate 32 2 :: bytes) = 32" by simp_all
  from handshake_pairs_sessions [OF laws this nodes, of "[4]" "[5]" 7 8] show ?thesis by blast
qed

text \<open>
  The responder files the session under the id that the connection announced; the key that the peer
  proved to have decides about the authorization only.
\<close>

lemma responder_uses_announced_id:
  assumes "responder_finish P now p hr pub w b = (True, b')"
  shows "hm_get (nd_peer_pubkeys b') p = Some pub" "\<exists>s. hm_get (nd_sessions b') p = Some s"
    "p \<in> set (tb_direct_peers (nd_routing b'))"
  using assms
  by (auto simp: responder_finish_def establish_session_result unblacklist_peer_def add_peer_def insert_route_def hs_insert_def Let_def
      split: option.splits handshake_wire_frame.splits outcome.splits)

section \<open>The reconnect task\<close>

lemma end_reconnect_releases [simp]: "target \<notin> rm_reconnecting (nd_reconnect (node_end_reconnect target nd))"
  by (simp add: node_end_reconnect_def end_reconnect_def)

lemma reconnect_attempt_releases:
  "reconnect_attempt P target a nd = (True, nd') \<Longrightarrow> target \<notin> rm_reconnecting (nd_reconnect nd')"
  by (auto simp: reconnect_attempt_def Let_def split: if_splits prod.splits option.splits)


end
