(* ===== verification/Node_Invariant.thy ===== *)
theory Node_Invariant
  imports Session_Pairing
begin

text \<open>
  The invariant of a running daemon: the invariants of its components, sessions filed under the peer
  they talk to, and no key of the node itself among the peers. Every handler and task keeps it, in any
  interleaving.
\<close>

section \<open>The invariant\<close>

definition sessions_keyed :: "node \<Rightarrow> bool" where
  "sessions_keyed nd \<longleftrightarrow> (\<forall>p s. hm_get (nd_sessions nd) p = Some s \<longrightarrow> se_peer_id s = p)"

definition engines_ok :: "node \<Rightarrow> bool" where
  "engines_ok nd \<longleftrightarrow> (\<forall>e. nd_gw_engine nd = Some e \<longrightarrow> nat_inv e) \<and> (\<forall>e. nd_gw_engine_v6 nd = Some e \<longrightarrow> nat6_inv e)"

definition node_inv :: "node \<Rightarrow> bool" where
  "node_inv nd \<longleftrightarrow>
     rt_inv (nd_routing nd) \<and> tb_self_id (nd_routing nd) = nd_self_id nd
     \<and> tcp_inv (nd_transport nd) \<and> sb_inv (ss_buffer (nd_send nd)) \<and> engines_ok nd
     \<and> sessions_keyed nd \<and> hm_get (nd_peer_pubkeys nd) (nd_self_id nd) = None"

lemmas node_inv_defs = node_inv_def engines_ok_def sessions_keyed_def

lemma node_invD:
  assumes "node_inv nd"
  shows "rt_inv (nd_routing nd)" "tb_self_id (nd_routing nd) = nd_self_id nd" "tcp_inv (nd_transport nd)"
    "sb_inv (ss_buffer (nd_send nd))" "hm_get (nd_peer_pubkeys nd) (nd_self_id nd) = None"
    "nd_gw_engine nd = Some e4 \<Longrightarrow> nat_inv e4" "nd_gw_engine_v6 nd = Some e6 \<Longrightarrow> nat6_inv e6"
    "hm_get (nd_sessions nd) p = Some s \<Longrightarrow> se_peer_id s = p"
  using assms unfolding node_inv_defs by blast+

lemma node_inv_fields [simp]:
  "node_inv (nd\<lparr>nd_hs_channels := x1\<rparr>) = node_inv nd" "node_inv (nd\<lparr>nd_pending_outbound := x2\<rparr>) = node_inv nd"
  "node_inv (nd\<lparr>nd_cancelled_outbounds := x3\<rparr>) = node_inv nd" "node_inv (nd\<lparr>nd_reassemblers := x4\<rparr>) = node_inv nd"
  "node_inv (nd\<lparr>nd_frag_id := x5\<rparr>) = node_inv nd" "node_inv (nd\<lparr>nd_peer_last_hb := x6\<rparr>) = node_inv nd"
  "node_inv (nd\<lparr>nd_reconnect := x7\<rparr>) = node_inv nd" "node_inv (nd\<lparr>nd_packets_forwarded := x8\<rparr>) = node_inv nd"
  "node_inv (nd\<lparr>nd_bytes_forwarded := x9\<rparr>) = node_inv nd" "node_inv (nd\<lparr>nd_packets_dropped := x10\<rparr>) = node_inv nd"
  "node_inv (nd\<lparr>nd_pending_pings := x11\<rparr>) = node_inv nd" "node_inv (nd\<lparr>nd_rate_limiter := x12\<rparr>) = node_inv nd"
  "node_inv (nd\<lparr>nd_reputation := x13\<rparr>) = node_inv nd" "node_inv (nd\<lparr>nd_authorization := x14\<rparr>) = node_inv nd"
  "node_inv (nd\<lparr>nd_broadcast_peer_last_seen := x15\<rparr>) = node_inv nd" "node_inv (nd\<lparr>nd_gw_x25519_by_id := x16\<rparr>) = node_inv nd"
  "node_inv (nd\<lparr>nd_tun_out := x17\<rparr>) = node_inv nd" "node_inv (nd\<lparr>nd_link_out := x18\<rparr>) = node_inv nd"
  "node_inv (nd\<lparr>nd_plugin_out := x19\<rparr>) = node_inv nd" "node_inv (nd\<lparr>nd_peer_seen := x20\<rparr>) = node_inv nd"
  "node_inv (nd\<lparr>nd_responders := x21\<rparr>) = node_inv nd" "node_inv (nd\<lparr>nd_reconnect_tasks := x22\<rparr>) = node_inv nd"
  by (simp_all add: node_inv_defs)

lemma inv_transport: "node_inv nd \<Longrightarrow> tcp_inv tt \<Longrightarrow> node_inv (nd\<lparr>nd_transport := tt\<rparr>)"
  by (simp add: node_inv_defs)

lemma inv_send: "node_inv nd \<Longrightarrow> sb_inv (ss_buffer ss) \<Longrightarrow> node_inv (nd\<lparr>nd_send := ss\<rparr>)"
  by (simp add: node_inv_defs)

lemma inv_routing: "node_inv nd \<Longrightarrow> rt_inv tb \<Longrightarrow> tb_self_id tb = nd_self_id nd \<Longrightarrow> node_inv (nd\<lparr>nd_routing := tb\<rparr>)"
  by (simp add: node_inv_defs)

lemma inv_session: "node_inv nd \<Longrightarrow> se_peer_id s = p \<Longrightarrow> node_inv (nd\<lparr>nd_sessions := hm_insert p s (nd_sessions nd)\<rparr>)"
  by (simp add: node_inv_defs)

lemma inv_engine: "node_inv nd \<Longrightarrow> nat_inv e \<Longrightarrow> node_inv (nd\<lparr>nd_gw_engine := Some e\<rparr>)"
  by (simp add: node_inv_defs)

lemma inv_engine6: "node_inv nd \<Longrightarrow> nat6_inv e \<Longrightarrow> node_inv (nd\<lparr>nd_gw_engine_v6 := Some e\<rparr>)"
  by (simp add: node_inv_defs)

lemma inv_fold: "(\<And>x nd. node_inv nd \<Longrightarrow> node_inv (f x nd)) \<Longrightarrow> node_inv nd \<Longrightarrow> node_inv (fold f xs nd)"
  by (induction xs arbitrary: nd) auto

lemma rt_exec_self_id: "tb_self_id (rt_exec B ev tb) = tb_self_id tb"
proof (cases ev)
  case (ApplyUpdate now u p)
  then show ?thesis
    by (cases "accepts_update u p tb") (simp_all add: apply_update_accepted apply_update_not_accepted after_entries_def Let_def remove_routes_frame touch_peer_frame apply_entries_frame)
qed (auto simp: add_peer_def insert_route_frame remove_peer_def generate_advertisement_snd advertise_to_all_snd
      generate_all_advertisements_def blacklist_peer_def unblacklist_peer_def update_gateway_load_def
      update_gateway_rtt_def expire_stale_def set_ipv4_prefix_def set_self_mesh_ip_def remove_routes_frame
      remove_routes_via_frame Let_def split: option.split)

lemma routing_exec_ok:
  assumes "node_inv nd" "rt_enabled ev (nd_routing nd)"
  shows "rt_inv (rt_exec B ev (nd_routing nd))" "tb_self_id (rt_exec B ev (nd_routing nd)) = nd_self_id nd"
  using assms node_invD(1,2) [OF assms(1)] by (simp_all add: rt_inv_exec rt_exec_self_id)

lemma inv_routing_exec:
  assumes "node_inv nd" "rt_enabled ev (nd_routing nd)"
  shows "node_inv (nd\<lparr>nd_routing := rt_exec B ev (nd_routing nd)\<rparr>)"
  by (intro inv_routing routing_exec_ok assms)

section \<open>Sending\<close>

named_theorems keeps_inv

lemma inv_transport_send: "node_inv nd \<Longrightarrow> node_inv (nd\<lparr>nd_transport := snd (transport_send peer f (nd_transport nd))\<rparr>)"
  by (rule inv_transport) (simp, rule tcp.inv_step [OF node_invD(3) tcp_send])

lemma inv_node_send [keeps_inv]: "node_inv nd \<Longrightarrow> node_inv (node_send now peer f nd)"
proof -
  assume inv: "node_inv nd"
  obtain r tt where r: "transport_send peer f (nd_transport nd) = (r, tt)" by fastforce
  have "sb_inv (ss_buffer (send_frame_buffered (\<lambda>_ _. r) now peer f (nd_send nd)))"
    using node_invD(4) [OF inv] sb_inv_push
    by (auto simp: send_frame_buffered_def Let_def split: option.split transport_error.split)
  moreover have "node_inv (nd\<lparr>nd_transport := tt\<rparr>)" using inv_transport_send [OF inv, of peer f] r by simp
  ultimately show ?thesis by (simp add: node_send_def r inv_send)
qed

lemma inv_send_control [keeps_inv]: "node_inv nd \<Longrightarrow> node_inv (send_control now peer cf nd)"
  by (simp add: send_control_def inv_node_send)

lemma encrypt_peer_id: "Session_encrypt_frame A p s = (r, s') \<Longrightarrow> se_peer_id s' = se_peer_id s"
  by (auto simp: Session_encrypt_frame_def Let_def split: prod.splits outcome.splits)

lemma decrypt_peer_id: "Session_decrypt_frame A f s = (r, s') \<Longrightarrow> se_peer_id s' = se_peer_id s"
  by (auto simp: Session_decrypt_frame_def Let_def split: prod.splits outcome.splits)

lemma inv_send_single_mesh [keeps_inv]: "node_inv nd \<Longrightarrow> node_inv (send_single_mesh P now hop src dst ttl flags payload nd)"
  using node_invD(8) [of nd hop]
  by (auto simp: send_single_mesh_def Let_def intro!: inv_node_send inv_session dest!: encrypt_peer_id
      split: option.split prod.split outcome.split)

lemma inv_send_mesh_data [keeps_inv]: "node_inv nd \<Longrightarrow> node_inv (send_mesh_data P now hop src dst ttl flags payload nd)"
  by (simp add: send_mesh_data_def Let_def next_frag_id_def inv_fold inv_send_single_mesh)

lemma inv_routed_control [keeps_inv]: "node_inv nd \<Longrightarrow> node_inv (snd (send_routed_control P now dst cf nd))"
  by (auto simp: send_routed_control_def send_routed_control_via_def intro: inv_send_single_mesh split: option.split)

section \<open>Peers and periodic tasks\<close>

lemma inv_disconnect [keeps_inv]: "node_inv nd \<Longrightarrow> node_inv (node_disconnect peer nd)"
  unfolding node_disconnect_def by (rule inv_transport) (simp, rule tcp.inv_step [OF node_invD(3) tcp_disconnect])

lemma inv_pending [keeps_inv]:
  "node_inv nd \<Longrightarrow> node_inv (register_pending_outbound target key nd)"
  "node_inv nd \<Longrightarrow> node_inv (clear_pending_outbound target key nd)"
  "node_inv nd \<Longrightarrow> node_inv (snd (take_cancelled_outbound key nd))"
  "node_inv nd \<Longrightarrow> node_inv (snd (cancel_pending_outbound_for_ip ip nd))"
  by (auto simp: register_pending_outbound_def clear_pending_outbound_def take_cancelled_outbound_def
      cancel_pending_outbound_for_ip_def Let_def inv_disconnect split: option.split)

lemma inv_advertise [keeps_inv]: "node_inv nd \<Longrightarrow> node_inv (advertise_routes P now nd)"
  using inv_routing_exec [of nd AdvertiseAll undefined]
  by (auto simp: advertise_routes_def send_signed_update_def intro!: inv_fold inv_node_send split: prod.split)

lemma inv_schedule [keeps_inv]: "node_inv nd \<Longrightarrow> node_inv (schedule_reconnect peer nd)"
  by (auto simp: schedule_reconnect_def Let_def split: option.split prod.split)

lemma inv_remove_peer [keeps_inv]: "node_inv nd \<Longrightarrow> node_inv (daemon_remove_peer P now peer nd)"
proof -
  assume inv: "node_inv nd"
  have "node_inv (nd\<lparr>nd_routing := snd (remove_peer peer (nd_routing nd))\<rparr>)"
    using inv_routing_exec [OF inv, of "RemovePeer peer"] by simp
  then show ?thesis
    unfolding daemon_remove_peer_def Let_def
    by (intro inv_schedule inv_advertise inv_disconnect) (simp add: node_inv_defs)
qed

lemma inv_drop_silent [keeps_inv]: "node_inv nd \<Longrightarrow> node_inv (drop_silent_peer P now peer nd)"
  using inv_remove_peer [of nd P now peer] routing_exec_ok [of "daemon_remove_peer P now peer nd" "BlacklistPeer peer"]
  by (auto simp: drop_silent_peer_def Let_def intro!: inv_routing split: prod.split)

lemma inv_liveness [keeps_inv]: "node_inv nd \<Longrightarrow> node_inv (check_liveness P now nd)"
  by (simp add: check_liveness_def inv_fold inv_drop_silent)

lemma inv_gc [keeps_inv]: "node_inv nd \<Longrightarrow> node_inv (reassembly_gc now nd)"
  by (simp add: reassembly_gc_def)

lemma inv_heartbeats [keeps_inv]: "node_inv nd \<Longrightarrow> node_inv (snd (send_heartbeats ts last_fwd nd))"
  by (simp add: send_heartbeats_def Let_def inv_fold inv_transport_send)

lemma inv_probes [keeps_inv]: "node_inv nd \<Longrightarrow> node_inv (probe_gateways nonce now nd)"
  by (auto simp: probe_gateways_def Let_def intro!: inv_fold inv_send_control)

section \<open>The event loop\<close>

lemma inv_seal_route [keeps_inv]: "node_inv nd \<Longrightarrow> node_inv (handle_tun P esk nonce now packet nd)"
  by (auto simp: handle_tun_def Let_def intro: inv_send_mesh_data split: option.split prod.split)

lemma inv_counters [keeps_inv]:
  "node_inv (count_forwarded payload nd) = node_inv nd" "node_inv (count_dropped nd) = node_inv nd"
  "node_inv (write_tun packet nd) = node_inv nd" "node_inv (link_send packet nd) = node_inv nd"
  "node_inv (dispatch_plugin_payload src kind body nd) = node_inv nd"
  "node_inv (handle_incoming_peer_info now src pub name source nd) = node_inv nd"
  by (simp_all add: count_forwarded_def count_dropped_def write_tun_def link_send_def dispatch_plugin_payload_def
      handle_incoming_peer_info_def Let_def split: option.split)

lemma inv_routed [keeps_inv]: "node_inv (handle_routed_control now src payload nd) = node_inv nd"
  by (auto simp: handle_routed_control_def inv_counters split: outcome.split prod.split control_frame.split)

lemma inv_reassemble [keeps_inv]: "node_inv nd \<Longrightarrow> node_inv (snd (reassemble_or_deliver now src flags payload nd))"
  by (auto simp: reassemble_or_deliver_def Let_def split: option.split prod.split)

lemma inv_nat_and_send:
  assumes "node_inv nd" "nat_inv gw" "nat_and_send now packet gw nd = Some nd'"
  shows "node_inv nd'"
proof -
  obtain r gw' where t: "translate_outbound now packet gw = Some (r, gw')" using assms(3) by (auto simp: nat_and_send_def split: option.splits)
  then have "nat_inv gw'" using nat_exec_inv [OF assms(2), of "Outbound now packet"] by auto
  with assms t show ?thesis by (auto simp: nat_and_send_def inv_counters intro: inv_engine split: outcome.splits)
qed

lemma inv_internet_v4: "node_inv nd \<Longrightarrow> forward_internet_v4 now packet nd = Some nd' \<Longrightarrow> node_inv nd'"
  by (auto simp: forward_internet_v4_def inv_counters dest: node_invD(6) intro: inv_nat_and_send split: option.splits if_splits)

lemma inv_ensure_v6: "node_inv nd \<Longrightarrow> ensure_gateway_ipv6_engine uplink nd = (gw, nd') \<Longrightarrow>
    node_inv nd' \<and> (\<forall>e. gw = Some e \<longrightarrow> nat6_inv e \<and> nd_gw_engine_v6 nd' = Some e)"
  using nat6_engine.inv_init
  by (auto simp: ensure_gateway_ipv6_engine_def Let_def nat6_init_def GatewayEngineV6_new_def dest: node_invD(7)
      intro!: inv_engine6 split: option.splits)

lemma inv_internet_v6:
  assumes "node_inv nd" "forward_internet_v6 uplink now src packet nd = Some nd'"
  shows "node_inv nd'"
proof -
  obtain gw nd1 where e: "ensure_gateway_ipv6_engine uplink nd = (gw, nd1)" by fastforce
  note 1 = inv_ensure_v6 [OF assms(1) e]
  have "nat6_inv gw''" if "gw = Some gw'" "translate_outbound_v6 now packet src gw' = Some (r, gw'')" for gw' gw'' r
    using nat6_exec_inv [of gw' "Outbound6 now packet src" gw''] 1 that by simp
  with 1 assms(2) show ?thesis
    by (auto simp: forward_internet_v6_def e inv_counters intro!: inv_engine6 split: option.splits if_splits outcome.splits)
qed

lemma inv_answer_echo: "node_inv nd \<Longrightarrow> answer_echo P now src packet nd = Some nd' \<Longrightarrow> node_inv nd'"
  by (auto simp: answer_echo_def intro: inv_send_mesh_data split: outcome.splits option.splits)

lemma inv_deliver: "node_inv nd \<Longrightarrow> deliver_packet P uplink now src flags packet nd = Some nd' \<Longrightarrow> node_inv nd'"
  by (auto simp: deliver_packet_def Let_def inv_counters intro: inv_answer_echo inv_internet_v4 inv_internet_v6
      split: if_splits option.splits)

lemma inv_handle_local: "node_inv nd \<Longrightarrow> handle_local P uplink now mesh nd = Some nd' \<Longrightarrow> node_inv nd'"
  using inv_reassemble [of "count_forwarded (mdf_payload mesh) nd" now "mdf_src_id mesh" "mdf_flags mesh" "mdf_payload mesh"]
  by (auto simp: handle_local_def inv_counters inv_routed intro: inv_deliver split: if_splits prod.splits option.splits)

lemma inv_handle_relay: "node_inv nd \<Longrightarrow> node_inv (handle_relay P now mesh nd)"
  by (auto simp: handle_relay_def inv_counters intro: inv_send_single_mesh split: option.split)

lemma inv_handle_data:
  assumes "node_inv nd" "handle_data P uplink now from_peer f nd = Some nd'"
  shows "node_inv nd'"
proof (cases "hm_get (nd_sessions nd) from_peer")
  case None
  then show ?thesis using assms by (simp add: handle_data_def)
next
  case (Some s)
  obtain r s' where d: "Session_decrypt_frame (pr_aead P) f s = (r, s')" by fastforce
  have "node_inv (nd\<lparr>nd_sessions := hm_insert from_peer s' (nd_sessions nd)\<rparr>)"
    by (rule inv_session [OF assms(1)]) (simp add: decrypt_peer_id [OF d] node_invD(8) [OF assms(1) Some])
  with assms(2) Some d show ?thesis
    by (auto simp: handle_data_def Let_def intro: inv_handle_local inv_handle_relay split: outcome.splits prod.splits if_splits)
qed

lemma inv_route_update [keeps_inv]:
  assumes "node_inv nd"
  shows "node_inv (handle_route_update P now from_peer f nd)"
proof -
  have "from_peer \<noteq> tb_self_id (nd_routing nd)" if "update_allowed P from_peer u nd" for u
    using that node_invD(2,5) [OF assms] by (auto simp: update_allowed_def)
  then show ?thesis
    using assms inv_routing_exec [OF assms, of "ApplyUpdate now u from_peer" for u]
    by (auto simp: handle_route_update_def split: outcome.split prod.split)
qed

lemma inv_heartbeat [keeps_inv]: "node_inv nd \<Longrightarrow> node_inv (handle_heartbeat now from_peer f nd)"
  using routing_exec_ok [of nd "GatewayLoad from_peer l" for l]
  by (auto simp: handle_heartbeat_def Let_def intro!: inv_routing split: outcome.split prod.split)

lemma inv_control [keeps_inv]: "node_inv nd \<Longrightarrow> node_inv (handle_control P now ms from_peer f nd)"
  using routing_exec_ok [of nd "GatewayRtt g r" for g r]
  by (auto simp: handle_control_def inv_counters intro!: inv_remove_peer inv_send_control inv_routing
      split: outcome.split prod.split control_frame.split option.split)

lemma inv_spawn [keeps_inv]: "node_inv (spawn_responder from_peer wire nd) = node_inv nd"
  by (simp add: spawn_responder_def)

lemma inv_handshake [keeps_inv]: "node_inv nd \<Longrightarrow> node_inv (handle_handshake P from_peer f nd)"
  by (auto simp: handle_handshake_def resolve_simultaneous_def inv_spawn inv_pending inv_disconnect
      split: option.split handshake_wire_frame.split handshake_frame_type.split)

lemma inv_frame: "node_inv nd \<Longrightarrow> handle_frame P uplink now ms from_peer f nd = Some nd' \<Longrightarrow> node_inv nd'"
  by (auto simp: handle_frame_def Let_def inv_counters inv_handshake inv_route_update inv_heartbeat inv_control
      dest: inv_handle_data [rotated] split: prod.splits if_splits frame_type.splits)

lemma inv_return_v4:
  assumes "node_inv nd" "nat_inv gw" "handle_return_v4 P now packet gw nd = Some nd'"
  shows "node_inv nd'"
proof -
  obtain r gw' where t: "translate_inbound now packet gw = (r, gw')" by fastforce
  then have "nat_inv gw'" using nat_exec_inv [OF assms(2), of "Inbound now packet"] by auto
  with assms t show ?thesis
    by (auto simp: handle_return_v4_def send_return_def Let_def intro!: inv_engine inv_send_mesh_data
        split: outcome.splits option.splits)
qed

lemma inv_return_v6:
  assumes "node_inv nd" "nat6_inv gw" "handle_return_v6 P now packet gw nd = Some nd'"
  shows "node_inv nd'"
proof -
  obtain r gw' where t: "translate_inbound_v6 now packet gw = (r, gw')" by fastforce
  then have "nat6_inv gw'" using nat6_exec_inv [OF assms(2), of "Inbound6 now packet"] by simp
  with assms t show ?thesis
    by (auto simp: handle_return_v6_def send_return_def Let_def intro!: inv_engine6 inv_send_mesh_data
        split: outcome.splits option.splits)
qed

lemma inv_return: "node_inv nd \<Longrightarrow> handle_return P v6 now packet nd = Some nd' \<Longrightarrow> node_inv nd'"
  by (auto simp: handle_return_def dest: node_invD(6,7) intro: inv_return_v4 inv_return_v6
      split: option.splits if_splits)

section \<open>Session setup\<close>

lemma inv_send_handshake: "node_inv nd \<Longrightarrow> node_inv (snd (send_handshake peer w nd))"
  using inv_transport_send [of nd peer "plain_frame Handshake (HandshakeWireFrame_encode w)"]
  by (simp add: send_handshake_def split_def Let_def)

lemma inv_authorize: "node_inv (snd (node_authorize ok p nd)) = node_inv nd"
  by (simp add: node_authorize_def split_def Let_def)

lemma self_id_kept [simp]:
  "nd_self_id (snd (node_authorize ok p nd)) = nd_self_id nd" "nd_self_id (snd (send_handshake peer w nd)) = nd_self_id nd"
  by (simp_all add: node_authorize_def send_handshake_def split_def Let_def)

lemma inv_flush [keeps_inv]:
  assumes "node_inv nd"
  shows "node_inv (node_flush_buffer now peer nd)"
proof -
  obtain fs sb where d: "SendBuffer_drain now peer (ss_buffer (nd_send nd)) = (fs, sb)" by fastforce
  then have "sb_inv sb" using sb_inv_drain [OF node_invD(4) [OF assms], of now peer] by simp
  then have "node_inv (nd\<lparr>nd_send := (nd_send nd)\<lparr>ss_buffer := sb\<rparr>\<rparr>)" by (intro inv_send [OF assms]) simp
  then show ?thesis unfolding node_flush_buffer_def d Let_def prod.case by (intro inv_fold inv_transport_send)
qed

lemma inv_establish:
  assumes "node_inv nd" "peer \<noteq> nd_self_id nd" "se_peer_id s = peer"
  shows "node_inv (establish_session P now peer pub s nd)"
proof -
  have "node_inv (nd\<lparr>nd_routing := rt_exec B (AddPeer now peer) (nd_routing nd)\<rparr>)" for B
    using assms(2) node_invD(2) [OF assms(1)] by (intro inv_routing_exec assms(1)) simp
  then have "node_inv (nd\<lparr>nd_routing := unblacklist_peer peer (add_peer (pr_blake3 P) now peer (nd_routing nd))\<rparr>)"
    using inv_routing_exec [of "nd\<lparr>nd_routing := add_peer (pr_blake3 P) now peer (nd_routing nd)\<rparr>" "UnblacklistPeer peer"] by simp
  then have "node_inv (nd\<lparr>nd_sessions := hm_insert peer s (nd_sessions nd), nd_peer_pubkeys := hm_insert peer pub (nd_peer_pubkeys nd),
      nd_routing := unblacklist_peer peer (add_peer (pr_blake3 P) now peer (nd_routing nd)),
      nd_reputation := pardon peer (nd_reputation nd), nd_peer_last_hb := hm_insert peer now (nd_peer_last_hb nd)\<rparr>)"
    using assms(2,3) by (simp add: node_inv_defs)
  then show ?thesis
    unfolding establish_session_def Let_def send_peer_info_def by (intro inv_send_control inv_flush)
qed

lemma inv_initiator_start: "node_inv nd \<Longrightarrow> node_inv (snd (initiator_start P esk nonce key nd))"
  by (simp add: initiator_start_def Let_def split_def inv_send_handshake)

lemma inv_responder_start: "node_inv nd \<Longrightarrow> node_inv (snd (responder_start P ok esk nonce p wire nd))"
  by (simp add: responder_start_def Let_def split_def inv_send_handshake inv_authorize
      split: handshake_wire_frame.split handshake_frame_type.split outcome.split)

lemma inv_rename: "node_inv nd \<Longrightarrow> node_inv (nd\<lparr>nd_transport := rename_peer a b (nd_transport nd)\<rparr>)"
  by (rule inv_transport) (simp, rule tcp.inv_step [OF node_invD(3) tcp_rename])

lemma session_for_peer [simp]: "se_peer_id (session_for key role p) = p"
  by (simp add: session_for_def)

lemma inv_initiator_finish:
  assumes "node_inv nd" "fst (initiator_finish P ok now key hs wire nd) \<noteq> Some (nd_self_id nd)"
  shows "node_inv (snd (initiator_finish P ok now key hs wire nd))"
  using assms
  by (auto simp: initiator_finish_def Let_def split_def inv_authorize inv_send_handshake
      intro!: inv_establish inv_rename
      split: option.splits handshake_wire_frame.splits handshake_frame_type.splits outcome.splits if_splits)

lemma inv_responder_finish:
  assumes "node_inv nd" "peer \<noteq> nd_self_id nd"
  shows "node_inv (snd (responder_finish P now peer hs pub wire nd))"
  using assms
  by (auto simp: responder_finish_def intro!: inv_establish split: option.split handshake_wire_frame.split outcome.split)

end
