(* ===== verification/Packet_Delivery.thy ===== *)
theory Packet_Delivery
  imports Example_Mesh
begin

text \<open>
  From the TUN device of one node to that of another, and to the internet uplink of a gateway: the
  mesh frames of a packet, their reassembly at the destination, and the theorems over whole paths.
\<close>

section \<open>The mesh frames of a packet\<close>

definition mesh_frame :: "node_id \<Rightarrow> node_id \<Rightarrow> u8 \<Rightarrow> u8 \<Rightarrow> bytes \<Rightarrow> mesh_data_frame" where
  "mesh_frame src dst ttl flags payload =
     \<lparr>mdf_src_id = src, mdf_dst_id = dst, mdf_session_id = 0, mdf_ttl = ttl, mdf_flags = flags, mdf_payload = payload\<rparr>"

lemma mesh_frame_fields [simp]:
  "mdf_src_id (mesh_frame src dst ttl flags p) = src" "mdf_dst_id (mesh_frame src dst ttl flags p) = dst"
  "mdf_ttl (mesh_frame src dst ttl flags p) = ttl" "mdf_flags (mesh_frame src dst ttl flags p) = flags"
  "mdf_payload (mesh_frame src dst ttl flags p) = p"
  by (simp_all add: mesh_frame_def)

definition mesh_frames :: "node_id \<Rightarrow> node_id \<Rightarrow> u8 \<Rightarrow> u8 \<Rightarrow> bytes \<Rightarrow> u32 \<Rightarrow> mesh_data_frame list" where
  "mesh_frames src dst ttl flags payload fid =
     (if length payload > 1160
      then map (\<lambda>frag. mesh_frame src dst ttl (flags OR IS_FRAGMENT) (FragmentFrame_serialize frag)) (fragment_packet payload fid)
      else [mesh_frame src dst ttl flags payload])"

lemma send_mesh_data_eq:
  "send_mesh_data P now hop src dst ttl flags payload nd =
     fold (send_mesh P now hop) (mesh_frames src dst ttl flags payload (nd_frag_id nd))
       (if length payload > 1160 then nd\<lparr>nd_frag_id := nd_frag_id nd + 1\<rparr> else nd)"
  by (simp add: send_mesh_data_def mesh_frames_def mesh_frame_def next_frag_id_def MAX_FRAGMENT_PAYLOAD_def
      fold_map comp_def)

definition plain_flags :: "u8 \<Rightarrow> bool" where
  "plain_flags flags \<longleftrightarrow> flags \<in> {0, IS_INTERNET, IS_INTERNET OR IS_E2E}"

lemmas flag_defs = IS_FRAGMENT_def IS_INTERNET_def IS_E2E_def IS_CONTROL_def IS_LAST_FRAGMENT_def
  REQUIRES_ACK_def IS_ACK_def DataFlags_all_def DataFlags_contains_def

lemma plain_flags_facts:
  assumes "plain_flags flags"
  shows "\<not> DataFlags_contains flags IS_FRAGMENT" "\<not> DataFlags_contains flags IS_CONTROL"
    "\<not> DataFlags_contains (flags OR IS_FRAGMENT) IS_CONTROL" "DataFlags_contains (flags OR IS_FRAGMENT) IS_FRAGMENT"
    "DataFlags_contains (flags OR IS_FRAGMENT) IS_INTERNET = DataFlags_contains flags IS_INTERNET"
    "DataFlags_contains (flags OR IS_FRAGMENT) IS_E2E = DataFlags_contains flags IS_E2E"
    "flags AND DataFlags_all = flags" "(flags OR IS_FRAGMENT) AND DataFlags_all = flags OR IS_FRAGMENT"
  using assms by (auto simp: plain_flags_def flag_defs)

lemma fragments_serial:
  assumes "length data < 65536" "f \<in> fragments data fid"
  shows "FragmentFrame_deserialize (FragmentFrame_serialize f) = Some f" "length (FragmentFrame_serialize f) < 65536"
proof -
  obtain k where k: "k < length data" "f = fragment_at data fid (of_nat (length data)) k"
    using assms(2) fragment_loop_at by (metis fragment_packet_loop)
  show "FragmentFrame_deserialize (FragmentFrame_serialize f) = Some f"
    using fragment_at_facts(2,6) [OF assms(1) k(1)] k(2) assms(1)
    by (intro FragmentFrame_deserialize_serialize) (simp add: slice_of_def chunk_of_def unat_of_nat)
  show "length (FragmentFrame_serialize f) < 65536"
    using fragment_at_facts(5) [OF assms(1) k(1), of fid "of_nat (length data)"] k(2)
    by (simp add: FragmentFrame_serialize_def)
qed

lemma fragment_loop_distinct:
  assumes "length data < 65536"
  shows "distinct (fragment_loop data fid tlen offset)"
proof (induction offset rule: fragment_loop_induct [of data])
  case (step offset)
  have "fragment_at data fid tlen offset \<notin> set (fragment_loop data fid tlen (min (offset + 1200) (length data)))"
  proof
    assume "fragment_at data fid tlen offset \<in> set (fragment_loop data fid tlen (min (offset + 1200) (length data)))"
    then obtain k where "k \<ge> min (offset + 1200) (length data)" "k < length data"
      "fragment_at data fid tlen offset = fragment_at data fid tlen k"
      using fragment_loop_at by blast
    then show False using fragment_at_facts(3) [OF assms] step.hyps by (metis less_add_same_cancel1 min_le_iff_disj not_le zero_less_numeral)
  qed
  with step show ?case by (simp add: fragment_loop_step fragment_at_def)
qed (simp add: fragment_loop_end)

lemma mesh_frames_sendable:
  assumes "wf_node_id src" "wf_node_id dst" "plain_flags flags" "length payload < 65536" "m \<in> set (mesh_frames src dst ttl flags payload fid)"
  shows "sendable m \<and> mdf_dst_id m = dst \<and> mdf_ttl m = ttl"
  using assms plain_flags_facts(7,8) [OF assms(3)] fragments_serial(2) [OF assms(4)]
  by (auto simp: mesh_frames_def mesh_frame_def sendable_def wf_mesh_data_frame_def split: if_splits)

lemma one_less_pow: "(one_less ^^ k) (mesh_frame src dst ttl flags p) = mesh_frame src dst (ttl - of_nat k) flags p"
  by (induction k) (simp_all add: one_less_def mesh_frame_def)

lemma mesh_frames_one_less:
  "map (one_less ^^ k) (mesh_frames src dst ttl flags payload fid) = mesh_frames src dst (ttl - of_nat k) flags payload fid"
  by (simp add: mesh_frames_def one_less_pow)

section \<open>At the destination\<close>

text \<open>Arrivals change the sessions, the reassembly buffers and two counters until a packet is complete.\<close>

definition quiet :: "node \<Rightarrow> node \<Rightarrow> bool" where
  "quiet nd nd' \<longleftrightarrow>
     (\<exists>ss ra pf bf. nd' = nd\<lparr>nd_sessions := ss, nd_reassemblers := ra, nd_packets_forwarded := pf, nd_bytes_forwarded := bf\<rparr>)"

lemma quiet_trans: "quiet a b \<Longrightarrow> quiet b c \<Longrightarrow> quiet a c"
  unfolding quiet_def by (elim exE) (simp, blast)

lemma quietI:
  "nd' = nd\<lparr>nd_sessions := ss, nd_reassemblers := ra, nd_packets_forwarded := pf, nd_bytes_forwarded := bf\<rparr> \<Longrightarrow> quiet nd nd'"
  unfolding quiet_def by blast

lemma quiet_arrival:
  "quiet nd ((count_forwarded p (nd\<lparr>nd_sessions := ss\<rparr>))\<lparr>nd_reassemblers := ra\<rparr>)"
  "quiet nd (count_forwarded p (nd\<lparr>nd_sessions := ss\<rparr>))"
  by (rule quietI [where ss = ss and ra = ra and pf = "nd_packets_forwarded nd + 1"
        and bf = "nd_bytes_forwarded nd + of_nat (length p)"], simp add: count_forwarded_def)
    (rule quietI [where ss = ss and ra = "nd_reassemblers nd" and pf = "nd_packets_forwarded nd + 1"
        and bf = "nd_bytes_forwarded nd + of_nat (length p)"], simp add: count_forwarded_def)

lemma quiet_fields:
  assumes "quiet nd nd'"
  shows "nd_self_id nd' = nd_self_id nd" "nd_tun_out nd' = nd_tun_out nd" "nd_link_out nd' = nd_link_out nd"
    "nd_gw_engine nd' = nd_gw_engine nd" "nd_is_gateway nd' = nd_is_gateway nd" "nd_seed nd' = nd_seed nd"
    "nd_internet_link nd' = nd_internet_link nd" "nd_mesh_ipv4 nd' = nd_mesh_ipv4 nd" "nd_routing nd' = nd_routing nd"
    "nd_transport nd' = nd_transport nd"
  using assms unfolding quiet_def by auto

definition arrive :: "primitives \<Rightarrow> ipv6 option \<Rightarrow> instant \<Rightarrow> node_id \<Rightarrow> u8 \<Rightarrow> bytes \<Rightarrow> node \<Rightarrow> node option" where
  "arrive P uplink now src flags packet nd =
     (case open_sealed P flags packet nd of
        None \<Rightarrow> Some nd
      | Some packet \<Rightarrow> deliver_packet P uplink now src flags packet nd)"

definition reassembler_for :: "node_id \<Rightarrow> node \<Rightarrow> reassembler" where
  "reassembler_for src nd = (case hm_get (nd_reassemblers nd) src of Some r \<Rightarrow> r | None \<Rightarrow> Reassembler_new)"

lemma handle_data_local:
  assumes "hm_get (nd_sessions nd) from_peer = Some r" "Session_decrypt_frame (pr_aead P) f r = (Ok f', r')"
    and "MeshDataFrame_decode (tf_payload f') = Ok (m, [])" "mdf_dst_id m = nd_self_id nd"
    and "\<not> DataFlags_contains (mdf_flags m) IS_CONTROL"
  shows "handle_data P uplink now from_peer f nd =
    (case reassemble_or_deliver now (mdf_src_id m) (mdf_flags m) (mdf_payload m)
            (count_forwarded (mdf_payload m) (nd\<lparr>nd_sessions := hm_insert from_peer r' (nd_sessions nd)\<rparr>)) of
       (None, nd) \<Rightarrow> Some nd
     | (Some packet, nd) \<Rightarrow> arrive P uplink now (mdf_src_id m) (mdf_flags m) packet nd)"
  using assms unfolding arrive_def by (simp add: handle_data_def handle_local_def Let_def)

lemma reassemble_fragment:
  assumes "length data < 65536" "f \<in> fragments data fid" "DataFlags_contains flags IS_FRAGMENT"
  shows "reassemble_or_deliver now src flags (FragmentFrame_serialize f) nd =
    (fst (Reassembler_insert now f (reassembler_for src nd)),
     nd\<lparr>nd_reassemblers := hm_insert src (snd (Reassembler_insert now f (reassembler_for src nd))) (nd_reassemblers nd)\<rparr>)"
  using assms(3) fragments_serial(1) [OF assms(1,2)]
  by (simp add: reassemble_or_deliver_def reassembler_for_def Let_def split_def)

lemma receive_one: "receive_all P uplink now from_peer [f] nd = handle_data P uplink now from_peer f nd"
  by (cases "handle_data P uplink now from_peer f nd") simp_all

lemma fragments_arrive:
  assumes len: "length data < 65536" and fl: "DataFlags_contains flags IS_FRAGMENT" "\<not> DataFlags_contains flags IS_CONTROL"
  shows "carries (pr_aead P) r fs (map (\<lambda>frag. mesh_frame src (nd_self_id nd) ttl flags (FragmentFrame_serialize frag)) frs) \<Longrightarrow>
    hm_get (nd_sessions nd) from_peer = Some r \<Longrightarrow> frs \<noteq> [] \<Longrightarrow> distinct frs \<Longrightarrow>
    S \<union> set frs = fragments data fid \<Longrightarrow> S \<inter> set frs = {} \<Longrightarrow> holds_fragments data fid S (reassembler_for src nd) \<Longrightarrow>
    \<exists>nd'. quiet nd nd' \<and> receive_all P uplink now from_peer fs nd = arrive P uplink now src flags data nd'"
proof (induction frs arbitrary: fs nd r S)
  case (Cons x frs)
  let ?m = "mesh_frame src (nd_self_id nd) ttl flags (FragmentFrame_serialize x)"
  from Cons.prems(1) obtain f fs' r' f' where f: "fs = f # fs'" "Session_decrypt_frame (pr_aead P) f r = (Ok f', r')"
    "MeshDataFrame_decode (tf_payload f') = Ok (?m, [])"
    and cs: "carries (pr_aead P) r' fs' (map (\<lambda>frag. mesh_frame src (nd_self_id nd) ttl flags (FragmentFrame_serialize frag)) frs)"
    by (cases fs) auto
  let ?nd1 = "count_forwarded (FragmentFrame_serialize x) (nd\<lparr>nd_sessions := hm_insert from_peer r' (nd_sessions nd)\<rparr>)"
  let ?ri = "Reassembler_insert now x (reassembler_for src nd)"
  let ?nd2 = "?nd1\<lparr>nd_reassemblers := hm_insert src (snd ?ri) (nd_reassemblers ?nd1)\<rparr>"
  have x: "x \<in> fragments data fid" using Cons.prems(5) by auto
  have rf: "reassembler_for src ?nd1 = reassembler_for src nd" by (simp add: reassembler_for_def count_forwarded_def)
  have q: "quiet nd ?nd2" by (rule quiet_arrival)
  have step: "handle_data P uplink now from_peer f nd =
      (case fst ?ri of None \<Rightarrow> Some ?nd2 | Some packet \<Rightarrow> arrive P uplink now src flags packet ?nd2)"
    using handle_data_local [OF Cons.prems(2) f(2,3), of uplink now] fl reassemble_fragment [OF len x fl(1), of now src ?nd1] rf
    by (simp split: option.split)
  have S: "S \<subseteq> fragments data fid" using Cons.prems(5) by auto
  note ins = insert_fragment [OF len S x Cons.prems(7), of now]
  show ?case
  proof (cases "frs = []")
    case True
    then have "insert x S = fragments data fid" "fs' = []" using Cons.prems(5) cs by (auto elim: carries.elims)
    then have "receive_all P uplink now from_peer fs nd = arrive P uplink now src flags data ?nd2"
      unfolding f(1) using ins step by (simp only: receive_one) simp
    with q show ?thesis by blast
  next
    case False
    then obtain y where "y \<in> set frs" by (cases frs) auto
    then have "y \<notin> insert x S" "y \<in> fragments data fid" using Cons.prems(4-6) by auto
    then have "insert x S \<noteq> fragments data fid" by blast
    then have i: "fst ?ri = None" "holds_fragments data fid (insert x S) (snd ?ri)" using ins by simp_all
    have n2: "nd_self_id ?nd2 = nd_self_id nd" "hm_get (nd_sessions ?nd2) from_peer = Some r'" "reassembler_for src ?nd2 = snd ?ri"
      by (simp_all add: count_forwarded_def reassembler_for_def)
    have "\<exists>nd'. quiet ?nd2 nd' \<and> receive_all P uplink now from_peer fs' ?nd2 = arrive P uplink now src flags data nd'"
    proof (rule Cons.IH [where S = "insert x S" and r = r'])
      show "insert x S \<union> set frs = fragments data fid" "insert x S \<inter> set frs = {}"
        using Cons.prems(4-6) by auto
      show "distinct frs" using Cons.prems(4) by simp
    qed (simp_all only: n2 cs i(2) False not_False_eq_True)
    then obtain nd' where "quiet ?nd2 nd'" "receive_all P uplink now from_peer fs' ?nd2 = arrive P uplink now src flags data nd'"
      by blast
    with step i(1) f(1) quiet_trans [OF q] show ?thesis by (intro exI [of _ nd']) simp
  qed
qed simp

lemma single_frame_arrives:
  assumes "plain_flags flags" "length data \<le> 1160" "hm_get (nd_sessions nd) from_peer = Some r"
    and "carries (pr_aead P) r fs (mesh_frames src (nd_self_id nd) ttl flags data fid)"
  shows "\<exists>nd'. quiet nd nd' \<and> receive_all P uplink now from_peer fs nd = arrive P uplink now src flags data nd'"
proof -
  obtain f f' r' where f: "fs = [f]" "Session_decrypt_frame (pr_aead P) f r = (Ok f', r')"
    "MeshDataFrame_decode (tf_payload f') = Ok (mesh_frame src (nd_self_id nd) ttl flags data, [])"
    using assms(2,4) by (cases fs; cases "tl fs") (auto simp: mesh_frames_def)
  let ?nd = "count_forwarded data (nd\<lparr>nd_sessions := hm_insert from_peer r' (nd_sessions nd)\<rparr>)"
  have "receive_all P uplink now from_peer fs nd = arrive P uplink now src flags data ?nd"
    unfolding f(1) receive_one
    using handle_data_local [OF assms(3) f(2,3), of uplink now] plain_flags_facts(1,2) [OF assms(1)]
    by (simp add: reassemble_or_deliver_def)
  then show ?thesis using quiet_arrival(2) by blast
qed

lemma packet_arrives:
  assumes "plain_flags flags" "length data < 65536" "hm_get (nd_sessions nd) from_peer = Some r"
    and "carries (pr_aead P) r fs (mesh_frames src (nd_self_id nd) ttl flags data fid)"
    and "hm_get (ra_buffers (reassembler_for src nd)) fid = None"
  shows "\<exists>nd' fl. quiet nd nd' \<and> fl \<in> {flags, flags OR IS_FRAGMENT}
    \<and> receive_all P uplink now from_peer fs nd = arrive P uplink now src fl data nd'"
proof (cases "length data > 1160")
  case True
  let ?frs = "fragment_packet data fid"
  have "concat (map ff_payload ?frs) = data" by (simp add: fragment_packet_loop fragment_loop_concat)
  then have "?frs \<noteq> []" using True by auto
  moreover have "distinct ?frs" using fragment_loop_distinct [OF assms(2)] by (simp add: fragment_packet_loop)
  moreover have "holds_fragments data fid {} (reassembler_for src nd)" using assms(5) by (simp add: holds_fragments_def)
  moreover have "carries (pr_aead P) r fs
      (map (\<lambda>frag. mesh_frame src (nd_self_id nd) ttl (flags OR IS_FRAGMENT) (FragmentFrame_serialize frag)) ?frs)"
    using assms(4) True by (simp add: mesh_frames_def)
  ultimately have "\<exists>nd'. quiet nd nd' \<and> receive_all P uplink now from_peer fs nd = arrive P uplink now src (flags OR IS_FRAGMENT) data nd'"
    using assms(3) plain_flags_facts(3,4) [OF assms(1)] by (intro fragments_arrive [OF assms(2), where S = "{}"]) simp_all
  then show ?thesis by blast
next
  case False
  then have "length data \<le> 1160" by simp
  from single_frame_arrives [OF assms(1) this assms(3,4)] show ?thesis by blast
qed

section \<open>From TUN to TUN\<close>

lemma tun_sends:
  assumes "crypto_ok P" "tun_route packet nd = Some (dst, hop, flags0)"
    and "seal_for_gateway P esk nonce dst flags0 packet nd = (flags, payload)"
    and "\<forall>m\<in>set (mesh_frames (nd_self_id nd) dst 8 flags payload (nd_frag_id nd)). sendable m"
    and "can_send nd hop c r (length (mesh_frames (nd_self_id nd) dst 8 flags payload (nd_frag_id nd)))"
  shows "\<exists>fs. sent_on (handle_tun P esk nonce now packet nd) c = sent_on nd c @ fs
    \<and> carries (pr_aead P) r fs (mesh_frames (nd_self_id nd) dst 8 flags payload (nd_frag_id nd))"
proof -
  let ?ms = "mesh_frames (nd_self_id nd) dst 8 flags payload (nd_frag_id nd)"
  let ?nd = "if length payload > 1160 then nd\<lparr>nd_frag_id := nd_frag_id nd + 1\<rparr> else nd"
  have cs: "can_send ?nd hop c r (length ?ms)" "sent_on ?nd c = sent_on nd c"
    using assms(5) can_send_cong [of ?nd nd hop c] by simp_all
  obtain s where "hm_get (nd_sessions nd) hop = Some s" using assms(5) by (auto simp: can_send_def)
  then have "handle_tun P esk nonce now packet nd =
      count_forwarded packet (fold (send_mesh P now hop) ?ms ?nd)"
    using assms(2,3) send_mesh_data_eq [of P now hop "nd_self_id nd" dst 8 flags payload nd]
    by (simp add: handle_tun_def count_forwarded_def Let_def)
  then have "sent_on (handle_tun P esk nonce now packet nd) c = sent_on (fold (send_mesh P now hop) ?ms ?nd) c"
    by (simp add: sent_on_def count_forwarded_def)
  with send_meshes [OF assms(1,4) cs(1), of now] cs(2) show ?thesis by metis
qed

text \<open>What is asked of two nodes and the relays between them.\<close>

definition connected_by ::
  "node \<Rightarrow> node_id \<Rightarrow> conn \<Rightarrow> relay list \<Rightarrow> node_id \<Rightarrow> node \<Rightarrow> nat \<Rightarrow> bool" where
  "connected_by a hop c rs from_peer b n \<longleftrightarrow>
     wf_node_id (nd_self_id a) \<and> wf_node_id (nd_self_id b) \<and> length rs \<le> 8
     \<and> (\<exists>r r_end. can_send a hop c r n \<and> path_ok (nd_self_id b) n rs r_end r
          \<and> hm_get (nd_sessions b) from_peer = Some r_end)
     \<and> hm_get (ra_buffers (reassembler_for (nd_self_id a) b)) (nd_frag_id a) = None"

abbreviation frames_of :: "node \<Rightarrow> node_id \<Rightarrow> u8 \<Rightarrow> bytes \<Rightarrow> mesh_data_frame list" where
  "frames_of nd dst flags payload \<equiv> mesh_frames (nd_self_id nd) dst 8 flags payload (nd_frag_id nd)"

abbreviation new_frames :: "node \<Rightarrow> node \<Rightarrow> conn \<Rightarrow> transport_frame list" where
  "new_frames nd nd' c \<equiv> drop (length (sent_on nd c)) (sent_on nd' c)"

lemma frames_reach:
  assumes "crypto_ok P" "plain_flags flags" "length payload < 65536"
    and "connected_by a hop c rs from_peer b (length (frames_of a (nd_self_id b) flags payload))"
    and sent: "\<And>r. can_send a hop c r (length (frames_of a (nd_self_id b) flags payload)) \<Longrightarrow>
      (\<forall>m\<in>set (frames_of a (nd_self_id b) flags payload). sendable m) \<Longrightarrow>
      \<exists>fs. sent_on a' c = sent_on a c @ fs \<and> carries (pr_aead P) r fs (frames_of a (nd_self_id b) flags payload)"
  shows "\<exists>fs b' fl. travel P now rs (new_frames a a' c) = Some fs \<and> quiet b b' \<and> fl \<in> {flags, flags OR IS_FRAGMENT}
    \<and> receive_all P uplink now from_peer fs b = arrive P uplink now (nd_self_id a) fl payload b'"
proof -
  let ?ms = "frames_of a (nd_self_id b) flags payload"
  obtain r r_end where c: "wf_node_id (nd_self_id a)" "wf_node_id (nd_self_id b)" "length rs \<le> 8"
    "can_send a hop c r (length ?ms)" "path_ok (nd_self_id b) (length ?ms) rs r_end r"
    "hm_get (nd_sessions b) from_peer = Some r_end"
    "hm_get (ra_buffers (reassembler_for (nd_self_id a) b)) (nd_frag_id a) = None"
    using assms(4) unfolding connected_by_def by blast
  have ms: "\<forall>m\<in>set ?ms. sendable m \<and> mdf_dst_id m = nd_self_id b \<and> length rs \<le> unat (mdf_ttl m)"
    using mesh_frames_sendable [OF c(1,2) assms(2,3)] c(3) by fastforce
  then obtain fs where fs: "sent_on a' c = sent_on a c @ fs" "carries (pr_aead P) r fs ?ms"
    using sent [OF c(4)] by blast
  from path_delivers [OF assms(1) c(5) fs(2) ms, of now] obtain fs' where
    fs': "travel P now rs fs = Some fs'" "carries (pr_aead P) r_end fs' (map (one_less ^^ length rs) ?ms)" by blast
  from packet_arrives [OF assms(2,3) c(6) fs'(2) [unfolded mesh_frames_one_less] c(7), of uplink now]
  obtain b' fl where "quiet b b'" "fl \<in> {flags, flags OR IS_FRAGMENT}"
    "receive_all P uplink now from_peer fs' b = arrive P uplink now (nd_self_id a) fl payload b'" by blast
  moreover have "new_frames a a' c = fs" using fs(1) by simp
  ultimately show ?thesis using fs'(1) by metis
qed

lemma view_version:
  assumes "wf_ip_view v"
  shows "packet_ip_version (ip_bytes v) = Some 4" "ipv4_destination (ip_bytes v) = Some (iv_dst v)"
    "of_be32 [ip_bytes v ! 16, ip_bytes v ! 17, ip_bytes v ! 18, ip_bytes v ! 19] = iv_dst v"
proof -
  have h: "ip_bytes v ! 0 = iv_head v ! 0" "drop_bit 4 (iv_head v ! 0) = 4" "20 \<le> length (ip_bytes v)"
    using assms wf_ip_viewD [OF assms] by (auto simp: wf_ip_view_def)
  show d: "of_be32 [ip_bytes v ! 16, ip_bytes v ! 17, ip_bytes v ! 18, ip_bytes v ! 19] = iv_dst v"
    using wf_ip_viewD(1) [OF assms] of_be32_be32 [of "iv_dst v"] by (simp add: ip_bytes_def nth_append be32_def be16_def)
  show "packet_ip_version (ip_bytes v) = Some 4"
    using h by (cases "ip_bytes v") (auto simp: packet_ip_version_def)
  show "ipv4_destination (ip_bytes v) = Some (iv_dst v)" using h d by (simp add: ipv4_destination_def)
qed

lemma tun_route_view:
  assumes "wf_ip_view v" "iv_dst v \<noteq> nd_mesh_ipv4 nd"
  shows "tun_route (ip_bytes v) nd = (case lookup_mesh_ip (iv_dst v) (nd_routing nd) of
    Some (dst, hop) \<Rightarrow> Some (dst, hop, 0) | None \<Rightarrow> gateway_or_peer nd)"
  using assms(2) view_version [OF assms(1)] wf_ip_viewD(2) [OF assms(1)] by (simp add: tun_route_def)

lemma example_connected:
  assumes "n \<le> 64"
  shows "connected_by example_source (example_node 2) 0 [(example_node 1, example_relay, example_node 3, 1)] (example_node 2)
      (example_daemon 3 [2] gw) n"
    "connected_by (example_daemon 3 [2] gw) (example_node 2) 0 [(example_node 3, example_relay, example_node 1, 0)] (example_node 2)
      example_source n"
proof -
  have links: "link_room (example_daemon self [2] gw) (example_node 2) 0 n" "link_room example_relay (example_node 3) 1 n"
    "link_room example_relay (example_node 1) 0 n" for self gw
    using assms by (simp_all add: link_room_def example_daemon_def example_links_def WRITE_QUEUE_def upt_rec)
  have sess: "paired (example_session p) (example_session q)" "counter_room (example_session p) n"
    "se_peer_id (example_session p) = example_node p" for p q
    using assms by (simp_all add: paired_def counter_room_def example_session_def SessionCipher_new_def MAX_NONCE_COUNTER_def)
  have fields: "nd_self_id (example_daemon self ps gw) = example_node self" "nd_routing (example_daemon self ps gw) = example_routes self"
    "nd_sessions (example_daemon self ps gw) = map (\<lambda>p. (example_node p, example_session p)) ps"
    "reassembler_for i (example_daemon self ps gw) = Reassembler_new" for self ps gw i
    by (simp_all add: example_daemon_def reassembler_for_def)
  show "connected_by example_source (example_node 2) 0 [(example_node 1, example_relay, example_node 3, 1)] (example_node 2)
      (example_daemon 3 [2] gw) n"
    using sess example_routing links
    by (auto simp: connected_by_def can_send_def fields Reassembler_new_def wf_node_id_def example_node_def intro!: exI)
  show "connected_by (example_daemon 3 [2] gw) (example_node 2) 0 [(example_node 3, example_relay, example_node 1, 0)] (example_node 2)
      example_source n"
    using sess example_routing links
    by (auto simp: connected_by_def can_send_def fields Reassembler_new_def wf_node_id_def example_node_def intro!: exI)
qed


abbreviation long_view :: ip_view where
  "long_view \<equiv> (example_view 0x0A4D0101 0x0A4D0303 4000 53)\<lparr>iv_rest := replicate 1300 7\<rparr>"


section \<open>Through the gateway and back\<close>

lemma gateway_delivers:
  assumes "wf_ip_view v" "nd_gw_engine b = Some eng" "nd_internet_link b"
    and "iv_dst v \<noteq> nd_mesh_ipv4 b" "\<not> non_unicast (iv_dst v)" "DataFlags_contains flags IS_INTERNET"
    and "translate_outbound now (ip_bytes v) eng = Some (Ok (port, p), eng1)"
  shows "deliver_packet P uplink now src flags (ip_bytes v) b = Some (link_send p (b\<lparr>nd_gw_engine := Some eng1\<rparr>))"
  using assms(2-7) view_version [OF assms(1)]
  by (simp add: deliver_packet_def forward_internet_v4_def nat_and_send_def)


abbreviation example_request :: ip_view where
  "example_request \<equiv> example_view 0x0A4D0101 0x01020304 4000 53"

lemma example_outbound:
  obtains eng1 where "translate_outbound t (ip_bytes example_request) (GatewayEngine_new 0xC0A80001)
    = Some (Ok (30000, ip_bytes (set_source 0xC0A80001 30000 example_request)), eng1)"
  using outbound_new_flow [of example_request "GatewayEngine_new 0xC0A80001" 30000 t]
  by (auto simp: GatewayEngine_new_def Inner_new_def PortPool_new_def PORT_MIN_def)

lemma example_route: "tun_route (ip_bytes example_request) example_source = Some (example_node 3, example_node 2, IS_INTERNET)"
proof -
  have "gateway_or_peer (example_daemon 1 [2] None) = Some (example_node 3, example_node 2, IS_INTERNET)"
    unfolding gateway_or_peer_def example_daemon_def by (simp, code_simp)
  then show ?thesis
    using example_routing(5) tun_route_view [OF wf_example_view, of _ "0x01020304"] by (simp add: example_daemon_def example_view_def)
qed


lemma return_sends:
  assumes "crypto_ok P" "hm_get (nd_sessions nd) hop = Some s"
    and "\<forall>m\<in>set (frames_of nd dst IS_INTERNET packet). sendable m"
    and "can_send nd hop c r (length (frames_of nd dst IS_INTERNET packet))"
  shows "\<exists>fs. sent_on (send_return P now dst hop packet nd) c = sent_on nd c @ fs
    \<and> carries (pr_aead P) r fs (frames_of nd dst IS_INTERNET packet)"
proof -
  let ?ms = "frames_of nd dst IS_INTERNET packet"
  let ?nd = "if length packet > 1160 then nd\<lparr>nd_frag_id := nd_frag_id nd + 1\<rparr> else nd"
  have cs: "can_send ?nd hop c r (length ?ms)" "sent_on ?nd c = sent_on nd c"
    using assms(4) can_send_cong [of ?nd nd hop c] by simp_all
  have "send_return P now dst hop packet nd = fold (send_mesh P now hop) ?ms ?nd"
    using assms(2) send_mesh_data_eq [of P now hop "nd_self_id nd" dst 8 IS_INTERNET packet nd]
    by (simp add: send_return_def)
  with send_meshes [OF assms(1,3) cs(1), of now] cs(2) show ?thesis by metis
qed

text \<open>
  Claim C2: the reply comes back: a reply that the gateway's Internet link receives for a flow that went
  out before is readdressed to the client of that flow, sent over the mesh, and written to the client's
  TUN device, as long as the flow has not been idle for longer than its timeout.
\<close>

theorem internet_reply_returns:
  assumes "crypto_ok P" "reachable nat_init nat_step eng"
    and "wf_ip_view v" "translate_outbound t (ip_bytes v) eng = Some (Ok (port, p), eng1)"
    and "list_all (traffic_within t (idle_timeout PROTO_ICMP (iv_proto v))) evs" "nat_run evs eng1 = Some eng2"
    and "wf_ip_view w" "iv_proto w = iv_proto v" "iv_dst_port w = port" "length (ip_bytes w) < 65536"
    and "nd_gw_engine g = Some eng2" "lookup_mesh_ip (iv_src v) (nd_routing g) = Some (nd_self_id a, hop)"
    and "reply = ip_bytes (set_destination (iv_src v) (iv_src_port v) w)"
    and "connected_by g hop c rs from_peer a (length (frames_of g (nd_self_id a) IS_INTERNET reply))"
    and "nd_gw_engine a = None"
  shows "\<exists>g' fs a'. handle_return P v6_engine now (ip_bytes w) g = Some g' \<and> travel P now rs (new_frames g g' c) = Some fs
    \<and> receive_all P uplink now from_peer fs a = Some a' \<and> nd_tun_out a' = nd_tun_out a @ [reply]"
proof -
  obtain eng3 where i: "translate_inbound now (ip_bytes w) eng2 = (Ok (iv_src v, reply), eng3)"
    using reply_delivered [OF assms(2-9), of now] assms(13) by blast
  let ?g = "g\<lparr>nd_gw_engine := Some eng3\<rparr>"
  have g': "handle_return P v6_engine now (ip_bytes w) g = Some (send_return P now (nd_self_id a) hop reply ?g)"
    using i assms(11,12) view_version(1) [OF assms(7)] wf_ip_viewD(2) [OF assms(7)]
    by (simp add: handle_return_def handle_return_v4_def Let_def)
  have pf: "plain_flags IS_INTERNET" by (simp add: plain_flags_def)
  have len: "length reply < 65536" using assms(10,13) by (simp add: ip_bytes_def set_destination_def adjust_transport_def seal_header_def)
  have conn: "connected_by ?g hop c rs from_peer a (length (frames_of ?g (nd_self_id a) IS_INTERNET reply))"
    using assms(14) can_send_cong [of ?g g hop c] by (simp add: connected_by_def)
  then obtain s where s: "hm_get (nd_sessions ?g) hop = Some s" by (auto simp: connected_by_def can_send_def)
  obtain fs a' fl where *: "travel P now rs (new_frames ?g (send_return P now (nd_self_id a) hop reply ?g) c) = Some fs" "quiet a a'"
    "fl \<in> {IS_INTERNET, IS_INTERNET OR IS_FRAGMENT}"
    "receive_all P uplink now from_peer fs a = arrive P uplink now (nd_self_id ?g) fl reply a'"
    using frames_reach [OF assms(1) pf len conn return_sends [OF assms(1) s]] by blast
  have v: "packet_ip_version reply = Some 4" using view_version(1) assms(7,13) by simp
  have fl: "\<not> DataFlags_contains fl IS_E2E" using *(3) by (auto simp: flag_defs)
  have "arrive P uplink now (nd_self_id ?g) fl reply a' = Some (write_tun reply a')"
    using fl v assms(15) quiet_fields(4) [OF *(2)]
    by (simp add: arrive_def open_sealed_def deliver_packet_def forward_internet_v4_def)
  moreover have "sent_on ?g c = sent_on g c" by (simp add: sent_on_def)
  ultimately show ?thesis using g' *(1,4) quiet_fields(2) [OF *(2)] by (simp add: write_tun_def)
qed

abbreviation example_response :: ip_view where
  "example_response \<equiv> example_view 0x01020304 0xC0A80001 53 30000"

theorem internet_reply_returns_witness:
  "\<exists>eng1 g' fs a'.
     translate_outbound 5 (ip_bytes example_request) (GatewayEngine_new 0xC0A80001)
       = Some (Ok (30000, ip_bytes (set_source 0xC0A80001 30000 example_request)), eng1)
     \<and> handle_return example_primitives False 9 (ip_bytes example_response) (example_daemon 3 [2] (Some eng1)) = Some g'
     \<and> travel example_primitives 9 [(example_node 3, example_relay, example_node 1, 0)]
         (new_frames (example_daemon 3 [2] (Some eng1)) g' 0) = Some fs
     \<and> receive_all example_primitives None 9 (example_node 2) fs example_source = Some a'
     \<and> nd_tun_out a' = [ip_bytes (set_destination 0x0A4D0101 4000 example_response)]"
proof -
  let ?reply = "ip_bytes (set_destination (iv_src example_request) (iv_src_port example_request) example_response)"
  obtain eng1 where out: "translate_outbound 5 (ip_bytes example_request) (GatewayEngine_new 0xC0A80001)
      = Some (Ok (30000, ip_bytes (set_source 0xC0A80001 30000 example_request)), eng1)" by (rule example_outbound)
  let ?g = "example_daemon 3 [2] (Some eng1)"
  have r: "reachable nat_init nat_step (GatewayEngine_new 0xC0A80001)"
    by (rule reachable_init) (simp add: nat_init_def GatewayEngine_new_def)
  have views: "iv_proto example_response = iv_proto example_request" "iv_dst_port example_response = 30000"
    "iv_src example_request = 0x0A4D0101" "iv_src_port example_request = 4000" "length (ip_bytes example_response) < 65536"
    "length (ip_bytes (set_destination a p example_response)) \<le> 1160" for a p
    by (simp_all add: example_view_def ip_bytes_def set_destination_def adjust_transport_def seal_header_def)
  have g: "nd_gw_engine ?g = Some eng1" "nd_gw_engine example_source = None" "nd_tun_out example_source = []"
    "lookup_mesh_ip (iv_src example_request) (nd_routing ?g) = Some (nd_self_id example_source, example_node 2)"
    using example_routing(4) by (simp_all add: example_daemon_def views(3))
  have frames: "length (frames_of ?g (nd_self_id example_source) IS_INTERNET ?reply) \<le> 64"
    by (simp add: mesh_frames_def not_less [THEN iffD2, OF views(6)])
  have idle: "list_all (traffic_within 5 (idle_timeout PROTO_ICMP (iv_proto example_request))) []" "nat_run [] eng1 = Some eng1"
    by simp_all
  note returns = internet_reply_returns [OF example_crypto(1) r wf_example_view out idle wf_example_view views(1,2,5) g(1,4) refl
      example_connected(2) [OF frames] g(2), where uplink = None and v6_engine = False and now = 9]
  show ?thesis using out returns unfolding g(3) append_Nil views(3,4) by blast
qed

end
