(* ===== verification/Daemon_Steps.thy ===== *)
theory Daemon_Steps
  imports Node_Invariant Packet_Delivery
begin

text \<open>
  The daemon as a transition system: any interleaving of its event loop, its periodic tasks, the tasks
  that set up sessions and the tasks of the transport. What holds in every reachable state, what one
  frame can do to the routing table, and when the event loop panics.
\<close>

section \<open>The remaining periodic tasks\<close>

definition conntrack_gc :: "instant \<Rightarrow> node \<Rightarrow> node" where
  "conntrack_gc now nd =
     nd\<lparr>nd_gw_engine := map_option (cleanup_expired now) (nd_gw_engine nd),
        nd_gw_engine_v6 := map_option (cleanup_expired_v6 now) (nd_gw_engine_v6 nd)\<rparr>"

definition buffer_gc :: "instant \<Rightarrow> node \<Rightarrow> node" where
  "buffer_gc now nd = nd\<lparr>nd_send := (nd_send nd)\<lparr>ss_buffer := snd (SendBuffer_expire_all now (ss_buffer (nd_send nd)))\<rparr>\<rparr>"

text \<open>The sends of one flush: the frames to put back, and the transport after it.\<close>

fun flush_frames :: "node_id \<Rightarrow> transport_frame list \<Rightarrow> bool \<Rightarrow> tcp_transport \<Rightarrow> transport_frame list \<times> tcp_transport" where
  "flush_frames peer [] congested tt = ([], tt)"
| "flush_frames peer (f # fs) congested tt =
     (if congested then (let (re_queue, tt) = flush_frames peer fs True tt in (f # re_queue, tt))
      else (case transport_send peer f tt of
              (Some (Congested _), tt) \<Rightarrow> (let (re_queue, tt) = flush_frames peer fs True tt in (f # re_queue, tt))
            | (Some (PeerNotConnected _), tt) \<Rightarrow> (let (re_queue, tt) = flush_frames peer fs False tt in (f # re_queue, tt))
            | (_, tt) \<Rightarrow> flush_frames peer fs False tt))"

definition flush_peer :: "instant \<Rightarrow> node_id \<Rightarrow> node \<Rightarrow> node" where
  "flush_peer now peer nd =
     (let (buffered, sb) = SendBuffer_drain now peer (ss_buffer (nd_send nd));
          (re_queue, tt) = flush_frames peer buffered False (nd_transport nd)
      in nd\<lparr>nd_transport := tt, nd_send := (nd_send nd)\<lparr>ss_buffer := requeue now peer re_queue sb\<rparr>\<rparr>)"

text \<open>One round of \<^verbatim>\<open>run_buffer_flush\<close>.\<close>

definition buffer_flush :: "instant \<Rightarrow> node \<Rightarrow> node" where
  "buffer_flush now nd = fold (flush_peer now) (map fst (nd_sessions nd)) nd"

section \<open>Steps\<close>

text \<open>The state in which the daemon starts its tasks.\<close>

definition daemon_init :: "node \<Rightarrow> bool" where
  "daemon_init nd \<longleftrightarrow>
     (\<exists>pfx. nd_routing nd = set_self_mesh_ip (nd_mesh_ipv4 nd) (RoutingTable_new (nd_self_id nd) (nd_is_gateway nd) pfx))
     \<and> nd_transport nd = TcpTransport_new \<and> nd_sessions nd = [] \<and> nd_peer_pubkeys nd = []
     \<and> ss_buffer (nd_send nd) = SendBuffer_new DEFAULT_CAPACITY DEFAULT_TIMEOUT
     \<and> (\<forall>e. nd_gw_engine nd = Some e \<longrightarrow> nat_init e) \<and> (\<forall>e. nd_gw_engine_v6 nd = Some e \<longrightarrow> nat6_init e)"

text \<open>
  The handshakes of this node with itself are left out: a peer that proves to have the node's own key,
  or announces its id, is not a step.
\<close>

inductive daemon_step :: "primitives \<Rightarrow> node \<Rightarrow> node \<Rightarrow> bool" for P where
  from_tun: "daemon_step P nd (handle_tun P esk nonce now packet nd)"
| from_peer: "handle_frame P uplink now ms peer frame nd = Some nd' \<Longrightarrow> daemon_step P nd nd'"
| from_link: "handle_return P v6 now packet nd = Some nd' \<Longrightarrow> daemon_step P nd nd'"
| liveness: "daemon_step P nd (check_liveness P now nd)"
| advertise: "daemon_step P nd (advertise_routes P now nd)"
| heartbeats: "daemon_step P nd (snd (send_heartbeats ts last_fwd nd))"
| probes: "daemon_step P nd (probe_gateways nonces now nd)"
| gc_reassembly: "daemon_step P nd (reassembly_gc now nd)"
| gc_conntrack: "daemon_step P nd (conntrack_gc now nd)"
| gc_buffer: "daemon_step P nd (buffer_gc now nd)"
| flush: "daemon_step P nd (buffer_flush now nd)"
| broadcast: "daemon_step P nd (snd (run_broadcast_cycle P now nd))"
| expire_routes: "daemon_step P nd (nd\<lparr>nd_routing := snd (expire_stale now age (nd_routing nd))\<rparr>)"
| hs_initiate: "daemon_step P nd (snd (initiator_start P esk nonce key nd))"
| hs_respond: "daemon_step P nd (snd (responder_start P ok esk nonce peer wire nd))"
| hs_finish_initiator: "fst (initiator_finish P ok now key hs w nd) \<noteq> Some (nd_self_id nd) \<Longrightarrow>
    daemon_step P nd (snd (initiator_finish P ok now key hs w nd))"
| hs_finish_responder: "peer \<noteq> nd_self_id nd \<Longrightarrow> daemon_step P nd (snd (responder_finish P now peer hs pub w nd))"
| hs_channel: "daemon_step P nd (nd\<lparr>nd_hs_channels := channels\<rparr>)"
| pending: "daemon_step P nd (register_pending_outbound target key nd)"
| pending_done: "daemon_step P nd (clear_pending_outbound target key nd)"
| cancelled: "daemon_step P nd (snd (take_cancelled_outbound key nd))"
| reconnects: "daemon_step P nd (nd\<lparr>nd_reconnect := rm, nd_reconnect_tasks := targets\<rparr>)"
| transport: "tcp_step (nd_transport nd) tt \<Longrightarrow> daemon_step P nd (nd\<lparr>nd_transport := tt\<rparr>)"

inductive_cases daemon_stepE: "daemon_step P nd nd'"

section \<open>The invariant in every reachable state\<close>

lemma flush_frames_inv: "tcp_inv tt \<Longrightarrow> tcp_inv (snd (flush_frames peer fs congested tt))"
proof (induction peer fs congested tt rule: flush_frames.induct)
  case (2 peer f fs congested tt)
  obtain r tt' where s: "transport_send peer f tt = (r, tt')" by fastforce
  then have "tcp_inv tt'" using tcp.inv_step [OF "2.prems" tcp_send [where peer = peer and frame = f]] by simp
  with 2 s show ?case by (auto simp: Let_def split_def split: option.split transport_error.split)
qed simp

lemma inv_flush_peer: "node_inv nd \<Longrightarrow> node_inv (flush_peer now peer nd)"
proof -
  assume inv: "node_inv nd"
  obtain fs sb where d: "SendBuffer_drain now peer (ss_buffer (nd_send nd)) = (fs, sb)" by fastforce
  obtain rq tt where f: "flush_frames peer fs False (nd_transport nd) = (rq, tt)" by fastforce
  have "sb_inv (requeue now peer rq sb)"
    using sb_inv_requeue sb_inv_drain [OF node_invD(4) [OF inv], of now peer] d by simp
  moreover have "tcp_inv tt" using flush_frames_inv [OF node_invD(3) [OF inv], of peer fs False] f by simp
  ultimately show ?thesis
    unfolding flush_peer_def d f Let_def prod.case by (intro inv_send inv_transport inv) simp_all
qed

lemma inv_conntrack_gc: "node_inv nd \<Longrightarrow> node_inv (conntrack_gc now nd)"
  by (auto simp: node_inv_defs conntrack_gc_def cleanup_expired_def cleanup_expired_v6_def intro: ct_cleanup_correct(1))

lemma inv_broadcast: "node_inv nd \<Longrightarrow> node_inv (snd (run_broadcast_cycle P now nd))"
  by (auto simp: run_broadcast_cycle_def send_peer_info_routed_def Let_def intro!: inv_fold inv_routed_control)

lemma inv_daemon_step: "daemon_step P nd nd' \<Longrightarrow> node_inv nd \<Longrightarrow> node_inv nd'"
proof (induction rule: daemon_step.induct)
  case (expire_routes nd now age)
  then show ?case using inv_routing_exec [of nd "ExpireStale now age"] by simp
next
  case (transport nd tt)
  then show ?case using tcp.inv_step [OF node_invD(3)] by (intro inv_transport)
qed (auto simp: buffer_flush_def buffer_gc_def inv_flush_peer inv_conntrack_gc inv_broadcast inv_fold inv_send
    sb_inv_expire node_invD(4) inv_initiator_start inv_responder_start inv_initiator_finish inv_responder_finish keeps_inv
    intro: inv_frame inv_return)

lemma inv_daemon_init: "daemon_init nd \<Longrightarrow> node_inv nd"
proof -
  assume i: "daemon_init nd"
  then obtain pfx where r: "nd_routing nd
      = rt_exec example_blake3 (SetSelfMeshIp (nd_mesh_ipv4 nd)) (RoutingTable_new (nd_self_id nd) (nd_is_gateway nd) pfx)"
    by (auto simp: daemon_init_def)
  have "rt_inv (nd_routing nd)" unfolding r by (rule rt_inv_exec [OF rt_inv_new]) simp
  moreover have "tb_self_id (nd_routing nd) = nd_self_id nd" unfolding r rt_exec_self_id by (simp add: RoutingTable_new_def)
  moreover have "sb_init (ss_buffer (nd_send nd))" using i by (auto simp: daemon_init_def sb_init_def SendBuffer_new_def)
  then have "sb_inv (ss_buffer (nd_send nd))" by (rule send_buffers.inv_init)
  moreover have "tcp_inv (nd_transport nd)" using i by (intro tcp.inv_init) (simp add: daemon_init_def tcp_init_def)
  moreover have "engines_ok nd"
    using i nat_engine.inv_init nat6_engine.inv_init unfolding engines_ok_def daemon_init_def by blast
  ultimately show ?thesis
    using i by (simp add: node_inv_def sessions_keyed_def daemon_init_def)
qed

interpretation daemon: step_invariant daemon_init "daemon_step P" node_inv for P
  by unfold_locales (auto intro: inv_daemon_init inv_daemon_step)


definition example_start :: node where
  "example_start = (example_daemon 1 [] None)
     \<lparr>nd_routing := set_self_mesh_ip (nd_mesh_ipv4 (example_daemon 1 [] None))
        (RoutingTable_new (example_node 1) False \<lparr>v4_network = 0x0A4D0000, v4_prefix_len = 16\<rparr>),
      nd_transport := TcpTransport_new,
      nd_send := \<lparr>ss_buffer = SendBuffer_new DEFAULT_CAPACITY DEFAULT_TIMEOUT, ss_congestion_drops = 0\<rparr>\<rparr>"

lemma example_start_init: "daemon_init example_start"
  by (auto simp: example_start_def daemon_init_def example_daemon_def)


section \<open>What a frame can do to the routes\<close>

text \<open>Every route of \<open>tb'\<close> was there before, or leads through a node of \<open>S\<close>.\<close>

definition paths_within :: "node_id set \<Rightarrow> routing_table \<Rightarrow> routing_table \<Rightarrow> bool" where
  "paths_within S tb tb' \<longleftrightarrow>
     (\<forall>d e'. hm_get (tb_routes tb') d = Some e' \<longrightarrow>
        rt_next_hop e' \<in> S
        \<or> (\<exists>e. hm_get (tb_routes tb) d = Some e \<and> rt_next_hop e' = rt_next_hop e \<and> rt_hops e' = rt_hops e))"

lemma paths_withinI:
  "(\<And>d e'. hm_get (tb_routes tb') d = Some e' \<Longrightarrow> rt_next_hop e' \<in> S
     \<or> (\<exists>e. hm_get (tb_routes tb) d = Some e \<and> rt_next_hop e' = rt_next_hop e \<and> rt_hops e' = rt_hops e)) \<Longrightarrow> paths_within S tb tb'"
  by (simp add: paths_within_def)

lemma paths_within_refl [simp]: "paths_within S tb tb"
  by (simp add: paths_within_def)

lemma paths_within_trans: "paths_within S a b \<Longrightarrow> paths_within S b c \<Longrightarrow> paths_within S a c"
  unfolding paths_within_def by metis

lemma paths_fewer: "(\<And>d e. hm_get (tb_routes tb') d = Some e \<Longrightarrow> hm_get (tb_routes tb) d = Some e) \<Longrightarrow> paths_within S tb tb'"
  by (auto simp: paths_within_def)

lemma paths_apply_entries: "paths_within {p} (fst st) (fst (apply_entries B now sq p es st))"
  unfolding apply_entries_def
proof (induction es arbitrary: st)
  case (Cons a es)
  have "paths_within {p} (fst st) (fst (apply_entry B now sq p a st))"
    by (rule paths_withinI) (auto simp: apply_entry_get dest!: relax_Some split: if_splits)
  from paths_within_trans [OF this Cons.IH] show ?case by simp
qed simp

lemma paths_touch_peer: "paths_within {p} tb (fst (touch_peer B now sq p tb))"
  by (rule paths_withinI) (auto simp: touch_peer_def fresh_entry_def split: option.splits if_splits)

lemma paths_apply_update: "paths_within {p} tb (snd (apply_update B now u p tb))"
proof (cases "accepts_update u p tb")
  case True
  let ?tb = "tb\<lparr>tb_peer_max_seq := hm_insert p (ru_sequence u) (tb_peer_max_seq tb)\<rparr>"
  have "paths_within {p} tb (after_entries B now u p tb)"
    unfolding after_entries_def
    by (rule paths_within_trans [OF paths_within_trans [OF paths_fewer paths_touch_peer [of p ?tb B now "ru_sequence u"]] paths_apply_entries]) simp
  moreover have "paths_within {p} (after_entries B now u p tb) (snd (apply_update B now u p tb))"
    unfolding apply_update_accepted [OF True] Let_def by (rule paths_fewer) (simp split: if_splits)
  ultimately show ?thesis by (rule paths_within_trans)
next
  case False
  then show ?thesis by (simp add: apply_update_not_accepted paths_within_def)
qed

lemma routing_sent [simp]:
  "nd_routing (node_send now peer f nd) = nd_routing nd" "nd_routing (send_control now peer cf nd) = nd_routing nd"
  "nd_routing (send_single_mesh P now hop src dst ttl flags payload nd) = nd_routing nd"
  by (simp_all add: node_send_def send_control_def send_single_mesh_def Let_def split_def split: option.split outcome.split)

lemma routing_fold: "(\<And>x nd. nd_routing (f x nd) = nd_routing nd) \<Longrightarrow> nd_routing (fold f xs nd) = nd_routing nd"
  by (induction xs arbitrary: nd) simp_all

lemma routing_mesh_data [simp]: "nd_routing (send_mesh_data P now hop src dst ttl flags payload nd) = nd_routing nd"
  by (simp add: send_mesh_data_def Let_def next_frag_id_def routing_fold)

lemma routing_delivered [simp]:
  "nd_routing (count_forwarded payload nd) = nd_routing nd" "nd_routing (count_dropped nd) = nd_routing nd"
  "nd_routing (write_tun packet nd) = nd_routing nd" "nd_routing (link_send packet nd) = nd_routing nd"
  "nd_routing (dispatch_plugin_payload src kind body nd) = nd_routing nd"
  "nd_routing (handle_incoming_peer_info now src pub name source nd) = nd_routing nd"
  "nd_routing (handle_relay P now mesh nd) = nd_routing nd"
  "nd_routing (snd (reassemble_or_deliver now src flags payload nd)) = nd_routing nd"
  "nd_routing (snd (ensure_gateway_ipv6_engine uplink nd)) = nd_routing nd"
  by (simp_all add: count_forwarded_def count_dropped_def write_tun_def link_send_def dispatch_plugin_payload_def
      handle_incoming_peer_info_def handle_relay_def reassemble_or_deliver_def ensure_gateway_ipv6_engine_def Let_def split_def
      split: option.split)

lemma routing_routed_control [simp]: "nd_routing (handle_routed_control now src payload nd) = nd_routing nd"
  by (simp add: handle_routed_control_def split: outcome.split prod.split control_frame.split)

lemma routing_deliver:
  assumes "deliver_packet P uplink now src flags packet nd = Some nd'"
  shows "nd_routing nd' = nd_routing nd"
proof -
  have "nd_routing nd' = nd_routing nd" if "forward_internet_v4 now packet nd = Some nd'" for nd'
    using that by (auto simp: forward_internet_v4_def nat_and_send_def split: option.splits if_splits outcome.splits prod.splits)
  moreover obtain gw nd1 where e: "ensure_gateway_ipv6_engine uplink nd = (gw, nd1)" by fastforce
  then have "nd_routing nd1 = nd_routing nd" by (metis routing_delivered(9) snd_conv)
  then have "nd_routing nd' = nd_routing nd" if "forward_internet_v6 uplink now src packet nd = Some nd'" for nd'
    using that by (auto simp: forward_internet_v6_def e split: option.splits if_splits outcome.splits prod.splits)
  moreover have "nd_routing nd' = nd_routing nd" if "answer_echo P now src packet nd = Some nd'" for nd'
    using that by (auto simp: answer_echo_def split: option.splits outcome.splits)
  ultimately show ?thesis
    using assms by (auto simp: deliver_packet_def Let_def split: if_splits option.splits)
qed

lemma routing_data:
  assumes "handle_data P uplink now from_peer f nd = Some nd'"
  shows "nd_routing nd' = nd_routing nd"
proof -
  have local: "nd_routing nd' = nd_routing nd" if h: "handle_local P uplink now mesh nd = Some nd'" for mesh nd nd'
  proof -
    obtain r nd1 where e: "reassemble_or_deliver now (mdf_src_id mesh) (mdf_flags mesh) (mdf_payload mesh)
        (count_forwarded (mdf_payload mesh) nd) = (r, nd1)" by fastforce
    then have "nd_routing nd1 = nd_routing nd" by (metis routing_delivered(1,8) snd_conv)
    then show ?thesis
      using h by (auto simp: handle_local_def e dest!: routing_deliver split: if_splits option.splits)
  qed
  show ?thesis
    using assms by (auto simp: handle_data_def Let_def dest!: local split: option.splits prod.splits outcome.splits if_splits)
qed

lemma paths_remove_peer: "paths_within S tb (snd (remove_peer p tb))"
  by (rule paths_fewer) (auto simp: remove_peer_def remove_routes_via_def Let_def split: if_splits)

lemma paths_daemon_remove: "paths_within S (nd_routing nd) (nd_routing (daemon_remove_peer P now p nd))"
proof -
  have "nd_routing (fold (send_signed_update P now) adverts nd) = nd_routing nd" for adverts nd
    by (simp add: routing_fold send_signed_update_def)
  moreover have "nd_routing (schedule_reconnect p nd) = nd_routing nd" for nd
    by (simp add: schedule_reconnect_def split_def Let_def split: option.split)
  ultimately have "tb_routes (nd_routing (daemon_remove_peer P now p nd)) = tb_routes (snd (remove_peer p (nd_routing nd)))"
    by (simp add: daemon_remove_peer_def advertise_routes_def node_disconnect_def Let_def split_def
        generate_all_advertisements_def advertise_to_all_snd)
  then show ?thesis using paths_remove_peer [of S "nd_routing nd" p] by (simp add: paths_within_def)
qed

lemma paths_gateway_data:
  "paths_within S tb (update_gateway_load g l tb)" "paths_within S tb (update_gateway_rtt g r tb)"
  by (rule paths_withinI, auto simp: update_gateway_load_def update_gateway_rtt_def split: option.splits if_splits)+

lemma routing_handshake: "nd_routing (handle_handshake P p f nd) = nd_routing nd"
  by (simp add: handle_handshake_def resolve_simultaneous_def spawn_responder_def cancel_pending_outbound_for_ip_def
      node_disconnect_def Let_def split: option.split handshake_wire_frame.split handshake_frame_type.split)


definition example_signed :: route_update_frame where
  "example_signed = (example_update 1 5 [(1, 0, 0), (9, 1, 0)])\<lparr>ru_signature := replicate 64 1\<rparr>"

definition example_listener :: node where
  "example_listener = example_relay\<lparr>nd_peer_pubkeys := [(example_node 1, replicate 32 0)]\<rparr>"

lemma fresh_peer_allowed: "fst (allow now p (RateLimiter_new DEFAULT_BURST DEFAULT_RATE))"
  by (simp add: allow_def try_consume_def RateLimiter_new_def TokenBucket_new_def DEFAULT_BURST_def as_f64_def Let_def)


section \<open>Panics of the event loop\<close>

lemma decrypt_no_panic: "fst (Session_decrypt_frame A f s) \<noteq> Panic"
  by (auto simp: Session_decrypt_frame_def decrypt_in_place_detached_def nonce_counter_def Let_def split: option.split)

lemma ipv6_next_header_Ok: "ipv6_next_header packet = Ok proto \<Longrightarrow> 40 \<le> length packet"
  by (auto simp: ipv6_next_header_def IPV6_HEADER_LEN_def split: if_splits)

lemma ipv6_next_header_no_panic: "ipv6_next_header packet \<noteq> Panic"
  by (auto simp: ipv6_next_header_def IPV6_HEADER_LEN_def index_def and_then_eq_Panic)

lemma parse_flow_v6_no_panic: "parse_flow_v6 packet \<noteq> Panic"
  by (auto simp: parse_flow_v6_def icmpv6_id_def read_u16_def index_def IPV6_HEADER_LEN_def and_then_eq_Panic and_then_eq_Ok
      ipv6_next_header_no_panic dest!: ipv6_next_header_Ok)

lemma recalc_v6_no_panic: "recalc_transport_checksum_v6 packet proto \<noteq> Panic"
  by (auto simp: recalc_transport_checksum_v6_def IPV6_HEADER_LEN_def and_then_eq_Panic and_then_eq_Ok write_at_def Let_def)

lemma rewrite_src_v6_no_panic: "rewrite_src_v6 packet ip port \<noteq> Panic"
proof -
  have "write_at 8 (be128 ip) packet \<noteq> Panic" if "40 \<le> length packet" using that by (simp add: write_at_def)
  moreover have "rewrite_transport_src p proto port \<noteq> Panic" for p proto
    by (simp add: rewrite_transport_src_def rewrite_transport_port_def IPV6_HEADER_LEN_def write_at_def)
  ultimately show ?thesis
    by (auto simp: rewrite_src_v6_def and_then_eq_Panic ipv6_next_header_no_panic recalc_v6_no_panic dest: ipv6_next_header_Ok)
qed

lemma translate_outbound_v6_no_panic: "\<exists>r eng'. translate_outbound_v6 now packet src eng = Some (r, eng') \<and> r \<noteq> Panic"
proof -
  have track: "track6 now key inner \<noteq> None" for key inner
    by (simp add: track6_def ct_track_def Let_def split_def split: option.split)
  show ?thesis
    using parse_flow_v6_no_panic [of packet]
    by (auto simp: translate_outbound_v6_def track rewrite_src_v6_no_panic Let_def and_then_eq_Panic split: outcome.split option.split prod.split)
qed

lemma forward_v6_returns: "forward_internet_v6 uplink now src packet nd \<noteq> None"
proof -
  obtain gw nd1 where e: "ensure_gateway_ipv6_engine uplink nd = (gw, nd1)" by fastforce
  show ?thesis
  proof (cases gw)
    case (Some g)
    obtain r g' where "translate_outbound_v6 now packet src g = Some (r, g')" "r \<noteq> Panic"
      using translate_outbound_v6_no_panic by blast
    then show ?thesis using Some by (cases r) (auto simp: forward_internet_v6_def e)
  qed (simp add: forward_internet_v6_def e)
qed

lemma outbound_panic_short:
  assumes "nat_inv eng" "nat_and_send now packet eng nd = None"
  shows "unat (packet ! 0 AND 0x0f) < 5"
proof (rule ccontr)
  assume "\<not> unat (packet ! 0 AND 0x0f) < 5"
  then have no_panic: "rewrite_src packet ip port \<noteq> Panic" for ip port by (simp add: rewrite_no_panic(1))
  obtain r eng' where t: "translate_outbound now packet eng = Some (r, eng')"
    using nat_exec_inv [OF assms(1), of "Outbound now packet"] by auto
  then have "r = Panic" using assms(2) by (cases r) (auto simp: nat_and_send_def)
  with t show False
    using parse_flow_no_panic [of packet]
    by (auto simp: translate_outbound_def Let_def and_then_eq_Panic no_panic split: outcome.splits option.splits)
qed

lemma deliver_panic:
  assumes "engines_ok nd" "deliver_packet P uplink now src flags packet nd = None"
  shows "nd_gw_engine nd \<noteq> None \<and> unat (packet ! 0 AND 0x0f) < 5"
proof -
  have "answer_echo P now src packet nd \<noteq> None"
    using icmp_echo_reply_no_panic [of packet]
    by (auto simp: answer_echo_def split: outcome.split option.split)
  with assms show ?thesis
    using forward_v6_returns [of uplink now src packet nd] outbound_panic_short [of _ now packet nd]
    by (auto simp: deliver_packet_def forward_internet_v4_def engines_ok_def Let_def split: if_splits option.splits)
qed

lemma local_panic:
  assumes "engines_ok nd" "handle_local P uplink now mesh nd = None"
  shows "nd_gw_engine nd \<noteq> None \<and>
    (\<exists>packet nd1. deliver_packet P uplink now (mdf_src_id mesh) (mdf_flags mesh) packet nd1 = None \<and> unat (packet ! 0 AND 0x0f) < 5)"
proof -
  obtain r nd1 where e: "reassemble_or_deliver now (mdf_src_id mesh) (mdf_flags mesh) (mdf_payload mesh)
      (count_forwarded (mdf_payload mesh) nd) = (r, nd1)" by fastforce
  then have "nd_gw_engine nd1 = nd_gw_engine nd" "nd_gw_engine_v6 nd1 = nd_gw_engine_v6 nd"
    by (auto simp: reassemble_or_deliver_def count_forwarded_def Let_def split: if_splits option.splits prod.splits)
  moreover from this have "engines_ok nd1" using assms(1) by (simp add: engines_ok_def)
  moreover obtain packet where "deliver_packet P uplink now (mdf_src_id mesh) (mdf_flags mesh) packet nd1 = None"
    using assms(2) by (auto simp: handle_local_def e split: if_splits option.splits)
  ultimately show ?thesis using deliver_panic by metis
qed

lemma frame_panic:
  assumes "engines_ok nd" "handle_frame P uplink now ms p f nd = None"
  shows "nd_gw_engine nd \<noteq> None \<and> tf_frame_type f = Data \<and> hm_get (nd_sessions nd) p \<noteq> None
    \<and> (\<exists>packet src flags nd1. deliver_packet P uplink now src flags packet nd1 = None \<and> unat (packet ! 0 AND 0x0f) < 5)"
proof -
  obtain ok rl where rl: "allow (real now) p (nd_rate_limiter nd) = (ok, rl)" by fastforce
  let ?nd = "nd\<lparr>nd_rate_limiter := rl\<rparr>"
  have d: "tf_frame_type f = Data" "handle_data P uplink now p f ?nd = None"
    using assms(2) rl by (auto simp: handle_frame_def Let_def split: if_splits frame_type.splits)
  then obtain s where s: "hm_get (nd_sessions nd) p = Some s" by (auto simp: handle_data_def split: option.splits)
  obtain r s' where r: "Session_decrypt_frame (pr_aead P) f s = (r, s')" by fastforce
  let ?nd1 = "?nd\<lparr>nd_sessions := hm_insert p s' (nd_sessions ?nd)\<rparr>"
  have "r \<noteq> Panic" using decrypt_no_panic [of "pr_aead P" f s] r by simp
  with d(2) s r obtain mesh where "handle_local P uplink now mesh ?nd1 = None"
    using MeshDataFrame_decode_no_panic
    by (auto simp: handle_data_def Let_def split: outcome.splits if_splits)
  moreover have "engines_ok ?nd1" using assms(1) by (simp add: engines_ok_def)
  ultimately have "nd_gw_engine ?nd1 \<noteq> None"
    "\<exists>packet nd1. deliver_packet P uplink now (mdf_src_id mesh) (mdf_flags mesh) packet nd1 = None \<and> unat (packet ! 0 AND 0x0f) < 5"
    using local_panic by blast+
  then show ?thesis using d(1) s by auto
qed



text \<open>
  Claim C9: such a packet stops the gateway: there is a state of the address translation, reached by
  ordinary traffic, in which one 20-byte Internet packet with a header length field of 0 makes the event
  loop of the gateway panic, and with it the daemon.
\<close>

theorem one_packet_stops_gateway:
  "\<exists>eng. reachable nat_init nat_step eng
    \<and> (\<forall>P uplink now from_peer src ttl fid r fs b.
         nd_gw_engine b = Some eng \<and> nd_internet_link b \<and> nd_mesh_ipv4 b \<noteq> 0x01020304
         \<and> hm_get (nd_sessions b) from_peer = Some r
         \<and> carries (pr_aead P) r fs (mesh_frames src (nd_self_id b) ttl IS_INTERNET short_header_packet fid)
         \<longrightarrow> receive_all P uplink now from_peer fs b = None)"
proof -
  obtain eng where eng: "reachable nat_init nat_step eng" "\<And>now. \<exists>eng'. translate_outbound now short_header_packet eng = Some (Panic, eng')"
    using short_header_panics by blast
  have "receive_all P uplink now from_peer fs b = None"
    if b: "nd_gw_engine b = Some eng" "nd_internet_link b" "nd_mesh_ipv4 b \<noteq> 0x01020304" "hm_get (nd_sessions b) from_peer = Some r"
      and fs: "carries (pr_aead P) r fs (mesh_frames src (nd_self_id b) ttl IS_INTERNET short_header_packet fid)"
    for P uplink now from_peer src ttl fid r fs b
  proof -
    have [simp]: "length short_header_packet = 20" "packet_ip_version short_header_packet = Some 4"
      "ipv4_destination short_header_packet = Some 0x01020304" "\<not> non_unicast 0x01020304"
      "of_be32 [short_header_packet ! 16, short_header_packet ! 17, short_header_packet ! 18, short_header_packet ! 19] = 0x01020304"
      by code_simp+
    have pf: "plain_flags IS_INTERNET" by (simp add: plain_flags_def)
    obtain b' where *: "quiet b b'"
      "receive_all P uplink now from_peer fs b = arrive P uplink now src IS_INTERNET short_header_packet b'"
      using single_frame_arrives [OF pf _ b(4) fs, of uplink now] by auto
    have "DataFlags_contains IS_INTERNET IS_INTERNET" "\<not> DataFlags_contains IS_INTERNET IS_E2E" by (auto simp: flag_defs)
    moreover obtain eng' where "translate_outbound now short_header_packet eng = Some (Panic, eng')" using eng(2) by blast
    ultimately show ?thesis
      using *(2) b(1-3) quiet_fields [OF *(1)]
      by (simp add: arrive_def open_sealed_def deliver_packet_def forward_internet_v4_def nat_and_send_def)
  qed
  with eng(1) show ?thesis by blast
qed

lemma example_attack:
  "\<exists>fs. carries (pr_aead example_primitives) (example_session 2) fs
    (mesh_frames (example_node 9) (example_node 3) 8 IS_INTERNET short_header_packet 0)"
proof -
  let ?ms = "mesh_frames (example_node 9) (example_node 3) 8 IS_INTERNET short_header_packet 0"
  have len: "length short_header_packet = 20" by code_simp
  have "IS_INTERNET AND DataFlags_all = IS_INTERNET" by (simp add: flag_defs DataFlags_all_def)
  then have send: "\<forall>m\<in>set ?ms. sendable m"
    using len by (simp add: mesh_frames_def mesh_frame_def sendable_def wf_mesh_data_frame_def wf_node_id_def example_node_def)
  have room: "can_send (example_daemon 2 [3] None) (example_node 3) 0 (example_session 2) (length ?ms)"
    using len by (simp add: can_send_def mesh_frames_def link_room_def paired_def counter_room_def example_daemon_def
        example_links_def example_session_def SessionCipher_new_def MAX_NONCE_COUNTER_def WRITE_QUEUE_def)
  from send_meshes [OF example_crypto(1) send room] show ?thesis by blast
qed

theorem one_packet_stops_gateway_witness:
  "\<exists>eng fs. reachable nat_init nat_step eng
    \<and> receive_all example_primitives None 5 (example_node 2) fs (example_daemon 3 [2] (Some eng)) = None"
proof -
  obtain eng where eng: "reachable nat_init nat_step eng" "\<And>P uplink now from_peer src ttl fid r fs b.
      nd_gw_engine b = Some eng \<and> nd_internet_link b \<and> nd_mesh_ipv4 b \<noteq> 0x01020304
      \<and> hm_get (nd_sessions b) from_peer = Some r
      \<and> carries (pr_aead P) r fs (mesh_frames src (nd_self_id b) ttl IS_INTERNET short_header_packet fid)
      \<Longrightarrow> receive_all P uplink now from_peer fs b = None"
    using one_packet_stops_gateway by blast
  let ?b = "example_daemon 3 [2] (Some eng)"
  have b: "nd_gw_engine ?b = Some eng" "nd_internet_link ?b" "nd_mesh_ipv4 ?b \<noteq> 0x01020304" "nd_self_id ?b = example_node 3"
    "hm_get (nd_sessions ?b) (example_node 2) = Some (example_session 2)"
    by (simp_all add: example_daemon_def)
  obtain fs where "carries (pr_aead example_primitives) (example_session 2) fs
      (mesh_frames (example_node 9) (nd_self_id ?b) 8 IS_INTERNET short_header_packet 0)"
    using example_attack unfolding b(4) by blast
  then have "receive_all example_primitives None 5 (example_node 2) fs ?b = None"
    by (intro eng(2) conjI) (rule b | assumption)+
  with eng(1) show ?thesis by blast
qed

end
