(* ===== verification/Messaging_Store.thy ===== *)
theory Messaging_Store
  imports Control_Frames "HOL-Library.List_Lexorder" "HOL-Library.Product_Lexorder"
begin

text \<open>
  The wire format and the database of the messaging plugin (\<^verbatim>\<open>pim-messaging\<close>: \<^verbatim>\<open>wire.rs\<close>,
  \<^verbatim>\<open>storage.rs\<close>, \<^verbatim>\<open>schema.sql\<close>). The two tables are maps by their primary keys and every SQL statement of the
  source is an update of them; whether SQLite executes a statement is a parameter. The lemmas are the
  round trips of the wire format and of the text columns, what a preview looks like, how a page of the
  history relates to the whole conversation, and an invariant of the tables.
\<close>

type_synonym i64 = "64 word"

section \<open>Payloads on the wire\<close>

definition KIND_MESSAGE :: bytes where "KIND_MESSAGE = ascii ''messaging.msg''"
definition KIND_ACK :: bytes where "KIND_ACK = ascii ''messaging.ack''"

record decoded_message =
  dm_message_id :: bytes
  dm_timestamp_ms :: u64
  dm_ciphertext :: bytes

record decoded_ack =
  da_message_id :: bytes
  da_ack_kind :: u8

datatype messaging_error =
    MessageTooShort nat | AckTooShort nat | UnknownDirection bytes | UnknownStatus bytes
  | BodyTooLong | NoPublicKey node_id | EncryptFailed | Database

definition encode_message :: "bytes \<Rightarrow> u64 \<Rightarrow> bytes \<Rightarrow> bytes" where
  "encode_message message_id timestamp_ms ciphertext = message_id @ be64 timestamp_ms @ ciphertext"

definition decode_message :: "bytes \<Rightarrow> (messaging_error, decoded_message) outcome" where
  "decode_message body =
     (if length body < 24 then Err (MessageTooShort (length body))
      else and_then (subslice body 0 16) (\<lambda>message_id.
           and_then (subslice body 16 24) (\<lambda>ts.
           and_then (subslice body 24 (length body)) (\<lambda>ciphertext.
             Ok \<lparr>dm_message_id = message_id, dm_timestamp_ms = of_be64 ts, dm_ciphertext = ciphertext\<rparr>))))"

definition encode_ack :: "bytes \<Rightarrow> u8 \<Rightarrow> bytes" where
  "encode_ack message_id ack_kind = message_id @ [ack_kind]"

definition decode_ack :: "bytes \<Rightarrow> (messaging_error, decoded_ack) outcome" where
  "decode_ack body =
     (if length body < 17 then Err (AckTooShort (length body))
      else and_then (subslice body 0 16) (\<lambda>message_id.
           and_then (index body 16) (\<lambda>ack_kind.
             Ok \<lparr>da_message_id = message_id, da_ack_kind = ack_kind\<rparr>)))"

lemma message_roundtrip:
  "length mid = 16 \<Longrightarrow> decode_message (encode_message mid ts ct)
     = Ok \<lparr>dm_message_id = mid, dm_timestamp_ms = ts, dm_ciphertext = ct\<rparr>"
  by (simp add: decode_message_def encode_message_def)

lemma ack_roundtrip:
  "length mid = 16 \<Longrightarrow> decode_ack (encode_ack mid k) = Ok \<lparr>da_message_id = mid, da_ack_kind = k\<rparr>"
  by (simp add: decode_ack_def encode_ack_def nth_append)

lemma message_decoders_total: "decode_message body \<noteq> Panic" "decode_ack body \<noteq> Panic"
  by (simp_all add: decode_message_def decode_ack_def)

section \<open>Columns\<close>

datatype message_direction = DirSent | DirReceived
datatype message_status = StPending | StSent | StDelivered | StRead | StFailed
datatype ack_kind = AckDelivered | AckRead

fun MessageDirection_as_str :: "message_direction \<Rightarrow> bytes" where
  "MessageDirection_as_str DirSent = ascii ''sent''"
| "MessageDirection_as_str DirReceived = ascii ''received''"

definition MessageDirection_from_str :: "bytes \<Rightarrow> (messaging_error, message_direction) outcome" where
  "MessageDirection_from_str s =
     (if s = ascii ''sent'' then Ok DirSent
      else if s = ascii ''received'' then Ok DirReceived
      else Err (UnknownDirection s))"

fun MessageStatus_as_str :: "message_status \<Rightarrow> bytes" where
  "MessageStatus_as_str StPending = ascii ''pending''"
| "MessageStatus_as_str StSent = ascii ''sent''"
| "MessageStatus_as_str StDelivered = ascii ''delivered''"
| "MessageStatus_as_str StRead = ascii ''read''"
| "MessageStatus_as_str StFailed = ascii ''failed''"

definition MessageStatus_from_str :: "bytes \<Rightarrow> (messaging_error, message_status) outcome" where
  "MessageStatus_from_str s =
     (if s = ascii ''pending'' then Ok StPending
      else if s = ascii ''sent'' then Ok StSent
      else if s = ascii ''delivered'' then Ok StDelivered
      else if s = ascii ''read'' then Ok StRead
      else if s = ascii ''failed'' then Ok StFailed
      else Err (UnknownStatus s))"

fun AckKind_as_u8 :: "ack_kind \<Rightarrow> u8" where
  "AckKind_as_u8 AckDelivered = 1"
| "AckKind_as_u8 AckRead = 2"

definition AckKind_from_u8 :: "u8 \<Rightarrow> ack_kind option" where
  "AckKind_from_u8 v = (if v = 1 then Some AckDelivered else if v = 2 then Some AckRead else None)"

lemma column_roundtrips:
  "MessageDirection_from_str (MessageDirection_as_str d) = Ok d"
  "MessageStatus_from_str (MessageStatus_as_str s) = Ok s"
  "AckKind_from_u8 (AckKind_as_u8 k) = Some k"
proof -
  show "MessageDirection_from_str (MessageDirection_as_str d) = Ok d"
    by (cases d) (simp_all add: MessageDirection_from_str_def ascii_def)
  show "MessageStatus_from_str (MessageStatus_as_str s) = Ok s"
    by (cases s) (simp_all add: MessageStatus_from_str_def ascii_def)
  show "AckKind_from_u8 (AckKind_as_u8 k) = Some k"
    by (cases k) (simp_all add: AckKind_from_u8_def)
qed

section \<open>Characters of a string\<close>

text \<open>\<^verbatim>\<open>str::chars\<close> on the bytes of a string; the first byte of a character tells how many it has.\<close>

definition utf8_width :: "u8 \<Rightarrow> nat" where
  "utf8_width a = (if a < 0x80 then 1 else if a \<le> 0xDF then 2 else if a \<le> 0xEF then 3 else 4)"

lemma utf8_width_pos [simp]: "0 < utf8_width a"
  by (simp add: utf8_width_def)

fun utf8_chars :: "bytes \<Rightarrow> bytes list" where
  "utf8_chars [] = []"
| "utf8_chars (a # s) = (a # take (utf8_width a - 1) s) # utf8_chars (drop (utf8_width a - 1) s)"

definition preview_of :: "bytes \<Rightarrow> bytes" where
  "preview_of body =
     (let truncated = concat (take 80 (utf8_chars body))
      in map (\<lambda>b. if b = 10 then 32 else b) truncated)"

definition short_id :: "bytes \<Rightarrow> bytes" where
  "short_id hex = concat (take 8 (utf8_chars hex))"

definition utf8_char :: "bytes \<Rightarrow> bool" where
  "utf8_char c \<longleftrightarrow> c \<noteq> [] \<and> utf8_valid c \<and> length c = utf8_width (hd c)"

lemma utf8_char_append:
  assumes "utf8_char c"
  shows "utf8_valid (c @ t) = utf8_valid t"
proof -
  have *: "c \<noteq> []" "utf8_valid c" "length c = utf8_width (hd c)" using assms by (auto simp: utf8_char_def)
  consider a where "c = [a]" | a b where "c = [a, b]" | a b d where "c = [a, b, d]" | a b d e where "c = [a, b, d, e]"
    using *(1,3) by (cases c rule: utf8_valid.cases) (auto simp: utf8_width_def split: if_splits)
  then show ?thesis
  proof cases
    case (2 a b)
    with * show ?thesis by (cases t rule: utf8_valid.cases) (auto simp: utf8_width_def split: if_splits)
  next
    case (3 a b d)
    with * show ?thesis by (cases t rule: utf8_valid.cases) (auto simp: utf8_width_def split: if_splits)
  qed (use * in \<open>auto simp: utf8_width_def utf8_valid_ascii_Cons split: if_splits\<close>)
qed

lemma utf8_valid_split:
  "utf8_valid (a # s) \<Longrightarrow> utf8_char (a # take (utf8_width a - 1) s) \<and> utf8_valid (drop (utf8_width a - 1) s)"
  by (cases "a # s" rule: utf8_valid.cases) (auto simp: utf8_char_def utf8_width_def utf8_valid_ascii_Cons split: if_splits)

lemma utf8_chars_valid:
  "utf8_valid s \<Longrightarrow> (\<forall>c\<in>set (utf8_chars s). utf8_char c) \<and> concat (utf8_chars s) = s"
  by (induction s rule: utf8_chars.induct) (auto dest!: utf8_valid_split)

lemma utf8_valid_concat: "(\<And>c. c \<in> set cs \<Longrightarrow> utf8_char c) \<Longrightarrow> utf8_valid (concat cs)"
  by (induction cs) (auto simp: utf8_char_append)

lemma utf8_chars_concat: "(\<And>c. c \<in> set cs \<Longrightarrow> utf8_char c) \<Longrightarrow> utf8_chars (concat cs) = cs"
proof (induction cs)
  case (Cons c cs)
  then have "utf8_char c" by simp
  then obtain a t where "c = a # t" "length t = utf8_width a - 1" by (cases c) (auto simp: utf8_char_def)
  with Cons show ?case by simp
qed simp

text \<open>A new line is one byte and no other character contains its byte.\<close>

lemma utf8_valid_map_newline:
  "utf8_valid s \<Longrightarrow> utf8_valid (map (\<lambda>b. if b = 10 then 32 else b) s)"
  by (induction s rule: utf8_valid.induct) (auto simp: utf8_cont_def utf8_second_def split: if_splits)

lemma utf8_chars_map_newline:
  assumes "utf8_valid s"
  shows "length (utf8_chars (map (\<lambda>b. if b = 10 then 32 else b) s)) = length (utf8_chars s)"
  using assms
proof (induction s rule: utf8_chars.induct)
  case (2 a s)
  have "utf8_width (if a = 10 then 32 else a) = utf8_width a" by (simp add: utf8_width_def)
  with 2 show ?case using utf8_valid_split [of a s] by (simp add: drop_map)
qed simp

lemma preview_of_valid:
  assumes "utf8_valid body"
  shows "utf8_valid (preview_of body) \<and> 10 \<notin> set (preview_of body) \<and> length (utf8_chars (preview_of body)) \<le> 80"
proof -
  let ?t = "concat (take 80 (utf8_chars body))"
  have chars: "utf8_char c" if "c \<in> set (take 80 (utf8_chars body))" for c
    using utf8_chars_valid [OF assms] that in_set_takeD by fastforce
  then have "utf8_valid ?t" "utf8_chars ?t = take 80 (utf8_chars body)"
    using utf8_valid_concat utf8_chars_concat by blast+
  then show ?thesis
    using utf8_valid_map_newline [of ?t] utf8_chars_map_newline [of ?t] by (auto simp: preview_of_def)
qed

section \<open>Tables\<close>

record message_record =
  mr_id :: bytes
  mr_peer_node_id :: bytes
  mr_direction :: message_direction
  mr_body :: bytes
  mr_timestamp_ms :: i64
  mr_status :: message_status
  mr_failure_reason :: "bytes option"
  mr_delivered_at_ms :: "i64 option"
  mr_read_at_ms :: "i64 option"

record conversation_meta =
  cm_unread_count :: int
  cm_last_read_message_id :: "bytes option"
  cm_last_message_id :: "bytes option"
  cm_last_message_preview :: "bytes option"
  cm_last_message_ts_ms :: "i64 option"

record messaging_storage =
  st_messages :: "(bytes, message_record) hash_map"
  st_meta :: "(bytes, conversation_meta) hash_map"

record conversation_summary =
  cs_peer_node_id :: bytes
  cs_peer_node_id_short :: bytes
  cs_name :: bytes
  cs_last_message_preview :: "bytes option"
  cs_last_message_ts_ms :: "i64 option"
  cs_unread_count :: int
  cs_x25519_pubkey :: "bytes option"

record conversation_bump =
  cb_preview :: bytes
  cb_unread_count :: int

text \<open>
  The statements a call may execute. A function of type \<open>database\<close> says which of them SQLite executes
  during the call; one that fails changes nothing and the call returns its error.
\<close>

datatype statement =
    InsertMessage | BumpLocal | BumpRemote | SelectUnread | UpdateStatus | UpdateFailed | SelectHistory
  | SelectConversations | BeginTx | DeleteMessages | DeleteMeta | CommitTx | MarkMessagesRead | ClearUnread

type_synonym database = "statement \<Rightarrow> bool"

definition execute ::
  "bool \<Rightarrow> (messaging_storage \<Rightarrow> messaging_storage) \<Rightarrow> messaging_storage \<Rightarrow> (messaging_error, unit) outcome \<times> messaging_storage" where
  "execute ok f st = (if ok then (Ok (), f st) else (Err Database, st))"

text \<open>The operator \<^verbatim>\<open>?\<close> after a call that also changes the state.\<close>

definition and_then_st :: "('s \<Rightarrow> ('e, 'a) outcome \<times> 's) \<Rightarrow> ('a \<Rightarrow> 's \<Rightarrow> ('e, 'b) outcome \<times> 's) \<Rightarrow> 's \<Rightarrow> ('e, 'b) outcome \<times> 's" where
  "and_then_st m f st =
     (case m st of (Ok x, st) \<Rightarrow> f x st | (Err e, st) \<Rightarrow> (Err e, st) | (Panic, st) \<Rightarrow> (Panic, st))"

definition update_rows :: "(message_record \<Rightarrow> bool) \<Rightarrow> (message_record \<Rightarrow> message_record) \<Rightarrow> messaging_storage \<Rightarrow> messaging_storage" where
  "update_rows cond set_to st =
     st\<lparr>st_messages := map (\<lambda>(k, r). (k, if cond r then set_to r else r)) (st_messages st)\<rparr>"

definition coalesce :: "'a option \<Rightarrow> 'a \<Rightarrow> 'a option" where
  "coalesce old new = (case old of Some x \<Rightarrow> Some x | None \<Rightarrow> Some new)"

definition hex_node_id :: "node_id \<Rightarrow> bytes" where
  "hex_node_id n = concat (map hex_byte (as_bytes n))"

definition hex16 :: "bytes \<Rightarrow> bytes" where
  "hex16 bs = concat (map hex_byte bs)"

definition insert_message :: "database \<Rightarrow> message_record \<Rightarrow> messaging_storage \<Rightarrow> (messaging_error, unit) outcome \<times> messaging_storage" where
  "insert_message db m =
     execute (db InsertMessage) (\<lambda>st. st\<lparr>st_messages := hm_insert (mr_id m) m (st_messages st)\<rparr>)"

definition bump_conversation_after_local_send ::
  "database \<Rightarrow> bytes \<Rightarrow> bytes \<Rightarrow> i64 \<Rightarrow> bytes \<Rightarrow> messaging_storage \<Rightarrow> (messaging_error, unit) outcome \<times> messaging_storage" where
  "bump_conversation_after_local_send db peer_id_hex message_id_hex ts_ms body =
     (let preview = preview_of body
      in execute (db BumpLocal) (\<lambda>st.
           let row = (case hm_get (st_meta st) peer_id_hex of
                        None \<Rightarrow> \<lparr>cm_unread_count = 0, cm_last_read_message_id = None, cm_last_message_id = Some message_id_hex,
                                 cm_last_message_preview = Some preview, cm_last_message_ts_ms = Some ts_ms\<rparr>
                      | Some old \<Rightarrow> old\<lparr>cm_last_message_id := Some message_id_hex, cm_last_message_preview := Some preview,
                                        cm_last_message_ts_ms := Some ts_ms\<rparr>)
           in st\<lparr>st_meta := hm_insert peer_id_hex row (st_meta st)\<rparr>))"

definition bump_conversation_after_remote_receive ::
  "database \<Rightarrow> bytes \<Rightarrow> bytes \<Rightarrow> i64 \<Rightarrow> bytes \<Rightarrow> messaging_storage
     \<Rightarrow> (messaging_error, conversation_bump) outcome \<times> messaging_storage" where
  "bump_conversation_after_remote_receive db peer_id_hex message_id_hex ts_ms body st =
     (let preview = preview_of body;
          (result, st) = execute (db BumpRemote) (\<lambda>st.
           let row = (case hm_get (st_meta st) peer_id_hex of
                        None \<Rightarrow> \<lparr>cm_unread_count = 1, cm_last_read_message_id = None, cm_last_message_id = Some message_id_hex,
                                 cm_last_message_preview = Some preview, cm_last_message_ts_ms = Some ts_ms\<rparr>
                      | Some old \<Rightarrow> old\<lparr>cm_unread_count := cm_unread_count old + 1, cm_last_message_id := Some message_id_hex,
                                        cm_last_message_preview := Some preview, cm_last_message_ts_ms := Some ts_ms\<rparr>)
           in st\<lparr>st_meta := hm_insert peer_id_hex row (st_meta st)\<rparr>) st
      in (and_then result (\<lambda>_.
            if \<not> db SelectUnread then Err Database
            else (case hm_get (st_meta st) peer_id_hex of
                    None \<Rightarrow> Err Database
                  | Some row \<Rightarrow> Ok \<lparr>cb_preview = preview, cb_unread_count = cm_unread_count row\<rparr>)), st))"

definition set_message_status ::
  "database \<Rightarrow> bytes \<Rightarrow> message_status \<Rightarrow> i64 option \<Rightarrow> i64 option \<Rightarrow> messaging_storage
     \<Rightarrow> (messaging_error, unit) outcome \<times> messaging_storage" where
  "set_message_status db message_id_hex status delivered_at_ms read_at_ms =
     execute (db UpdateStatus) (update_rows (\<lambda>r. mr_id r = message_id_hex)
       (case (delivered_at_ms, read_at_ms) of
          (Some d, Some r) \<Rightarrow> (\<lambda>row. row\<lparr>mr_status := status, mr_delivered_at_ms := Some d, mr_read_at_ms := Some r\<rparr>)
        | (Some d, None) \<Rightarrow> (\<lambda>row. row\<lparr>mr_status := status, mr_delivered_at_ms := coalesce (mr_delivered_at_ms row) d\<rparr>)
        | (None, Some r) \<Rightarrow> (\<lambda>row. row\<lparr>mr_status := status, mr_read_at_ms := coalesce (mr_read_at_ms row) r\<rparr>)
        | (None, None) \<Rightarrow> (\<lambda>row. row\<lparr>mr_status := status\<rparr>)))"

definition set_message_failed ::
  "database \<Rightarrow> bytes \<Rightarrow> bytes \<Rightarrow> i64 \<Rightarrow> messaging_storage \<Rightarrow> (messaging_error, unit) outcome \<times> messaging_storage" where
  "set_message_failed db message_id_hex reason at_ms =
     execute (db UpdateFailed) (update_rows (\<lambda>r. mr_id r = message_id_hex)
       (\<lambda>row. row\<lparr>mr_status := StFailed, mr_failure_reason := Some reason,
                  mr_delivered_at_ms := coalesce (mr_delivered_at_ms row) at_ms\<rparr>))"

text \<open>The rows a history query selects, newest first, before its \<^verbatim>\<open>LIMIT\<close>.\<close>

definition history_key :: "message_record \<Rightarrow> int \<times> bytes" where
  "history_key r = (sint (mr_timestamp_ms r), mr_id r)"

definition select_history :: "bytes \<Rightarrow> i64 option \<Rightarrow> messaging_storage \<Rightarrow> message_record list" where
  "select_history peer_id_hex before_ts_ms st =
     rev (sort_key history_key
       (filter (\<lambda>r. mr_peer_node_id r = peer_id_hex
                    \<and> (case before_ts_ms of None \<Rightarrow> True | Some ts \<Rightarrow> sint (mr_timestamp_ms r) < sint ts))
          (map snd (st_messages st))))"

definition history :: "database \<Rightarrow> bytes \<Rightarrow> i64 option \<Rightarrow> int \<Rightarrow> messaging_storage \<Rightarrow> (messaging_error, message_record list \<times> bool) outcome" where
  "history db peer_id_hex before_ts_ms limit st =
     (let limit_plus = max (min (limit + 1) (2 ^ 63 - 1)) 2
      in if \<not> db SelectHistory then Err Database
         else (let out = take (nat limit_plus) (select_history peer_id_hex before_ts_ms st);
                   has_more = (int (length out) > limit)
               in Ok (if has_more then take (nat (limit mod 2 ^ 64)) out else out, has_more)))"

definition list_conversations_raw :: "database \<Rightarrow> messaging_storage \<Rightarrow> (messaging_error, conversation_summary list) outcome" where
  "list_conversations_raw db st =
     (if \<not> db SelectConversations then Err Database
      else Ok (map (\<lambda>(peer, row). \<lparr>cs_peer_node_id = peer, cs_peer_node_id_short = short_id peer, cs_name = short_id peer,
                       cs_last_message_preview = cm_last_message_preview row, cs_last_message_ts_ms = cm_last_message_ts_ms row,
                       cs_unread_count = cm_unread_count row, cs_x25519_pubkey = None\<rparr>)
                 (sort_key (\<lambda>(_, row). case cm_last_message_ts_ms row of None \<Rightarrow> (1 :: int, 0) | Some ts \<Rightarrow> (0, - sint ts))
                    (st_meta st))))"

text \<open>A transaction has no effect unless each of its statements and its commit succeed.\<close>

definition delete_conversation :: "database \<Rightarrow> bytes \<Rightarrow> messaging_storage \<Rightarrow> (messaging_error, nat \<times> bool) outcome \<times> messaging_storage" where
  "delete_conversation db peer_id_hex st =
     (if db BeginTx \<and> db DeleteMessages \<and> db DeleteMeta \<and> db CommitTx then
        let rows = filter (\<lambda>(_, r). mr_peer_node_id r = peer_id_hex) (st_messages st)
        in (Ok (length rows, hm_get (st_meta st) peer_id_hex \<noteq> None),
            st\<lparr>st_messages := filter (\<lambda>(_, r). mr_peer_node_id r \<noteq> peer_id_hex) (st_messages st),
               st_meta := hm_remove peer_id_hex (st_meta st)\<rparr>)
      else (Err Database, st))"

definition delete_all_messages :: "database \<Rightarrow> messaging_storage \<Rightarrow> (messaging_error, nat \<times> nat) outcome \<times> messaging_storage" where
  "delete_all_messages db st =
     (if db BeginTx \<and> db DeleteMessages \<and> db DeleteMeta \<and> db CommitTx
      then (Ok (length (st_messages st), length (st_meta st)), \<lparr>st_messages = [], st_meta = []\<rparr>)
      else (Err Database, st))"

definition mark_read_up_to :: "database \<Rightarrow> bytes \<Rightarrow> i64 \<Rightarrow> messaging_storage \<Rightarrow> (messaging_error, int) outcome \<times> messaging_storage" where
  "mark_read_up_to db peer_id_hex up_to_ts_ms =
     and_then_st (execute (db MarkMessagesRead) (update_rows
            (\<lambda>r. mr_peer_node_id r = peer_id_hex \<and> mr_direction r = DirReceived
                 \<and> sint (mr_timestamp_ms r) \<le> sint up_to_ts_ms \<and> mr_status r \<noteq> StRead)
            (\<lambda>row. row\<lparr>mr_status := StRead, mr_read_at_ms := coalesce (mr_read_at_ms row) up_to_ts_ms\<rparr>)))
     (\<lambda>_. and_then_st (execute (db ClearUnread) (\<lambda>st. st\<lparr>st_meta :=
            map (\<lambda>(p, m). (p, if p = peer_id_hex then m\<lparr>cm_unread_count := 0\<rparr> else m)) (st_meta st)\<rparr>))
     (\<lambda>_ st. (Ok 0, st)))"

definition delete_conversation_for_peer :: "database \<Rightarrow> node_id \<Rightarrow> messaging_storage \<Rightarrow> (messaging_error, nat \<times> bool) outcome \<times> messaging_storage" where
  "delete_conversation_for_peer db peer = delete_conversation db (hex_node_id peer)"

section \<open>Pages of the history\<close>

lemma select_history_before:
  "select_history peer (Some ts) st = filter (\<lambda>r. sint (mr_timestamp_ms r) < sint ts) (select_history peer None st)"
  by (simp add: select_history_def filter_sort conj_commute flip: rev_filter)

lemma set_select_history:
  "set (select_history peer None st) = {r \<in> snd ` set (st_messages st). mr_peer_node_id r = peer}"
  by (auto simp: select_history_def)

lemma select_history_sorted:
  "sorted_wrt (\<lambda>r s. sint (mr_timestamp_ms s) \<le> sint (mr_timestamp_ms r)) (select_history peer before st)"
proof -
  have "sorted_wrt (\<lambda>r s. history_key r \<le> history_key s) (sort_key history_key xs)" for xs
    using sorted_sort_key unfolding sorted_map .
  then have "sorted_wrt (\<lambda>r s. history_key s \<le> history_key r) (select_history peer before st)"
    unfolding select_history_def sorted_wrt_rev .
  then show ?thesis by (rule sorted_wrt_mono_rel [rotated]) (auto simp: history_key_def less_eq_prod_def)
qed

lemma history_eq:
  assumes "db SelectHistory" "1 \<le> limit" "limit < 2 ^ 63 - 1"
  shows "history db peer before limit st =
    Ok (take (nat limit) (select_history peer before st), limit < int (length (select_history peer before st)))"
proof -
  let ?all = "select_history peer before st"
  have lp: "max (min (limit + 1) (2 ^ 63 - 1)) 2 = limit + 1" "limit mod 2 ^ 64 = limit" using assms by auto
  have n: "nat (limit + 1) = Suc (nat limit)" using assms by simp
  show ?thesis
  proof (cases "limit < int (length ?all)")
    case True
    then have "limit < int (length (take (nat (limit + 1)) ?all))" using assms n by auto
    then show ?thesis using assms True n unfolding history_def lp by (simp add: Let_def min_def)
  next
    case False
    then show ?thesis using assms n unfolding history_def lp by (auto simp: Let_def)
  qed
qed

lemma filter_sorted_suffix:
  assumes "sorted_wrt (\<lambda>r s. f s \<le> f r) (xs @ [x] @ ys)" "distinct (map f (xs @ [x] @ ys))"
  shows "filter (\<lambda>r. f r < (f x :: int)) (xs @ [x] @ ys) = ys"
proof -
  have "\<forall>r\<in>set xs. f x \<le> f r" "\<forall>s\<in>set ys. f s \<le> f x" "\<forall>s\<in>set ys. f s \<noteq> f x"
    using assms by (auto simp: sorted_wrt_append rev_image_eqI)
  then have "filter (\<lambda>r. f r < f x) xs = []" "filter (\<lambda>r. f r < f x) ys = ys"
    by (auto simp: filter_empty_conv filter_id_conv order.strict_iff_order)
  then show ?thesis by simp
qed

text \<open>
  Claim C14: paging through a conversation from its newest message loses nothing: what a query selects is the
  page it returns followed by what the query for the messages before the last one of the page
  selects, and nothing when there is no more. Messages of the same millisecond are the exception,
  so the messages of the peer are asked to have different timestamps.
\<close>

theorem history_pages:
  assumes "distinct (map (sint \<circ> mr_timestamp_ms) (select_history peer None st))"
    and "1 \<le> limit" "limit < 2 ^ 63 - 1" "history db peer before limit st = Ok (page, rest)"
  shows "select_history peer before st =
    page @ (if rest then select_history peer (Some (mr_timestamp_ms (last page))) st else [])"
proof -
  let ?f = "sint \<circ> mr_timestamp_ms" and ?all = "select_history peer before st"
  have "db SelectHistory" using assms(4) by (auto simp: history_def Let_def split: if_splits)
  then have page: "page = take (nat limit) ?all" "rest \<longleftrightarrow> limit < int (length ?all)"
    using history_eq [OF _ assms(2,3), of db peer before st] assms(4) by auto
  show ?thesis
  proof (cases rest)
    case True
    then have len: "nat limit < length ?all" "0 < nat limit" using page(2) assms(2) by auto
    define ys where "ys = drop (nat limit) ?all"
    have "page \<noteq> []" using len by (auto simp: page(1))
    moreover have all: "page @ ys = ?all" by (simp add: page(1) ys_def)
    ultimately have split: "?all = butlast page @ [last page] @ ys" by (metis append.assoc append_butlast_last_id)
    let ?in = "\<lambda>r. case before of None \<Rightarrow> True | Some ts \<Rightarrow> ?f r < sint ts"
    have cut: "?all = filter ?in (select_history peer None st)"
      by (cases before) (simp_all add: select_history_before)
    have "distinct (map ?f ?all)" unfolding cut using assms(1) by (rule distinct_map_filter)
    moreover have "sorted_wrt (\<lambda>r s. ?f s \<le> ?f r) ?all" using select_history_sorted by simp
    ultimately have ys: "filter (\<lambda>r. ?f r < ?f (last page)) ?all = ys"
      unfolding split by (intro filter_sorted_suffix)
    have "last page \<in> set ?all" unfolding split by simp
    then have "?in (last page)" by (subst (asm) cut) simp
    then have "?in r" if "?f r < ?f (last page)" for r using that by (cases before) auto
    then have "filter (\<lambda>r. ?f r < ?f (last page)) ?all = select_history peer (Some (mr_timestamp_ms (last page))) st"
      unfolding cut select_history_before [of peer "mr_timestamp_ms (last page)"] filter_filter
      by (intro filter_cong [OF refl]) auto
    with True all ys show ?thesis by simp
  qed (use page assms(2) in auto)
qed

definition example_row :: "u8 \<Rightarrow> i64 \<Rightarrow> message_record" where
  "example_row i ts = \<lparr>mr_id = [i], mr_peer_node_id = [1], mr_direction = DirReceived, mr_body = [i], mr_timestamp_ms = ts,
     mr_status = StDelivered, mr_failure_reason = None, mr_delivered_at_ms = Some ts, mr_read_at_ms = None\<rparr>"

definition example_store :: "(u8 \<times> i64) list \<Rightarrow> messaging_storage" where
  "example_store rows = \<lparr>st_messages = map (\<lambda>(i, ts). ([i], example_row i ts)) rows, st_meta = []\<rparr>"

theorem history_pages_witness:
  "let st = example_store [(1, 10), (2, 20), (3, 30)]; page = [example_row 3 30, example_row 2 20]
   in history (\<lambda>_. True) [1] None 2 st = Ok (page, True)
      \<and> select_history [1] None st = page @ select_history [1] (Some (mr_timestamp_ms (last page))) st"
proof -
  let ?st = "example_store [(1, 10), (2, 20), (3, 30)]" and ?page = "[example_row 3 30, example_row 2 20]"
  have all: "select_history [1] None ?st = [example_row 3 30, example_row 2 20, example_row 1 10]"
    by (simp add: select_history_def example_store_def example_row_def history_key_def)
  then have h: "history (\<lambda>_. True) [1] None 2 ?st = Ok (?page, True)"
    using history_eq [of "\<lambda>_. True" 2 "[1]" None ?st] by simp
  have "distinct (map (sint \<circ> mr_timestamp_ms) (select_history [1] None ?st))"
    unfolding all by (simp add: example_row_def)
  from history_pages [OF this _ _ h] h show ?thesis by simp
qed

text \<open>
  With equal timestamps a message is lost: the second page starts before the millisecond in which the
  first one ended.
\<close>

lemma same_millisecond_lost:
  "let st = example_store [(1, 10), (2, 20), (3, 20)]
   in history (\<lambda>_. True) [1] None 1 st = Ok ([example_row 3 20], True)
      \<and> history (\<lambda>_. True) [1] (Some 20) 1 st = Ok ([example_row 1 10], False)"
  by code_simp

section \<open>Invariant of the tables\<close>

definition row_ok :: "message_record \<Rightarrow> bool" where
  "row_ok r \<longleftrightarrow> utf8_valid (mr_body r)
     \<and> (mr_status r = StDelivered \<longrightarrow> mr_delivered_at_ms r \<noteq> None)
     \<and> (mr_status r = StRead \<longrightarrow> mr_read_at_ms r \<noteq> None)
     \<and> (mr_status r = StFailed \<longrightarrow> mr_failure_reason r \<noteq> None)"

definition preview_ok :: "bytes \<Rightarrow> bool" where
  "preview_ok p \<longleftrightarrow> utf8_valid p \<and> 10 \<notin> set p \<and> length (utf8_chars p) \<le> 80"

definition meta_ok :: "conversation_meta \<Rightarrow> bool" where
  "meta_ok m \<longleftrightarrow> 0 \<le> cm_unread_count m \<and> (\<exists>p. cm_last_message_preview m = Some p \<and> preview_ok p)"

definition store_inv :: "messaging_storage \<Rightarrow> bool" where
  "store_inv st \<longleftrightarrow> hm_wf (st_messages st) \<and> hm_wf (st_meta st)
     \<and> (\<forall>k r. hm_get (st_messages st) k = Some r \<longrightarrow> mr_id r = k \<and> row_ok r)
     \<and> (\<forall>p m. hm_get (st_meta st) p = Some m \<longrightarrow> meta_ok m)"

text \<open>Every stored message belongs to a conversation that is listed.\<close>

definition listed :: "messaging_storage \<Rightarrow> bool" where
  "listed st \<longleftrightarrow> (\<forall>k r. hm_get (st_messages st) k = Some r \<longrightarrow> hm_get (st_meta st) (mr_peer_node_id r) \<noteq> None)"

named_theorems store_rules

lemma execute_snd [simp]: "snd (execute ok f st) = (if ok then f st else st)"
  by (simp add: execute_def)

lemma get_update_rows:
  "hm_get (st_messages (update_rows c f st)) k = map_option (\<lambda>r. if c r then f r else r) (hm_get (st_messages st) k)"
  by (simp add: update_rows_def map_of_map)

lemma update_rows_keeps [simp]:
  "st_meta (update_rows c f st) = st_meta st" "hm_wf (st_messages (update_rows c f st)) = hm_wf (st_messages st)"
  by (simp_all add: update_rows_def hm_wf_def split_def comp_def)

lemma update_rows_inv:
  assumes "store_inv st" "\<And>r. c r \<Longrightarrow> row_ok r \<Longrightarrow> row_ok (f r) \<and> mr_id (f r) = mr_id r"
  shows "store_inv (update_rows c f st)"
  using assms by (auto simp: store_inv_def get_update_rows)

lemma update_rows_listed:
  assumes "listed st" "\<And>r. mr_peer_node_id (f r) = mr_peer_node_id r"
  shows "listed (update_rows c f st)"
  using assms by (auto simp: listed_def get_update_rows)

lemma preview_of_ok: "utf8_valid body \<Longrightarrow> preview_ok (preview_of body)"
  using preview_of_valid by (simp add: preview_ok_def)

lemma insert_message_inv [store_rules]:
  "store_inv st \<Longrightarrow> row_ok m \<Longrightarrow> store_inv (snd (insert_message db m st))"
  by (auto simp: store_inv_def insert_message_def)

lemma bump_local_inv [store_rules]:
  "store_inv st \<Longrightarrow> utf8_valid body \<Longrightarrow> store_inv (snd (bump_conversation_after_local_send db p mid ts body st))"
  using preview_of_ok [of body]
  by (auto simp: store_inv_def bump_conversation_after_local_send_def meta_ok_def Let_def split: option.split)

lemma bump_remote_inv [store_rules]:
  "store_inv st \<Longrightarrow> utf8_valid body \<Longrightarrow> store_inv (snd (bump_conversation_after_remote_receive db p mid ts body st))"
  using preview_of_ok [of body]
  by (auto simp: store_inv_def bump_conversation_after_remote_receive_def execute_def meta_ok_def Let_def split: option.split)

lemma mark_failed_inv [store_rules]: "store_inv st \<Longrightarrow> store_inv (snd (set_message_failed db mid reason at st))"
  by (auto simp: set_message_failed_def row_ok_def intro!: update_rows_inv)

lemma set_status_inv [store_rules]:
  assumes "store_inv st" "status = StDelivered \<longrightarrow> d \<noteq> None" "status = StRead \<longrightarrow> r \<noteq> None" "status \<noteq> StFailed"
  shows "store_inv (snd (set_message_status db mid status d r st))"
  using assms by (auto simp: set_message_status_def row_ok_def coalesce_def intro!: update_rows_inv split: option.splits)

lemma hm_get_map: "hm_get (map (\<lambda>(k, v). (k, f k v)) m) x = map_option (f x) (hm_get m x)"
  by (induction m) auto

lemma hm_wf_map [simp]: "hm_wf (map (\<lambda>(k, v). (k, f k v)) m) = hm_wf m"
  by (simp add: hm_wf_def split_def comp_def)

lemma mark_read_inv [store_rules]: "store_inv st \<Longrightarrow> store_inv (snd (mark_read_up_to db p ts st))"
proof -
  let ?c = "\<lambda>r. mr_peer_node_id r = p \<and> mr_direction r = DirReceived \<and> sint (mr_timestamp_ms r) \<le> sint ts \<and> mr_status r \<noteq> StRead"
    and ?f = "\<lambda>row. row\<lparr>mr_status := StRead, mr_read_at_ms := coalesce (mr_read_at_ms row) ts\<rparr>"
  assume inv: "store_inv st"
  have "store_inv (update_rows ?c ?f st)"
    by (rule update_rows_inv [OF inv]) (auto simp: row_ok_def coalesce_def split: option.split)
  then show ?thesis
    using inv by (auto simp: mark_read_up_to_def and_then_st_def execute_def store_inv_def hm_get_map meta_ok_def Let_def)
qed

lemma delete_rows:
  "filter (\<lambda>(_, r). mr_peer_node_id r \<noteq> p) m = hm_retain (\<lambda>_ r. mr_peer_node_id r \<noteq> p) m"
  by (simp add: hm_retain_def)

lemma delete_conversation_inv [store_rules]: "store_inv st \<Longrightarrow> store_inv (snd (delete_conversation db p st))"
  by (auto simp: delete_conversation_def store_inv_def delete_rows hm_get_retain Let_def split: option.splits if_splits)

lemma delete_all_inv [store_rules]: "store_inv st \<Longrightarrow> store_inv (snd (delete_all_messages db st))"
  by (simp add: delete_all_messages_def store_inv_def)

end
