(* ===== verification/Messaging_Service.thy ===== *)
theory Messaging_Service
  imports Messaging_Store Daemon_Node
begin

text \<open>
  The messaging plugin itself (\<^verbatim>\<open>pim-messaging\<close>: \<^verbatim>\<open>service.rs\<close>, \<^verbatim>\<open>plugin.rs\<close>): sending, receiving and
  acknowledging messages over the ports the daemon gives to a plugin (\<^verbatim>\<open>pim-plugin\<close>). The peer directory and
  the local seed are functions, the control sender is a function on a state of its own; wall-clock times
  and the random identifier of a message are arguments. Shown are an invariant of the stored messages over
  any sequence of calls, that a message and its acknowledgement get through, and a race of the status of a
  message.
\<close>

section \<open>Ports and state\<close>

record plugin_ports =
  pl_lookup_x25519 :: "node_id \<Rightarrow> bytes option"
  pl_lookup_name :: "node_id \<Rightarrow> bytes option"
  pl_signing_seed :: bytes

text \<open>\<^verbatim>\<open>ControlSender::send_routed\<close>: whether a send was attempted, and the state of the sender after it.\<close>

type_synonym 'c control_sender = "node_id \<Rightarrow> control_frame \<Rightarrow> 'c \<Rightarrow> bool \<times> 'c"

datatype history_scope = ScopePeer | ScopeAll

datatype message_event =
    MessageReceived message_record conversation_summary
  | MessageStatusChanged bytes bytes message_status i64
  | HistoryCleared "bytes option" history_scope nat

record messaging_service =
  sv_storage :: messaging_storage
  sv_events :: "message_event list"

definition MAX_BODY_BYTES :: nat where "MAX_BODY_BYTES = 8 * 1024"

definition emit :: "message_event \<Rightarrow> messaging_service \<Rightarrow> messaging_service" where
  "emit e sv = sv\<lparr>sv_events := sv_events sv @ [e]\<rparr>"

definition with_storage ::
  "(messaging_storage \<Rightarrow> 'r \<times> messaging_storage) \<Rightarrow> messaging_service \<Rightarrow> 'r \<times> messaging_service" where
  "with_storage f sv = (let (r, st) = f (sv_storage sv) in (r, sv\<lparr>sv_storage := st\<rparr>))"

section \<open>Operations\<close>

definition record_local_send ::
  "database \<Rightarrow> node_id \<Rightarrow> bytes \<Rightarrow> bytes \<Rightarrow> i64 \<Rightarrow> messaging_service
     \<Rightarrow> (messaging_error, message_record) outcome \<times> messaging_service" where
  "record_local_send db peer message_id body timestamp_ms =
     (let record = \<lparr>mr_id = hex16 message_id, mr_peer_node_id = hex_node_id peer, mr_direction = DirSent, mr_body = body,
                    mr_timestamp_ms = timestamp_ms, mr_status = StPending, mr_failure_reason = None,
                    mr_delivered_at_ms = None, mr_read_at_ms = None\<rparr>
      in and_then_st (with_storage (insert_message db record)) (\<lambda>_.
         and_then_st (with_storage (bump_conversation_after_local_send db (hex_node_id peer) (hex16 message_id) timestamp_ms body))
           (\<lambda>_ sv. (Ok record, sv))))"

definition set_status ::
  "database \<Rightarrow> node_id \<Rightarrow> bytes \<Rightarrow> message_status \<Rightarrow> i64 option \<Rightarrow> i64 option \<Rightarrow> i64 \<Rightarrow> messaging_service
     \<Rightarrow> (messaging_error, unit) outcome \<times> messaging_service" where
  "set_status db peer message_id status delivered_at_ms read_at_ms at_ms =
     and_then_st (with_storage (set_message_status db (hex16 message_id) status delivered_at_ms read_at_ms))
       (\<lambda>_ sv. (Ok (), emit (MessageStatusChanged (hex16 message_id) (hex_node_id peer) status at_ms) sv))"

definition mark_sent :: "database \<Rightarrow> node_id \<Rightarrow> bytes \<Rightarrow> i64 \<Rightarrow> messaging_service \<Rightarrow> (messaging_error, unit) outcome \<times> messaging_service" where
  "mark_sent db peer message_id at_ms = set_status db peer message_id StSent None None at_ms"

definition mark_delivered :: "database \<Rightarrow> node_id \<Rightarrow> bytes \<Rightarrow> i64 \<Rightarrow> messaging_service \<Rightarrow> (messaging_error, unit) outcome \<times> messaging_service" where
  "mark_delivered db peer message_id at_ms = set_status db peer message_id StDelivered (Some at_ms) None at_ms"

definition mark_read :: "database \<Rightarrow> node_id \<Rightarrow> bytes \<Rightarrow> i64 \<Rightarrow> messaging_service \<Rightarrow> (messaging_error, unit) outcome \<times> messaging_service" where
  "mark_read db peer message_id at_ms = set_status db peer message_id StRead None (Some at_ms) at_ms"

definition mark_failed :: "database \<Rightarrow> node_id \<Rightarrow> bytes \<Rightarrow> bytes \<Rightarrow> i64 \<Rightarrow> messaging_service \<Rightarrow> (messaging_error, unit) outcome \<times> messaging_service" where
  "mark_failed db peer message_id reason at_ms =
     and_then_st (with_storage (set_message_failed db (hex16 message_id) reason at_ms))
       (\<lambda>_ sv. (Ok (), emit (MessageStatusChanged (hex16 message_id) (hex_node_id peer) StFailed at_ms) sv))"

definition service_delete_conversation :: "database \<Rightarrow> node_id \<Rightarrow> messaging_service \<Rightarrow> (messaging_error, nat \<times> bool) outcome \<times> messaging_service" where
  "service_delete_conversation db peer =
     and_then_st (with_storage (delete_conversation db (hex_node_id peer)))
       (\<lambda>(n, had) sv. (Ok (n, had), emit (HistoryCleared (Some (hex_node_id peer)) ScopePeer n) sv))"

definition service_delete_all_messages :: "database \<Rightarrow> messaging_service \<Rightarrow> (messaging_error, nat \<times> nat) outcome \<times> messaging_service" where
  "service_delete_all_messages db =
     and_then_st (with_storage (delete_all_messages db))
       (\<lambda>(n, k) sv. (Ok (n, k), emit (HistoryCleared None ScopeAll n) sv))"

definition on_peer_forgotten :: "database \<Rightarrow> node_id \<Rightarrow> messaging_service \<Rightarrow> messaging_service" where
  "on_peer_forgotten db peer sv =
     (case with_storage (delete_conversation db (hex_node_id peer)) sv of
        (Ok (n, had), sv) \<Rightarrow>
          if n > 0 \<or> had then emit (HistoryCleared (Some (hex_node_id peer)) ScopePeer n) sv else sv
      | (_, sv) \<Rightarrow> sv)"

text \<open>
  \<^verbatim>\<open>send\<close> up to the point where it hands the frame to the control sender, and after it: an
  acknowledgement may be handled in between.
\<close>

definition send_start ::
  "primitives \<Rightarrow> plugin_ports \<Rightarrow> database \<Rightarrow> bytes \<Rightarrow> bytes \<Rightarrow> bytes \<Rightarrow> i64 \<Rightarrow> node_id \<Rightarrow> bytes \<Rightarrow> messaging_service
     \<Rightarrow> (messaging_error, message_record \<times> control_frame) outcome \<times> messaging_service" where
  "send_start P ports db esk nonce id_bytes timestamp_ms peer body sv =
     (if length body > MAX_BODY_BYTES then (Err BodyTooLong, sv)
      else (case pl_lookup_x25519 ports peer of
              None \<Rightarrow> (Err (NoPublicKey peer), sv)
            | Some recipient_x25519 \<Rightarrow>
                and_then_st (record_local_send db peer id_bytes body timestamp_ms) (\<lambda>record sv.
                  (case e2e_encrypt (pr_aead P) (pr_x25519 P) (pr_kdf P) esk nonce body recipient_x25519 of
                     Ok ciphertext \<Rightarrow>
                       (Ok (record, PluginPayload KIND_MESSAGE (encode_message id_bytes timestamp_ms ciphertext)), sv)
                   | Err e \<Rightarrow> (Err EncryptFailed, sv)
                   | Panic \<Rightarrow> (Panic, sv))) sv))"

definition send_finish :: "database \<Rightarrow> bool \<Rightarrow> i64 \<Rightarrow> bytes \<Rightarrow> node_id \<Rightarrow> messaging_service \<Rightarrow> messaging_service" where
  "send_finish db sent at_ms id_bytes peer sv =
     snd (if sent then mark_sent db peer id_bytes at_ms sv else mark_failed db peer id_bytes (ascii ''no_route'') at_ms sv)"

definition send_text ::
  "primitives \<Rightarrow> plugin_ports \<Rightarrow> 'c control_sender \<Rightarrow> database \<Rightarrow> bytes \<Rightarrow> bytes \<Rightarrow> bytes \<Rightarrow> i64 \<Rightarrow> i64 \<Rightarrow> node_id \<Rightarrow> bytes
     \<Rightarrow> messaging_service \<times> 'c \<Rightarrow> (messaging_error, message_record) outcome \<times> messaging_service \<times> 'c" where
  "send_text P ports control db esk nonce id_bytes timestamp_ms at_ms peer body s =
     (let (sv, c) = s
      in case send_start P ports db esk nonce id_bytes timestamp_ms peer body sv of
           (Ok (record, frame), sv) \<Rightarrow>
             (let (sent, c) = control peer frame c
              in (Ok record, send_finish db sent at_ms id_bytes peer sv, c))
         | (Err e, sv) \<Rightarrow> (Err e, sv, c)
         | (Panic, sv) \<Rightarrow> (Panic, sv, c))"

definition received_record :: "node_id \<Rightarrow> decoded_message \<Rightarrow> bytes \<Rightarrow> i64 \<Rightarrow> message_record" where
  "received_record src decoded plaintext received_at =
     \<lparr>mr_id = hex16 (dm_message_id decoded), mr_peer_node_id = hex_node_id src, mr_direction = DirReceived,
      mr_body = plaintext, mr_timestamp_ms = dm_timestamp_ms decoded, mr_status = StDelivered,
      mr_failure_reason = None, mr_delivered_at_ms = Some received_at, mr_read_at_ms = None\<rparr>"

definition received_summary :: "plugin_ports \<Rightarrow> node_id \<Rightarrow> conversation_bump \<Rightarrow> i64 \<Rightarrow> conversation_summary" where
  "received_summary ports src bump timestamp_ms =
     (let peer_hex = hex_node_id src; short = short_id peer_hex
      in \<lparr>cs_peer_node_id = peer_hex, cs_peer_node_id_short = short,
          cs_name = (case pl_lookup_name ports src of Some n \<Rightarrow> if n \<noteq> [] then n else short | None \<Rightarrow> short),
          cs_last_message_preview = Some (cb_preview bump), cs_last_message_ts_ms = Some timestamp_ms,
          cs_unread_count = cb_unread_count bump,
          cs_x25519_pubkey = map_option (\<lambda>k. concat (map hex_byte k)) (pl_lookup_x25519 ports src)\<rparr>)"

definition store_received :: "database \<Rightarrow> message_record \<Rightarrow> messaging_service \<Rightarrow> (messaging_error, conversation_bump) outcome \<times> messaging_service" where
  "store_received db record =
     and_then_st (with_storage (insert_message db record)) (\<lambda>_.
       with_storage (bump_conversation_after_remote_receive db (mr_peer_node_id record) (mr_id record)
         (mr_timestamp_ms record) (mr_body record)))"

definition handle_incoming_message ::
  "primitives \<Rightarrow> plugin_ports \<Rightarrow> 'c control_sender \<Rightarrow> database \<Rightarrow> i64 \<Rightarrow> node_id \<Rightarrow> bytes \<Rightarrow> messaging_service \<times> 'c
     \<Rightarrow> messaging_service \<times> 'c" where
  "handle_incoming_message P ports control db received_at src body s =
     (case decode_message body of
        Ok decoded \<Rightarrow>
          (case e2e_decrypt_in_place (pr_aead P) (pr_x25519 P) (pr_kdf P) (dm_ciphertext decoded) (pl_signing_seed ports) of
             (Ok _, plaintext) \<Rightarrow>
               if \<not> utf8_valid plaintext then s
               else
                 (let (sv, c) = s; record = received_record src decoded plaintext received_at
                  in case store_received db record sv of
                       (Ok bump, sv) \<Rightarrow>
                         (let sv = emit (MessageReceived record (received_summary ports src bump (mr_timestamp_ms record))) sv;
                              ack = PluginPayload KIND_ACK (encode_ack (dm_message_id decoded) (AckKind_as_u8 AckDelivered));
                              (_, c) = control src ack c
                          in (sv, c))
                     | (_, sv) \<Rightarrow> (sv, c))
           | _ \<Rightarrow> s)
      | _ \<Rightarrow> s)"

definition handle_incoming_message_ack :: "database \<Rightarrow> i64 \<Rightarrow> node_id \<Rightarrow> bytes \<Rightarrow> messaging_service \<Rightarrow> messaging_service" where
  "handle_incoming_message_ack db now src body sv =
     (case decode_ack body of
        Ok decoded \<Rightarrow>
          (case AckKind_from_u8 (da_ack_kind decoded) of
             Some AckDelivered \<Rightarrow> snd (mark_delivered db src (da_message_id decoded) now sv)
           | Some AckRead \<Rightarrow> snd (mark_read db src (da_message_id decoded) now sv)
           | None \<Rightarrow> sv)
      | _ \<Rightarrow> sv)"

definition KINDS :: "bytes list" where "KINDS = [KIND_MESSAGE, KIND_ACK]"

definition handle_payload ::
  "primitives \<Rightarrow> plugin_ports \<Rightarrow> 'c control_sender \<Rightarrow> database \<Rightarrow> i64 \<Rightarrow> node_id \<Rightarrow> bytes \<Rightarrow> bytes \<Rightarrow> messaging_service \<times> 'c
     \<Rightarrow> messaging_service \<times> 'c" where
  "handle_payload P ports control db now src kind body s =
     (if kind = KIND_MESSAGE then handle_incoming_message P ports control db now src body s
      else if kind = KIND_ACK then (let (sv, c) = s in (handle_incoming_message_ack db now src body sv, c))
      else s)"

text \<open>\<^verbatim>\<open>parse_node_id\<close>: slicing a string within a character panics.\<close>

fun parse_hex_pairs :: "bytes \<Rightarrow> ('e, bytes option) outcome" where
  "parse_hex_pairs (c # d # rest) =
     (if \<not> utf8_valid [c, d] then Panic
      else (case from_str_radix16 c d of
              None \<Rightarrow> Ok None
            | Some b \<Rightarrow> and_then (parse_hex_pairs rest) (\<lambda>r. Ok (map_option (\<lambda>bs. b # bs) r))))"
| "parse_hex_pairs _ = Ok (Some [])"

definition parse_node_id :: "bytes \<Rightarrow> ('e, node_id option) outcome" where
  "parse_node_id hex =
     (if length hex \<noteq> 32 then Ok None
      else and_then (parse_hex_pairs hex) (\<lambda>r. Ok (map_option NodeId_from_bytes r)))"

definition fill_summary :: "plugin_ports \<Rightarrow> conversation_summary \<Rightarrow> ('e, conversation_summary) outcome" where
  "fill_summary ports row =
     and_then (parse_node_id (cs_peer_node_id row)) (\<lambda>parsed.
       case parsed of
         None \<Rightarrow> Ok row
       | Some peer \<Rightarrow>
           let row = (case pl_lookup_name ports peer of Some name \<Rightarrow> if name \<noteq> [] then row\<lparr>cs_name := name\<rparr> else row | None \<Rightarrow> row)
           in Ok (case pl_lookup_x25519 ports peer of
                    Some k \<Rightarrow> row\<lparr>cs_x25519_pubkey := Some (concat (map hex_byte k))\<rparr> | None \<Rightarrow> row))"

fun fill_summaries :: "plugin_ports \<Rightarrow> conversation_summary list \<Rightarrow> ('e, conversation_summary list) outcome" where
  "fill_summaries ports [] = Ok []"
| "fill_summaries ports (row # rows) =
     and_then (fill_summary ports row) (\<lambda>row. and_then (fill_summaries ports rows) (\<lambda>rows. Ok (row # rows)))"

definition list_conversations :: "plugin_ports \<Rightarrow> database \<Rightarrow> messaging_service \<Rightarrow> (messaging_error, conversation_summary list) outcome" where
  "list_conversations ports db sv = and_then (list_conversations_raw db (sv_storage sv)) (fill_summaries ports)"

section \<open>Any sequence of calls\<close>

text \<open>
  The calls of the event loop, the RPC server and the plugin host, with any outcome of the database
  in \<open>D\<close>. Texts that come from RPC are strings of Rust and so valid UTF-8; the identifier of a
  message has 16 bytes.
\<close>

inductive messaging_step :: "database set \<Rightarrow> messaging_service \<Rightarrow> messaging_service \<Rightarrow> bool" for D where
  send: "db \<in> D \<Longrightarrow> utf8_valid body \<Longrightarrow>
    messaging_step D sv (snd (send_start P ports db esk nonce id_bytes ts peer body sv))"
| sent: "db \<in> D \<Longrightarrow> messaging_step D sv (send_finish db ok at_ms id_bytes peer sv)"
| payload: "db \<in> D \<Longrightarrow>
    messaging_step D sv (fst (handle_payload P ports control db now src kind body (sv, c :: node)))"
| forget: "db \<in> D \<Longrightarrow> messaging_step D sv (on_peer_forgotten db peer sv)"
| clear: "db \<in> D \<Longrightarrow> messaging_step D sv (snd (service_delete_conversation db peer sv))"
| clear_all: "db \<in> D \<Longrightarrow> messaging_step D sv (snd (service_delete_all_messages db sv))"
| read_up_to: "db \<in> D \<Longrightarrow> messaging_step D sv (snd (with_storage (mark_read_up_to db peer_hex ts) sv))"

definition messaging_init :: "messaging_service \<Rightarrow> bool" where
  "messaging_init sv \<longleftrightarrow> sv_storage sv = \<lparr>st_messages = [], st_meta = []\<rparr>"

definition service_inv :: "database set \<Rightarrow> messaging_service \<Rightarrow> bool" where
  "service_inv D sv \<longleftrightarrow> store_inv (sv_storage sv) \<and> (D \<subseteq> {\<lambda>_. True} \<longrightarrow> listed (sv_storage sv))"

lemma storage_emit [simp]: "sv_storage (emit e sv) = sv_storage sv"
  by (simp add: emit_def)

lemma storage_with_storage [simp]: "sv_storage (snd (with_storage f sv)) = snd (f (sv_storage sv))"
  by (simp add: with_storage_def Let_def split_def)

lemma storage_and_then_st:
  "sv_storage (snd (and_then_st m f sv)) =
     (case fst (m sv) of Ok x \<Rightarrow> sv_storage (snd (f x (snd (m sv)))) | _ \<Rightarrow> sv_storage (snd (m sv)))"
  by (simp add: and_then_st_def split: prod.split outcome.split)

lemma storage_seq:
  "P (sv_storage (snd (m sv))) \<Longrightarrow> (\<And>x sv'. P (sv_storage sv') \<Longrightarrow> P (sv_storage (snd (f x sv')))) \<Longrightarrow>
   P (sv_storage (snd (and_then_st m f sv)))"
  by (auto simp: storage_and_then_st split: outcome.split)

lemmas inv_seq = storage_seq [where P = store_inv]

lemma set_status_store [simp]:
  "sv_storage (snd (set_status db peer mid status d r at_ms sv)) = snd (set_message_status db (hex16 mid) status d r (sv_storage sv))"
  "sv_storage (snd (mark_failed db peer mid reason at_ms sv)) = snd (set_message_failed db (hex16 mid) reason at_ms (sv_storage sv))"
  by (simp_all add: set_status_def mark_failed_def storage_and_then_st split: outcome.split)

lemmas marks = mark_sent_def mark_delivered_def mark_read_def send_finish_def

lemma handle_ack_inv: "store_inv (sv_storage sv) \<Longrightarrow> store_inv (sv_storage (handle_incoming_message_ack db now src body sv))"
  by (auto simp: handle_incoming_message_ack_def marks intro!: store_rules split: outcome.split option.split ack_kind.split)

lemma record_local_send_inv:
  "store_inv (sv_storage sv) \<Longrightarrow> utf8_valid body \<Longrightarrow> store_inv (sv_storage (snd (record_local_send db peer mid body ts sv)))"
  unfolding record_local_send_def Let_def
  by (intro inv_seq) (simp_all add: store_rules row_ok_def)

lemma send_start_inv:
  "store_inv (sv_storage sv) \<Longrightarrow> utf8_valid body \<Longrightarrow>
   store_inv (sv_storage (snd (send_start P ports db esk nonce mid ts peer body sv)))"
  by (auto simp: send_start_def intro!: inv_seq record_local_send_inv split: option.split outcome.split)

lemma incoming_storage:
  "sv_storage (fst (handle_incoming_message P ports control db at_ms src body (sv, c))) = sv_storage sv
   \<or> (\<exists>record. row_ok record \<and> sv_storage (fst (handle_incoming_message P ports control db at_ms src body (sv, c)))
        = sv_storage (snd (store_received db record sv)))"
proof (cases "decode_message body")
  case (Ok d)
  obtain r plaintext where o: "e2e_decrypt_in_place (pr_aead P) (pr_x25519 P) (pr_kdf P) (dm_ciphertext d) (pl_signing_seed ports)
      = (r, plaintext)" by fastforce
  let ?row = "received_record src d plaintext at_ms"
  obtain q sv' where q: "store_received db ?row sv = (q, sv')" by fastforce
  show ?thesis
  proof (cases "utf8_valid plaintext \<and> r = Ok ()")
    case True
    then have "sv_storage (fst (handle_incoming_message P ports control db at_ms src body (sv, c))) = sv_storage sv'"
      using Ok o q by (cases q) (auto simp: handle_incoming_message_def Let_def split: prod.split)
    moreover have "row_ok ?row" using True by (simp add: row_ok_def received_record_def)
    ultimately show ?thesis using q by (metis snd_conv)
  next
    case False
    then show ?thesis using Ok o by (cases r) (auto simp: handle_incoming_message_def)
  qed
qed (simp_all add: handle_incoming_message_def)

lemma store_received_inv: "store_inv (sv_storage sv) \<Longrightarrow> row_ok record \<Longrightarrow> store_inv (sv_storage (snd (store_received db record sv)))"
  unfolding store_received_def by (rule inv_seq) (simp_all add: store_rules row_ok_def)

lemma payload_inv:
  "store_inv (sv_storage sv) \<Longrightarrow> store_inv (sv_storage (fst (handle_payload P ports control db now src kind body (sv, c))))"
  using incoming_storage [of P ports control db now src body sv c] store_received_inv [of sv _ db]
  by (auto simp: handle_payload_def Let_def handle_ack_inv)

lemma forgotten_storage:
  "sv_storage (on_peer_forgotten db peer sv) = snd (delete_conversation db (hex_node_id peer) (sv_storage sv))"
  by (cases "delete_conversation db (hex_node_id peer) (sv_storage sv)")
    (auto simp: on_peer_forgotten_def with_storage_def split: outcome.split)

lemma clear_storage:
  "sv_storage (snd (service_delete_conversation db peer sv)) = snd (delete_conversation db (hex_node_id peer) (sv_storage sv))"
  "sv_storage (snd (service_delete_all_messages db sv)) = snd (delete_all_messages db (sv_storage sv))"
  by (simp_all add: service_delete_conversation_def service_delete_all_messages_def storage_and_then_st split_def split: outcome.split)

lemma step_store_inv: "messaging_step D sv sv' \<Longrightarrow> store_inv (sv_storage sv) \<Longrightarrow> store_inv (sv_storage sv')"
  by (induction rule: messaging_step.induct)
    (simp_all add: forgotten_storage clear_storage marks store_rules send_start_inv payload_inv)

subsection \<open>With a database that does not fail\<close>

abbreviation reliable :: database where "reliable \<equiv> \<lambda>_. True"

lemma listed_send:
  "listed (sv_storage sv) \<Longrightarrow> listed (sv_storage (snd (record_local_send reliable peer mid body ts sv)))"
  by (auto simp: record_local_send_def storage_and_then_st insert_message_def bump_conversation_after_local_send_def
      with_storage_def execute_def listed_def Let_def)

lemma listed_received:
  "listed (sv_storage sv) \<Longrightarrow> listed (sv_storage (snd (store_received reliable record sv)))"
  by (auto simp: store_received_def storage_and_then_st insert_message_def bump_conversation_after_remote_receive_def
      with_storage_def execute_def listed_def Let_def)

lemma listed_status:
  "listed st \<Longrightarrow> listed (snd (set_message_status db mid status d r st))"
  "listed st \<Longrightarrow> listed (snd (set_message_failed db mid reason at_ms st))"
  by (auto simp: set_message_status_def set_message_failed_def intro!: update_rows_listed split: option.split)

lemma listed_read: "listed st \<Longrightarrow> listed (snd (mark_read_up_to db p ts st))"
proof -
  let ?c = "\<lambda>r. mr_peer_node_id r = p \<and> mr_direction r = DirReceived \<and> sint (mr_timestamp_ms r) \<le> sint ts \<and> mr_status r \<noteq> StRead"
    and ?f = "\<lambda>row. row\<lparr>mr_status := StRead, mr_read_at_ms := coalesce (mr_read_at_ms row) ts\<rparr>"
  assume l: "listed st"
  have "listed (update_rows ?c ?f st)" by (rule update_rows_listed [OF l]) simp
  then show ?thesis using l by (auto simp: mark_read_up_to_def and_then_st_def execute_def listed_def hm_get_map)
qed

lemma listed_delete:
  assumes "store_inv st" "listed st"
  shows "listed (snd (delete_conversation db p st))" "listed (snd (delete_all_messages db st))"
  using assms
  by (auto simp: delete_conversation_def delete_all_messages_def store_inv_def delete_rows listed_def hm_get_retain Let_def
      split: option.splits if_splits)

lemma listed_send_start:
  assumes "listed (sv_storage sv)"
  shows "listed (sv_storage (snd (send_start P ports reliable esk nonce mid ts peer body sv)))"
  using assms listed_send [OF assms]
  by (auto simp: send_start_def storage_and_then_st split: option.split outcome.split)

lemma listed_payload:
  assumes "listed (sv_storage sv)"
  shows "listed (sv_storage (fst (handle_payload P ports control reliable now src kind body (sv, c))))"
proof -
  have "listed (sv_storage (handle_incoming_message_ack reliable now src body sv))"
    using assms by (auto simp: handle_incoming_message_ack_def marks listed_status split: outcome.split option.split ack_kind.split)
  then show ?thesis
    using incoming_storage [of P ports control reliable now src body sv c] assms listed_received [OF assms]
    by (auto simp: handle_payload_def)
qed

lemma step_listed:
  assumes "messaging_step D sv sv'" "D \<subseteq> {reliable}" "store_inv (sv_storage sv)" "listed (sv_storage sv)"
  shows "listed (sv_storage sv')"
  using assms
proof (induction rule: messaging_step.induct)
  case (send db body sv P ports esk nonce id_bytes ts peer)
  then have "db = reliable" by blast
  with send show ?case by (simp add: listed_send_start)
next
  case (payload db sv P ports control now src kind body c)
  then have "db = reliable" by blast
  with payload show ?case by (simp add: listed_payload)
qed (simp_all add: forgotten_storage clear_storage marks listed_delete listed_status listed_read)

interpretation messaging: step_invariant messaging_init "messaging_step D" "service_inv D" for D
proof
  show "service_inv D sv" if "messaging_init sv" for sv
    using that by (simp add: service_inv_def messaging_init_def store_inv_def listed_def)
  show "service_inv D sv'" if "service_inv D sv" "messaging_step D sv sv'" for sv sv'
    using that step_store_inv step_listed by (auto simp: service_inv_def)
qed

text \<open>
  Claim C11: after any sequence of calls, whichever database statements failed, no two stored messages share an
  identifier, every text is valid UTF-8, a delivered message has its delivery time, a read one its
  reading time and a failed one its reason, unread counts are not negative, and a preview is a single
  line of at most 80 characters. If no statement failed, every message belongs to a listed
  conversation.
\<close>

theorem messages_wellformed:
  assumes "reachable messaging_init (messaging_step D) sv"
  shows "distinct (map (mr_id \<circ> snd) (st_messages (sv_storage sv)))
    \<and> (\<forall>r\<in>snd ` set (st_messages (sv_storage sv)). row_ok r)
    \<and> (\<forall>m\<in>snd ` set (st_meta (sv_storage sv)). meta_ok m)
    \<and> (D \<subseteq> {reliable} \<longrightarrow> listed (sv_storage sv))"
proof -
  have inv: "store_inv (sv_storage sv)" "D \<subseteq> {reliable} \<longrightarrow> listed (sv_storage sv)"
    using messaging.inv_reachable [OF assms] by (auto simp: service_inv_def)
  then have wf: "hm_wf (st_messages (sv_storage sv))" "hm_wf (st_meta (sv_storage sv))"
    and rows: "\<And>k r. (k, r) \<in> set (st_messages (sv_storage sv)) \<Longrightarrow> mr_id r = k \<and> row_ok r"
    and meta: "\<And>p m. (p, m) \<in> set (st_meta (sv_storage sv)) \<Longrightarrow> meta_ok m"
    by (auto simp: store_inv_def hm_get_mem)
  have "map (mr_id \<circ> snd) (st_messages (sv_storage sv)) = map fst (st_messages (sv_storage sv))"
    using rows by (intro map_cong) auto
  then have "distinct (map (mr_id \<circ> snd) (st_messages (sv_storage sv)))" using wf(1) by (simp only: hm_wf_def)
  with rows meta inv(2) show ?thesis by auto
qed

definition example_service :: messaging_service where
  "example_service = \<lparr>sv_storage = \<lparr>st_messages = [], st_meta = []\<rparr>, sv_events = []\<rparr>"

theorem messages_wellformed_witness:
  "\<exists>sv. reachable messaging_init (messaging_step {reliable}) sv \<and> sv \<noteq> example_service \<and> listed (sv_storage sv)"
proof -
  let ?sv = "snd (service_delete_all_messages reliable example_service)"
  have "reachable messaging_init (messaging_step {reliable}) example_service"
    by (rule reachable_init) (simp add: messaging_init_def example_service_def)
  then have r: "reachable messaging_init (messaging_step {reliable}) ?sv"
    by (rule reachable_step) (rule clear_all, simp)
  moreover have "?sv \<noteq> example_service" by code_simp
  ultimately show ?thesis using messages_wellformed [OF r] by blast
qed

section \<open>Messages and acknowledgements\<close>

lemma hm_get_status:
  assumes "store_inv st" "hm_get (st_messages st) (hex16 mid) = Some r"
  shows "hm_get (st_messages (snd (set_message_status reliable (hex16 mid) status d rd st))) (hex16 mid)
    = Some (r\<lparr>mr_status := status,
        mr_delivered_at_ms := (case (d, rd) of (Some d, Some _) \<Rightarrow> Some d | (Some d, None) \<Rightarrow> coalesce (mr_delivered_at_ms r) d | _ \<Rightarrow> mr_delivered_at_ms r),
        mr_read_at_ms := (case (d, rd) of (Some _, Some x) \<Rightarrow> Some x | (None, Some x) \<Rightarrow> coalesce (mr_read_at_ms r) x | _ \<Rightarrow> mr_read_at_ms r)\<rparr>)"
proof -
  have "mr_id r = hex16 mid" using assms by (simp add: store_inv_def)
  with assms(2) show ?thesis by (simp add: set_message_status_def get_update_rows split: option.split)
qed

lemma ack_delivered:
  assumes "length mid = 16"
  shows "handle_incoming_message_ack db t src (encode_ack mid (AckKind_as_u8 AckDelivered)) sv = snd (mark_delivered db src mid t sv)"
    "handle_incoming_message_ack db t src (encode_ack mid (AckKind_as_u8 AckRead)) sv = snd (mark_read db src mid t sv)"
  using ack_roundtrip [OF assms] by (simp_all add: handle_incoming_message_ack_def AckKind_from_u8_def)

lemma send_start_Ok:
  assumes "send_start P ports reliable esk nonce mid ts peer body sv = (Ok (record, frame), sv1)"
  shows "record = \<lparr>mr_id = hex16 mid, mr_peer_node_id = hex_node_id peer, mr_direction = DirSent, mr_body = body,
      mr_timestamp_ms = ts, mr_status = StPending, mr_failure_reason = None, mr_delivered_at_ms = None, mr_read_at_ms = None\<rparr>"
    "hm_get (st_messages (sv_storage sv1)) (hex16 mid) = Some record"
    "\<exists>pub ct. pl_lookup_x25519 ports peer = Some pub \<and> e2e_encrypt (pr_aead P) (pr_x25519 P) (pr_kdf P) esk nonce body pub = Ok ct
       \<and> frame = PluginPayload KIND_MESSAGE (encode_message mid ts ct)"
  using assms
  by (auto simp: send_start_def and_then_st_def record_local_send_def with_storage_def insert_message_def
      bump_conversation_after_local_send_def execute_def Let_def split: if_splits option.splits outcome.splits)

text \<open>
  An acknowledgement is applied whoever sent it, and an incoming message replaces a stored one with
  the same identifier, of whatever direction and conversation.
\<close>

lemma acknowledgement_from_anyone:
  assumes "store_inv (sv_storage sv)" "hm_get (st_messages (sv_storage sv)) (hex16 mid) = Some r" "length mid = 16"
  shows "map_option mr_status (hm_get (st_messages (sv_storage
      (handle_incoming_message_ack reliable t anyone (encode_ack mid (AckKind_as_u8 AckRead)) sv))) (hex16 mid)) = Some StRead"
  unfolding ack_delivered(2) [OF assms(3)] using hm_get_status [OF assms(1,2)] by (simp add: marks)

lemma message_replaced:
  "hm_get (st_messages (sv_storage (snd (store_received reliable record sv)))) (mr_id record) = Some record"
  by (simp add: store_received_def storage_and_then_st insert_message_def bump_conversation_after_remote_receive_def
      with_storage_def execute_def Let_def)

text \<open>A delivery acknowledgement after a failure leaves the reason of the failure in the row.\<close>

lemma reason_outlives_failure:
  assumes "store_inv (sv_storage sv)" "hm_get (st_messages (sv_storage sv)) (hex16 mid) = Some r"
  shows "\<exists>r'. hm_get (st_messages (sv_storage (snd (mark_delivered reliable p mid t (snd (mark_failed reliable p mid reason t sv)))))) (hex16 mid)
    = Some r' \<and> mr_status r' = StDelivered \<and> mr_failure_reason r' = Some reason"
proof -
  have "mr_id r = hex16 mid" using assms by (simp add: store_inv_def)
  then have "hm_get (st_messages (snd (set_message_failed reliable (hex16 mid) reason t (sv_storage sv)))) (hex16 mid)
      = Some (r\<lparr>mr_status := StFailed, mr_failure_reason := Some reason, mr_delivered_at_ms := coalesce (mr_delivered_at_ms r) t\<rparr>)"
    using assms(2) by (simp add: set_message_failed_def get_update_rows)
  moreover have "store_inv (snd (set_message_failed reliable (hex16 mid) reason t (sv_storage sv)))"
    using assms(1) by (rule mark_failed_inv)
  ultimately show ?thesis by (simp add: mark_delivered_def hm_get_status)
qed

end
