(* ===== verification/Messaging_Delivery.thy ===== *)
theory Messaging_Delivery
  imports Packet_Delivery Messaging_Service
begin

text \<open>
  The messaging plugin on top of the mesh: what \<^verbatim>\<open>send\<close> hands to the daemon is routed as a control frame,
  reaches the plugin of the other node through its event loop, is stored there, and its
  acknowledgement comes back the same way.
\<close>

section \<open>Routed control frames\<close>

text \<open>What sending and receiving leave of the sessions.\<close>

definition keeps_sending :: "node \<Rightarrow> node \<Rightarrow> bool" where
  "keeps_sending nd nd' \<longleftrightarrow> nd_transport nd' = nd_transport nd \<and> nd_self_id nd' = nd_self_id nd \<and> nd_frag_id nd' = nd_frag_id nd
     \<and> nd_routing nd' = nd_routing nd
     \<and> (\<forall>k s. hm_get (nd_sessions nd) k = Some s \<longrightarrow>
          (\<exists>s'. hm_get (nd_sessions nd') k = Some s' \<and> se_send s' = se_send s \<and> se_peer_id s' = se_peer_id s))"

definition keeps_receiving :: "node \<Rightarrow> node \<Rightarrow> bool" where
  "keeps_receiving nd nd' \<longleftrightarrow> nd_self_id nd' = nd_self_id nd \<and> nd_reassemblers nd' = nd_reassemblers nd \<and> nd_plugins nd' = nd_plugins nd
     \<and> (\<forall>k s. hm_get (nd_sessions nd) k = Some s \<longrightarrow> (\<exists>s'. hm_get (nd_sessions nd') k = Some s' \<and> se_recv s' = se_recv s))"

lemma path_ok_cong:
  assumes "se_recv r_end' = se_recv r_end"
  shows "path_ok dst n rs r_end r \<Longrightarrow> \<exists>r'. se_recv r' = se_recv r \<and> path_ok dst n rs r_end' r'"
proof (induction rs arbitrary: r)
  case (Cons x rs)
  obtain p nd hop c where x: "x = (p, nd, hop, c)" by (cases x)
  from Cons.prems x obtain r2 where r2: "hm_get (nd_sessions nd) p = Some r" "hop \<noteq> p" "dst \<noteq> nd_self_id nd"
    "lookup dst (nd_routing nd) = Some hop" "can_send nd hop c r2 n" "path_ok dst n rs r_end r2" by auto
  obtain r2' where r2': "se_recv r2' = se_recv r2" "path_ok dst n rs r_end' r2'" using Cons.IH [OF r2(6)] by blast
  have "can_send nd hop c r2' n" using r2(5) r2'(1) by (auto simp: can_send_def paired_def)
  with r2 r2' x show ?case by auto
qed (use assms in auto)

lemma connected_by_cong:
  assumes "connected_by a hop c rs from_peer b n" "keeps_sending a a'" "keeps_receiving b b'"
  shows "connected_by a' hop c rs from_peer b' n"
proof -
  obtain r r_end where c: "wf_node_id (nd_self_id a)" "wf_node_id (nd_self_id b)" "length rs \<le> 8"
    "can_send a hop c r n" "path_ok (nd_self_id b) n rs r_end r" "hm_get (nd_sessions b) from_peer = Some r_end"
    "hm_get (ra_buffers (reassembler_for (nd_self_id a) b)) (nd_frag_id a) = None"
    using assms(1) unfolding connected_by_def by blast
  obtain r_end' where e: "hm_get (nd_sessions b') from_peer = Some r_end'" "se_recv r_end' = se_recv r_end"
    using assms(3) c(6) unfolding keeps_receiving_def by blast
  from path_ok_cong [OF e(2) c(5)] obtain r' where r': "se_recv r' = se_recv r" "path_ok (nd_self_id b) n rs r_end' r'" by blast
  obtain s where s: "hm_get (nd_sessions a) hop = Some s" "se_peer_id s = hop" "counter_room s n" "paired s r" "link_room a hop c n"
    using c(4) unfolding can_send_def by blast
  obtain s' where s': "hm_get (nd_sessions a') hop = Some s'" "se_send s' = se_send s" "se_peer_id s' = se_peer_id s"
    using assms(2) s(1) unfolding keeps_sending_def by blast
  have "can_send a' hop c r' n"
    using s s' r'(1) assms(2) by (auto simp: can_send_def paired_def counter_room_def link_room_def keeps_sending_def)
  then show ?thesis
    using c e(1) r'(2) assms(2,3) unfolding connected_by_def keeps_sending_def keeps_receiving_def reassembler_for_def by auto
qed

lemma decrypt_keeps:
  assumes "Session_decrypt_frame A f r = (x, r')"
  shows "se_send r' = se_send r" "se_peer_id r' = se_peer_id r"
  using assms by (auto simp: Session_decrypt_frame_def split: prod.splits outcome.splits)

lemma encrypt_keeps:
  assumes "Session_encrypt_frame A p s = (x, s')"
  shows "se_recv s' = se_recv s"
  using assms by (auto simp: Session_encrypt_frame_def split: prod.splits outcome.splits)

lemma node_send_fields:
  "nd_self_id (node_send now peer f nd) = nd_self_id nd" "nd_sessions (node_send now peer f nd) = nd_sessions nd"
  "nd_reassemblers (node_send now peer f nd) = nd_reassemblers nd" "nd_plugins (node_send now peer f nd) = nd_plugins nd"
  "nd_plugin_out (node_send now peer f nd) = nd_plugin_out nd"
  by (simp_all add: node_send_def split_def Let_def)

lemma send_single_keeps: "keeps_receiving nd (send_single_mesh P now hop src dst ttl flags payload nd)"
proof (cases "hm_get (nd_sessions nd) hop")
  case (Some s)
  let ?m = "\<lparr>mdf_src_id = src, mdf_dst_id = dst, mdf_session_id = 0, mdf_ttl = ttl, mdf_flags = flags, mdf_payload = payload\<rparr>"
  obtain x s' where e: "Session_encrypt_frame (pr_aead P) (MeshDataFrame_encode ?m) s = (x, s')" by fastforce
  then show ?thesis using Some encrypt_keeps [OF e]
    by (cases x) (auto simp: send_single_mesh_def keeps_receiving_def node_send_fields Let_def)
qed (auto simp: send_single_mesh_def keeps_receiving_def)

lemma control_arrives:
  assumes "crypto_ok P" "lookup (nd_self_id b) (nd_routing a) = Some hop" "connected_by a hop c rs from_peer b 1"
    and "length (ControlFrame_encode cf) < 65536"
  shows "\<exists>a' fs b'. send_routed_control P now (nd_self_id b) cf a = (True, a') \<and> keeps_receiving a a'
    \<and> travel P now rs (new_frames a a' c) = Some fs \<and> quiet b b' \<and> keeps_sending b b'
    \<and> receive_all P uplink now from_peer fs b = Some (handle_routed_control now (nd_self_id a) (ControlFrame_encode cf) b')"
proof -
  let ?p = "ControlFrame_encode cf" and ?a = "nd_self_id a" and ?b = "nd_self_id b"
  let ?m = "mesh_frame ?a ?b 8 IS_CONTROL ?p"
  obtain r r_end where cb: "wf_node_id ?a" "wf_node_id ?b" "length rs \<le> 8" "can_send a hop c r 1" "path_ok ?b 1 rs r_end r"
    "hm_get (nd_sessions b) from_peer = Some r_end"
    using assms(3) unfolding connected_by_def by blast
  have sm: "\<forall>m\<in>set [?m]. sendable m \<and> mdf_dst_id m = ?b \<and> length rs \<le> unat (mdf_ttl m)"
    using cb(1-3) assms(4) by (simp add: mesh_frame_def sendable_def wf_mesh_data_frame_def flag_defs)
  let ?a' = "send_mesh P now hop ?m a"
  obtain s where "hm_get (nd_sessions a) hop = Some s" using cb(4) by (auto simp: can_send_def)
  then have sent: "send_routed_control P now ?b cf a = (True, ?a')"
    using assms(2) by (simp add: send_routed_control_def send_routed_control_via_def mesh_frame_def)
  have "\<forall>m\<in>set [?m]. sendable m" "can_send a hop c r (length [?m])" using sm cb(4) by auto
  from send_meshes [OF assms(1) this, of now] obtain fs where
    fs: "sent_on ?a' c = sent_on a c @ fs" "carries (pr_aead P) r fs [?m]" by auto
  have "path_ok ?b (length [?m]) rs r_end r" using cb(5) by simp
  from path_delivers [OF assms(1) this fs(2) sm, of now] obtain fs' where
    fs': "travel P now rs fs = Some fs'" "carries (pr_aead P) r_end fs' [mesh_frame ?a ?b (8 - of_nat (length rs)) IS_CONTROL ?p]"
    by (auto simp: one_less_pow)
  then obtain f f' r' where f: "fs' = [f]" "Session_decrypt_frame (pr_aead P) f r_end = (Ok f', r')"
    "MeshDataFrame_decode (tf_payload f') = Ok (mesh_frame ?a ?b (8 - of_nat (length rs)) IS_CONTROL ?p, [])"
    by (cases fs'; cases "tl fs'") auto
  let ?b' = "b\<lparr>nd_sessions := hm_insert from_peer r' (nd_sessions b)\<rparr>"
  have "DataFlags_contains IS_CONTROL IS_CONTROL" by (simp add: flag_defs)
  then have "receive_all P uplink now from_peer fs' b = Some (handle_routed_control now ?a ?p ?b')"
    unfolding f(1) receive_one using cb(6) f(2,3) by (simp add: handle_data_def handle_local_def Let_def)
  moreover have "quiet b ?b'"
    by (rule quietI [where ss = "hm_insert from_peer r' (nd_sessions b)" and ra = "nd_reassemblers b"
          and pf = "nd_packets_forwarded b" and bf = "nd_bytes_forwarded b"]) simp
  moreover have "keeps_sending b ?b'" using cb(6) decrypt_keeps [OF f(2)] by (auto simp: keeps_sending_def)
  ultimately show ?thesis using sent fs(1) fs'(1) send_single_keeps by (intro exI conjI) auto
qed

section \<open>A message and its acknowledgement\<close>

lemma kinds: "KIND_MESSAGE \<in> set KINDS" "KIND_ACK \<in> set KINDS" "KIND_ACK \<noteq> KIND_MESSAGE"
  "utf8_valid KIND_MESSAGE" "utf8_valid KIND_ACK" "length KIND_MESSAGE = 13" "length KIND_ACK = 13"
  by (simp_all add: KINDS_def) code_simp+

lemma payload_dispatched:
  assumes "kind \<in> set KINDS" "nd_plugins nd = Some [KINDS]" "length body \<le> 65000"
  shows "handle_routed_control now src (ControlFrame_encode (PluginPayload kind body)) nd
      = nd\<lparr>nd_plugin_out := nd_plugin_out nd @ [(0, src, kind, body)]\<rparr>"
    "length (ControlFrame_encode (PluginPayload kind body)) < 65536"
proof -
  have k: "utf8_valid kind" "length kind = 13" using assms(1) kinds by (auto simp: KINDS_def)
  then have "wf_control_frame (PluginPayload kind body)" using assms(3) by simp
  then show "handle_routed_control now src (ControlFrame_encode (PluginPayload kind body)) nd
      = nd\<lparr>nd_plugin_out := nd_plugin_out nd @ [(0, src, kind, body)]\<rparr>"
    using ControlFrame_decode_encode [of "PluginPayload kind body" "[]"] assms(1,2)
    by (simp add: handle_routed_control_def dispatch_plugin_payload_def)
  show "length (ControlFrame_encode (PluginPayload kind body)) < 65536" using k(2) assms(3) by (simp add: Let_def)
qed

lemma payload_arrives:
  assumes "crypto_ok P" "lookup (nd_self_id b) (nd_routing a) = Some hop" "connected_by a hop c rs p b 1"
    and "kind \<in> set KINDS" "nd_plugins b = Some [KINDS]" "length body \<le> 65000"
  shows "\<exists>a' fs b'. send_routed_control P t (nd_self_id b) (PluginPayload kind body) a = (True, a') \<and> keeps_receiving a a'
    \<and> travel P t rs (new_frames a a' c) = Some fs \<and> receive_all P uplink t p fs b = Some b' \<and> keeps_sending b b'
    \<and> nd_plugins b' = nd_plugins b \<and> nd_plugin_out b' = nd_plugin_out b @ [(0, nd_self_id a, kind, body)]"
proof -
  from control_arrives [OF assms(1-3) payload_dispatched(2) [OF assms(4-6)], of t uplink]
  obtain a' fs b' where *: "send_routed_control P t (nd_self_id b) (PluginPayload kind body) a = (True, a')" "keeps_receiving a a'"
    "travel P t rs (new_frames a a' c) = Some fs" "quiet b b'" "keeps_sending b b'"
    "receive_all P uplink t p fs b = Some (handle_routed_control t (nd_self_id a) (ControlFrame_encode (PluginPayload kind body)) b')"
    by blast
  have q: "nd_plugins b' = nd_plugins b" "nd_plugin_out b' = nd_plugin_out b" using *(4) by (auto simp: quiet_def)
  let ?b' = "b'\<lparr>nd_plugin_out := nd_plugin_out b' @ [(0, nd_self_id a, kind, body)]\<rparr>"
  have "receive_all P uplink t p fs b = Some ?b'"
    using *(6) payload_dispatched(1) [OF assms(4) _ assms(6), of b'] q(1) assms(5) by simp
  moreover have "keeps_sending b ?b'" using *(5) by (simp add: keeps_sending_def)
  ultimately show ?thesis using *(1-3) q by (intro exI [of _ a'] exI [of _ fs] exI [of _ ?b']) simp
qed

lemma send_start_succeeds:
  assumes "crypto_ok P" "x25519_correct (pr_x25519 P)" "length nonce = 12" "length body \<le> MAX_BODY_BYTES"
    and "pl_lookup_x25519 ports peer = Some (x25519_public_from_seed (pr_x25519 P) (pr_kdf P) seed)"
  shows "\<exists>rec ct sv1. send_start P ports reliable esk nonce mid ts peer body sv
      = (Ok (rec, PluginPayload KIND_MESSAGE (encode_message mid ts ct)), sv1)
    \<and> e2e_encrypt (pr_aead P) (pr_x25519 P) (pr_kdf P) esk nonce body (x25519_public_from_seed (pr_x25519 P) (pr_kdf P) seed) = Ok ct
    \<and> length ct = length body + 60
    \<and> e2e_decrypt_in_place (pr_aead P) (pr_x25519 P) (pr_kdf P) ct seed = (Ok (), body)"
proof -
  let ?pub = "x25519_public_from_seed (pr_x25519 P) (pr_kdf P) seed"
  have "length body < 2 ^ 36" using assms(4) by (simp add: MAX_BODY_BYTES_def)
  then have "ae_seal (pr_aead P) k n ad body \<noteq> None" for k n ad using assms(1) by (simp add: crypto_ok_def aead_seals_def)
  then obtain ct where ct: "e2e_encrypt (pr_aead P) (pr_x25519 P) (pr_kdf P) esk nonce body ?pub = Ok ct"
    by (fastforce simp: e2e_encrypt_def Let_def split: option.split)
  have ok: "aead_correct (pr_aead P)" using assms(1) by (simp add: crypto_ok_def)
  obtain rec sv1 where "record_local_send reliable peer mid body ts sv = (Ok rec, sv1)"
    by (simp add: record_local_send_def and_then_st_def with_storage_def insert_message_def
        bump_conversation_after_local_send_def execute_def Let_def)
  then show ?thesis
    using ct e2e_opens [OF ok assms(2,3) ct] assms(4,5) by (simp add: send_start_def and_then_st_def)
qed

lemma incoming_stored:
  assumes "length mid = 16" "utf8_valid body"
    and "e2e_decrypt_in_place (pr_aead P) (pr_x25519 P) (pr_kdf P) ct (pl_signing_seed ports) = (Ok (), body)"
  shows "\<exists>sv'. handle_payload P ports control reliable t src KIND_MESSAGE (encode_message mid ts ct) (sv, nd)
      = (sv', snd (control src (PluginPayload KIND_ACK (encode_ack mid (AckKind_as_u8 AckDelivered))) nd))
    \<and> hm_get (st_messages (sv_storage sv')) (hex16 mid) = Some \<lparr>mr_id = hex16 mid, mr_peer_node_id = hex_node_id src,
        mr_direction = DirReceived, mr_body = body, mr_timestamp_ms = ts, mr_status = StDelivered, mr_failure_reason = None,
        mr_delivered_at_ms = Some t, mr_read_at_ms = None\<rparr>"
proof -
  let ?d = "\<lparr>dm_message_id = mid, dm_timestamp_ms = ts, dm_ciphertext = ct\<rparr>"
  let ?r = "received_record src ?d body t"
  obtain bump sv1 where s: "store_received reliable ?r sv = (Ok bump, sv1)"
    by (simp add: store_received_def and_then_st_def with_storage_def insert_message_def
        bump_conversation_after_remote_receive_def execute_def Let_def)
  then have "hm_get (st_messages (sv_storage sv1)) (mr_id ?r) = Some ?r" using message_replaced [of ?r sv] by simp
  then show ?thesis
    using assms s message_roundtrip [OF assms(1), of ts ct]
    by (simp add: handle_payload_def handle_incoming_message_def received_record_def split_def Let_def)
qed

lemma status_after_ack:
  assumes "store_inv (sv_storage sv)" "length mid = 16" "hm_get (st_messages (sv_storage sv)) (hex16 mid) = Some r"
  shows "map_option mr_status (hm_get (st_messages (sv_storage (handle_incoming_message_ack reliable t src
      (encode_ack mid (AckKind_as_u8 AckDelivered)) (send_finish reliable True t' mid peer sv)))) (hex16 mid)) = Some StDelivered"
proof -
  let ?sent = "snd (set_message_status reliable (hex16 mid) StSent None None (sv_storage sv))"
  have "store_inv ?sent" using assms(1) by (simp add: set_status_inv)
  then show ?thesis unfolding ack_delivered(1) [OF assms(2)] using hm_get_status [OF assms(1,3)]
    by (simp add: marks hm_get_status)
qed


definition example_ports :: "u8 \<Rightarrow> u8 \<Rightarrow> plugin_ports" where
  "example_ports self peer = \<lparr>pl_lookup_x25519 = (\<lambda>_. Some (x25519_public_from_seed example_x25519 example_kdf [peer])),
     pl_lookup_name = (\<lambda>_. None), pl_signing_seed = [self]\<rparr>"

abbreviation with_messaging :: "node \<Rightarrow> node" where "with_messaging nd \<equiv> nd\<lparr>nd_plugins := Some [KINDS]\<rparr>"

lemma connected_by_plugins:
  "connected_by (with_messaging a) hop c rs p (with_messaging b) n = connected_by a hop c rs p b n"
  by (simp add: connected_by_def can_send_def link_room_def reassembler_for_def)

lemma example_messaging:
  "store_inv (sv_storage example_service)" "utf8_valid [104, 105]" "length [104, 105 :: u8] \<le> MAX_BODY_BYTES"
  "pr_x25519 example_primitives = example_x25519" "pr_kdf example_primitives = example_kdf"
  by (simp_all add: example_service_def store_inv_def MAX_BODY_BYTES_def example_primitives_def)


text \<open>
  Claim C27: the sender can lose a delivery: \<^verbatim>\<open>send\<close> hands the message to the transport before it
  records that it was sent, and an acknowledgement that arrives in between is overwritten. The message
  then stays in the state sent although it was delivered; handled in the other order it ends as
  delivered.
\<close>

theorem acknowledgement_overwritten:
  assumes "store_inv (sv_storage sv)" "utf8_valid body" "length mid = 16"
    and "send_start P ports reliable esk nonce mid ts peer body sv = (Ok (record, frame), sv1)"
  shows "let ack = handle_incoming_message_ack reliable t1 peer (encode_ack mid (AckKind_as_u8 AckDelivered));
             finish = send_finish reliable True t2 mid peer;
             status = (\<lambda>sv. map_option mr_status (hm_get (st_messages (sv_storage sv)) (hex16 mid)))
         in status (finish (ack sv1)) = Some StSent \<and> status (ack (finish sv1)) = Some StDelivered"
proof -
  have inv1: "store_inv (sv_storage sv1)"
    using send_start_inv [OF assms(1,2), of P ports reliable esk nonce mid ts peer] assms(4) by simp
  note row = send_start_Ok(2) [OF assms(4)]
  let ?ack = "set_message_status reliable (hex16 mid) StDelivered (Some t1) None"
    and ?sent = "set_message_status reliable (hex16 mid) StSent None None"
  have "store_inv (snd (?ack (sv_storage sv1)))" "store_inv (snd (?sent (sv_storage sv1)))"
    using inv1 by (simp_all add: set_status_inv)
  then have "map_option mr_status (hm_get (st_messages (snd (?sent (snd (?ack (sv_storage sv1)))))) (hex16 mid)) = Some StSent"
    "map_option mr_status (hm_get (st_messages (snd (?ack (snd (?sent (sv_storage sv1)))))) (hex16 mid)) = Some StDelivered"
    using hm_get_status [OF inv1 row] by (simp_all add: hm_get_status)
  then show ?thesis unfolding Let_def ack_delivered [OF assms(3)] by (simp add: marks)
qed


theorem acknowledgement_overwritten_witness:
  "\<exists>record frame sv1. send_start example_primitives (example_ports 1 3) reliable [5] (replicate 12 3) (replicate 16 9) 1000
      (example_node 3) [104, 105] example_service = (Ok (record, frame), sv1)
    \<and> map_option mr_status (hm_get (st_messages (sv_storage (send_finish reliable True 1002 (replicate 16 9) (example_node 3)
        (handle_incoming_message_ack reliable 1001 (example_node 3) (encode_ack (replicate 16 9) (AckKind_as_u8 AckDelivered)) sv1))))
        (hex16 (replicate 16 9))) = Some StSent"
proof -
  have key: "pl_lookup_x25519 (example_ports 1 3) (example_node 3)
      = Some (x25519_public_from_seed (pr_x25519 example_primitives) (pr_kdf example_primitives) [3])"
    by (simp add: example_ports_def example_messaging)
  have l: "length (replicate 12 (3 :: u8)) = 12" "length (replicate 16 (9 :: u8)) = 16" by simp_all
  obtain rec frame sv1 where s: "send_start example_primitives (example_ports 1 3) reliable [5] (replicate 12 3) (replicate 16 9) 1000
      (example_node 3) [104, 105] example_service = (Ok (rec, frame), sv1)"
    using send_start_succeeds [OF example_crypto l(1) example_messaging(3) key] by metis
  from acknowledgement_overwritten [OF example_messaging(1,2) l(2) s, of 1001 1002] s show ?thesis
    unfolding Let_def by blast
qed

end
