(* ===== verification/Spec2Isabelle.thy ===== *)
theory Spec2Isabelle
  imports Stream_Framing Daemon_Steps Messaging_Delivery
begin

text \<open>
  A verification library for the proximity internet mesh daemon (the crates under
  \<^verbatim>\<open>src/crates\<close>).
\<close>

section \<open>The wire protocol\<close>

text \<open>
  Claim C38: every frame type survives its codec: a well-formed frame, encoded and followed by arbitrary
  further bytes, decodes to itself and leaves exactly those bytes in the buffer.
\<close>

theorem frames_roundtrip:
  "(wf_transport_frame t \<longrightarrow> TransportFrame_decode (TransportFrame_encode t @ rest) = Ok (t, rest))
   \<and> (wf_mesh_data_frame d \<longrightarrow> MeshDataFrame_decode (MeshDataFrame_encode d @ rest) = Ok (d, rest))
   \<and> (wf_handshake_wire_frame h \<longrightarrow> HandshakeWireFrame_decode (HandshakeWireFrame_encode h @ rest) = Ok (h, rest))
   \<and> (wf_heartbeat_frame b \<longrightarrow> HeartbeatFrame_decode (HeartbeatFrame_encode b @ rest) = Ok (b, rest))
   \<and> (wf_control_frame c \<longrightarrow> ControlFrame_decode (ControlFrame_encode c @ rest) = Ok (c, rest))
   \<and> (wf_route_update_frame u \<longrightarrow> RouteUpdateFrame_decode (RouteUpdateFrame_encode u @ rest) = Ok (u, rest))"
  by (intro conjI impI; rule transport_codec.decode_encode data_codec.decode_encode
      handshake_codec.decode_encode heartbeat_codec.decode_encode control_codec.decode_encode
      route_codec.decode_encode)

theorem frames_roundtrip_witness:
  "let c = Ping 7; u = \<lparr>ru_origin_id = NodeId (replicate 16 1), ru_sequence = 7,
     ru_entries = [\<lparr>re_destination = NodeId (replicate 16 2), re_hops = 3, re_flags = 1, re_mesh_ip = [10, 77, 0, 2]\<rparr>],
     ru_signature = replicate 64 0\<rparr>
   in wf_control_frame c \<and> wf_route_update_frame u
      \<and> ControlFrame_decode (ControlFrame_encode c @ [1, 2]) = Ok (c, [1, 2])
      \<and> RouteUpdateFrame_decode (RouteUpdateFrame_encode u @ [1, 2]) = Ok (u, [1, 2])"
proof -
  let ?u = "\<lparr>ru_origin_id = NodeId (replicate 16 1), ru_sequence = 7,
     ru_entries = [\<lparr>re_destination = NodeId (replicate 16 2), re_hops = 3, re_flags = 1, re_mesh_ip = [10, 77, 0, 2]\<rparr>],
     ru_signature = replicate 64 0\<rparr>"
  have "wf_route_update_frame ?u" "wf_control_frame (Ping 7)"
    by (simp_all add: wf_route_update_frame_def wf_route_entry_def wf_node_id_def MAX_ENTRIES_def)
  then show ?thesis using frames_roundtrip unfolding Let_def by blast
qed

text \<open>
  Claim C39: no decoder of the wire protocol panics, whatever bytes a peer sends.
\<close>

theorem decoders_total:
  "TransportFrame_decode buf \<noteq> Panic \<and> MeshDataFrame_decode buf \<noteq> Panic
   \<and> HandshakeWireFrame_decode buf \<noteq> Panic \<and> HeartbeatFrame_decode buf \<noteq> Panic
   \<and> ControlFrame_decode buf \<noteq> Panic \<and> RouteUpdateFrame_decode buf \<noteq> Panic
   \<and> LengthDelimited_decode buf \<noteq> Panic"
  by (intro conjI transport_codec.decode_no_panic data_codec.decode_no_panic
      handshake_codec.decode_no_panic heartbeat_codec.decode_no_panic control_codec.decode_no_panic
      route_codec.decode_no_panic LengthDelimited_decode_no_panic)

end
